theory Spec2Isabelle
  imports Complex_Main "HOL-Library.Word"
begin

section \<open>Waypoint / loiter navigation (AC\_WPNav) and the barometer drift filter (AP\_Baro)\<close>

text \<open>
  A shallow embedding of \<^verbatim>\<open>libraries/AC_WPNav/AC_WPNav.cpp\<close> and of
  \<^verbatim>\<open>AP_Baro::update_drift_estimate\<close> (APM\_Baro.cpp).

  Conventions of the embedding.
  \<^item> A C \<^verbatim>\<open>float\<close> is a \<^typ>\<open>real\<close>. In the functions named as in the source
    arithmetic is exact: there is no rounding, no infinity and no NaN, and a result on them
    is a statement about this idealised arithmetic. Two properties depend on rounding (the
    loiter speed cap and the scale of a segment); for them the lines concerned are modelled
    again with every arithmetic operation followed by a rounding function, in functions
    whose names end in \<open>_fl\<close> (subsection ``Single-precision arithmetic'').
  \<^item> Where the source divides by a value that nothing keeps away from zero
    (\<^verbatim>\<open>advance_wp_target_along_track\<close>), IEEE arithmetic yields an infinity or a NaN,
    which \<^typ>\<open>real\<close> cannot hold; the model returns \<open>None\<close> there instead of using
    HOL's \<open>x / 0 = 0\<close>.
  \<^item> Member variables keep their names without the leading underscore.
  \<^item> The inertial navigation, the AHRS and the position controller are collaborators
    whose code is not part of the sources; what the navigator reads from them is an
    argument of each function, what it writes to the position controller is returned.
\<close>

subsection \<open>Vectors and math helpers (AP\_Math)\<close>

record Vector2f =
  x2 :: real
  y2 :: real

record Vector3f =
  x3 :: real
  y3 :: real
  z3 :: real

text \<open>
  AP\_Math is not among the sources. The spec lists its helpers as ``3-vector ops,
  bearing, safe\_sqrt, pythag2'' and writes \<open>clamp\<close> for \<^verbatim>\<open>constrain_float\<close>. Its macros
  \<^verbatim>\<open>min\<close> and \<^verbatim>\<open>max\<close> are \<^const>\<open>min\<close> and \<^const>\<open>max\<close>, \<^verbatim>\<open>fabsf\<close> is the absolute value.
\<close>

text \<open>Modelled from the spec: the zero vector, as the constructor of \<^verbatim>\<open>Vector3f\<close> (AP\_Math) leaves it.\<close>

definition vzero :: Vector3f where
  "vzero = \<lparr>x3 = 0, y3 = 0, z3 = 0\<rparr>"

text \<open>Modelled from the spec: \<^verbatim>\<open>Vector3f::operator+\<close> (AP\_Math), a 3-vector operation.\<close>

definition vadd :: "Vector3f \<Rightarrow> Vector3f \<Rightarrow> Vector3f" where
  "vadd a b = \<lparr>x3 = x3 a + x3 b, y3 = y3 a + y3 b, z3 = z3 a + z3 b\<rparr>"

text \<open>Modelled from the spec: \<^verbatim>\<open>Vector3f::operator-\<close> (AP\_Math), the difference of two vectors.\<close>

definition vsub :: "Vector3f \<Rightarrow> Vector3f \<Rightarrow> Vector3f" where
  "vsub a b = \<lparr>x3 = x3 a - x3 b, y3 = y3 a - y3 b, z3 = z3 a - z3 b\<rparr>"

text \<open>Modelled from the spec: the unary \<^verbatim>\<open>Vector3f::operator-\<close> (AP\_Math).\<close>

definition vneg :: "Vector3f \<Rightarrow> Vector3f" where
  "vneg a = \<lparr>x3 = - x3 a, y3 = - y3 a, z3 = - z3 a\<rparr>"

text \<open>Modelled from the spec: \<^verbatim>\<open>Vector3f::operator*\<close> (AP\_Math), a vector times a scalar.\<close>

definition vmul :: "Vector3f \<Rightarrow> real \<Rightarrow> Vector3f" where
  "vmul a k = \<lparr>x3 = x3 a * k, y3 = y3 a * k, z3 = z3 a * k\<rparr>"

text \<open>Modelled from the spec: \<^verbatim>\<open>Vector3f::operator/\<close> (AP\_Math), a vector divided by a scalar.\<close>

definition vdiv :: "Vector3f \<Rightarrow> real \<Rightarrow> Vector3f" where
  "vdiv a k = \<lparr>x3 = x3 a / k, y3 = y3 a / k, z3 = z3 a / k\<rparr>"

text \<open>Modelled from the spec: \<^verbatim>\<open>Vector3f::length\<close> (AP\_Math), the Euclidean length.\<close>

definition vlength :: "Vector3f \<Rightarrow> real" where
  "vlength a = sqrt (x3 a * x3 a + y3 a * y3 a + z3 a * z3 a)"

text \<open>Modelled from the spec: \<^verbatim>\<open>pythagorous2\<close> (AP\_Math), the spec's \<open>pythag2\<close>.\<close>

definition pythagorous2 :: "real \<Rightarrow> real \<Rightarrow> real" where
  "pythagorous2 a b = sqrt (a * a + b * b)"

text \<open>Modelled from the spec: \<^verbatim>\<open>constrain_float\<close> (AP\_Math), the spec's \<open>clamp\<close>.\<close>

definition constrain_float :: "real \<Rightarrow> real \<Rightarrow> real \<Rightarrow> real" where
  "constrain_float amt low high =
     (if amt < low then low else if amt > high then high else amt)"

text \<open>\<^verbatim>\<open>atan2f\<close> of the C library, by quadrants.\<close>

definition atan2f :: "real \<Rightarrow> real \<Rightarrow> real" where
  "atan2f b a =
     (if 0 < a then arctan (b / a)
      else if a < 0 \<and> 0 \<le> b then arctan (b / a) + pi
      else if a < 0 then arctan (b / a) - pi
      else if 0 < b then pi / 2
      else if b < 0 then - (pi / 2)
      else 0)"

subsection \<open>Constants of AC\_WPNav.h\<close>

text \<open>
  The header with the \<^verbatim>\<open>#define\<close>s is not among the sources, so the constants the
  code names are parameters of the model. The theorems say which signs they need.
\<close>

record wpnav_consts =
  WPNAV_ACCELERATION :: real
  WPNAV_LOITER_SPEED_MIN :: real
  WPNAV_LOITER_ACCEL_MIN :: real
  WPNAV_WP_SPEED_MIN :: real
  WPNAV_ALT_HOLD_ACCEL_MAX :: real
  WPNAV_LEASH_LENGTH_MIN :: real

subsection \<open>Collaborators\<close>

record AP_InertialNav =
  position :: Vector3f
  velocity :: Vector3f

record AP_AHRS =
  cos_yaw :: real
  sin_yaw :: real
  yaw_sensor :: real

text \<open>
  Modelled from the spec: the position controller (AC\_PosControl) is not among the
  sources. The spec stipulates its interface only; the model keeps what the navigator
  hands over (\<open>set_*\<close>) and what it reads back (\<open>get_*\<close>) as fields.
  \<^verbatim>\<open>calc_leash_length_xy\<close> and \<^verbatim>\<open>calc_leash_length_z\<close> are arguments of the function
  that calls them.
\<close>

record AC_PosControl =
  pos_target :: Vector3f
  desired_vel :: Vector2f
  speed_cms :: real
  accel_cms :: real
  speed_down_cms :: real
  speed_up_cms :: real
  leash_xy :: real
  leash_up_z :: real
  leash_down_z :: real
  pos_xy_kP :: real

text \<open>Modelled from the spec: \<^verbatim>\<open>AC_PosControl::set_pos_target\<close> stores the target.\<close>

definition set_pos_target :: "Vector3f \<Rightarrow> AC_PosControl \<Rightarrow> AC_PosControl" where
  "set_pos_target p pc = pc\<lparr>pos_target := p\<rparr>"

text \<open>
  Modelled from the spec: \<^verbatim>\<open>AC_PosControl::set_desired_velocity\<close> stores the feed-forward
  velocity.
\<close>

definition set_desired_velocity :: "real \<Rightarrow> real \<Rightarrow> AC_PosControl \<Rightarrow> AC_PosControl" where
  "set_desired_velocity a b pc = pc\<lparr>desired_vel := \<lparr>x2 = a, y2 = b\<rparr>\<rparr>"

text \<open>Modelled from the spec: \<^verbatim>\<open>AC_PosControl::get_desired_velocity\<close> returns it.\<close>

definition get_desired_velocity :: "AC_PosControl \<Rightarrow> Vector2f" where
  "get_desired_velocity pc = desired_vel pc"

text \<open>Modelled from the spec: \<^verbatim>\<open>AC_PosControl::set_speed_xy\<close> stores the horizontal speed limit.\<close>

definition set_speed_xy :: "real \<Rightarrow> AC_PosControl \<Rightarrow> AC_PosControl" where
  "set_speed_xy v pc = pc\<lparr>speed_cms := v\<rparr>"

text \<open>
  Modelled from the spec: \<^verbatim>\<open>AC_PosControl::set_accel_xy\<close> stores the horizontal
  acceleration limit.
\<close>

definition set_accel_xy :: "real \<Rightarrow> AC_PosControl \<Rightarrow> AC_PosControl" where
  "set_accel_xy a pc = pc\<lparr>accel_cms := a\<rparr>"

text \<open>Modelled from the spec: \<^verbatim>\<open>AC_PosControl::set_speed_z\<close> stores the two vertical speed limits.\<close>

definition set_speed_z :: "real \<Rightarrow> real \<Rightarrow> AC_PosControl \<Rightarrow> AC_PosControl" where
  "set_speed_z down up pc = pc\<lparr>speed_down_cms := down, speed_up_cms := up\<rparr>"

subsection \<open>The navigator's state\<close>

datatype segment_type = SEGMENT_STRAIGHT | SEGMENT_SPLINE

record wpnav_flags =
  reached_destination :: bool
  fast_waypoint :: bool
  segment_type :: segment_type

text \<open>The array \<^verbatim>\<open>_hermite_spline_solution[4]\<close>, indexed by constants only.\<close>

record hermite_spline =
  hermite0 :: Vector3f
  hermite1 :: Vector3f
  hermite2 :: Vector3f
  hermite3 :: Vector3f

record AC_WPNav =
  wp_speed_cms :: real
  wp_radius_cm :: real
  wp_speed_up_cms :: real
  wp_speed_down_cms :: real
  loiter_speed_cms :: real
  wp_accel_cms :: real
  pilot_accel_fwd_cms :: real
  pilot_accel_rgt_cms :: real
  loiter_accel_cms :: real
  flags :: wpnav_flags
  origin :: Vector3f
  destination :: Vector3f
  pos_delta_unit :: Vector3f
  track_length :: real
  track_desired :: real
  limited_speed_xy_cms :: real
  track_accel :: real
  track_speed :: real
  track_leash_length :: real
  hermite_spline_solution :: hermite_spline
  yaw :: real

subsection \<open>Loiter controller\<close>

text \<open>\<^verbatim>\<open>AC_WPNav::calc_loiter_desired_velocity\<close>, lines 175 to 224.\<close>

definition calc_loiter_desired_velocity ::
  "wpnav_consts \<Rightarrow> AP_AHRS \<Rightarrow> real \<Rightarrow> AC_WPNav \<times> AC_PosControl \<Rightarrow> AC_WPNav \<times> AC_PosControl" where
  "calc_loiter_desired_velocity C ahrs nav_dt = (\<lambda>(s, pc).
     if nav_dt < 0 then (s, pc)
     else
       let s = (if loiter_speed_cms s < WPNAV_LOITER_SPEED_MIN C
                then s\<lparr>loiter_speed_cms := WPNAV_LOITER_SPEED_MIN C,
                        loiter_accel_cms := WPNAV_LOITER_SPEED_MIN C / 2\<rparr>
                else s);
           desired_accel_x = pilot_accel_fwd_cms s * cos_yaw ahrs - pilot_accel_rgt_cms s * sin_yaw ahrs;
           desired_accel_y = pilot_accel_fwd_cms s * sin_yaw ahrs + pilot_accel_rgt_cms s * cos_yaw ahrs;
           desired_vel_x = x2 (get_desired_velocity pc) + desired_accel_x * nav_dt;
           desired_vel_y = y2 (get_desired_velocity pc) + desired_accel_y * nav_dt;
           desired_vel_x =
             (if desired_vel_x > 0 then
                let v = desired_vel_x
                      - (loiter_accel_cms s - WPNAV_LOITER_ACCEL_MIN C) * nav_dt * desired_vel_x / loiter_speed_cms s
                in max (v - WPNAV_LOITER_ACCEL_MIN C * nav_dt) 0
              else if desired_vel_x < 0 then
                let v = desired_vel_x
                      - (loiter_accel_cms s - WPNAV_LOITER_ACCEL_MIN C) * nav_dt * desired_vel_x / loiter_speed_cms s
                in min (v + WPNAV_LOITER_ACCEL_MIN C * nav_dt) 0
              else desired_vel_x);
           desired_vel_y =
             (if desired_vel_y > 0 then
                let v = desired_vel_y
                      - (loiter_accel_cms s - WPNAV_LOITER_ACCEL_MIN C) * nav_dt * desired_vel_y / loiter_speed_cms s
                in max (v - WPNAV_LOITER_ACCEL_MIN C * nav_dt) 0
              else if desired_vel_y < 0 then
                let v = desired_vel_y
                      - (loiter_accel_cms s - WPNAV_LOITER_ACCEL_MIN C) * nav_dt * desired_vel_y / loiter_speed_cms s
                in min (v + WPNAV_LOITER_ACCEL_MIN C * nav_dt) 0
              else desired_vel_y);
           vel_total = pythagorous2 desired_vel_x desired_vel_y;
           scale = (vel_total > loiter_speed_cms s \<and> vel_total > 0);
           desired_vel_x' = (if scale then loiter_speed_cms s * desired_vel_x / vel_total else desired_vel_x);
           desired_vel_y' = (if scale then loiter_speed_cms s * desired_vel_y / vel_total else desired_vel_y)
       in (s, set_desired_velocity desired_vel_x' desired_vel_y' pc))"

subsection \<open>Waypoint navigation\<close>

text \<open>\<^verbatim>\<open>AC_WPNav::set_horizontal_velocity\<close>, lines 263 to 270.\<close>

definition set_horizontal_velocity ::
  "wpnav_consts \<Rightarrow> real \<Rightarrow> AC_WPNav \<times> AC_PosControl \<Rightarrow> AC_WPNav \<times> AC_PosControl" where
  "set_horizontal_velocity C velocity_cms = (\<lambda>(s, pc).
     if wp_speed_cms s \<ge> WPNAV_WP_SPEED_MIN C then
       let s = s\<lparr>wp_speed_cms := velocity_cms\<rparr>
       in (s, set_speed_xy (wp_speed_cms s) pc)
     else (s, pc))"

text \<open>\<^verbatim>\<open>AC_WPNav::get_bearing_cd\<close>, lines 775 to 782.\<close>

definition get_bearing_cd :: "Vector3f \<Rightarrow> Vector3f \<Rightarrow> real" where
  "get_bearing_cd org dest =
     (let bearing = 9000 + atan2f (- (x3 dest - x3 org)) (y3 dest - y3 org) * 5729.57795
      in if bearing < 0 then bearing + 36000 else bearing)"

text \<open>
  \<^verbatim>\<open>AC_WPNav::calculate_wp_leash_length\<close>, lines 492 to 526. It reads the direction
  from the member \<open>pos_delta_unit\<close> and the leashes from the position controller.
\<close>

definition calculate_wp_leash_length ::
  "wpnav_consts \<Rightarrow> AC_PosControl \<Rightarrow> AC_WPNav \<Rightarrow> AC_WPNav" where
  "calculate_wp_leash_length C pc s =
     (let pos_delta_unit_xy = pythagorous2 (x3 (pos_delta_unit s)) (y3 (pos_delta_unit s));
          pos_delta_unit_z = \<bar>z3 (pos_delta_unit s)\<bar>;
          speed_z = (if z3 (pos_delta_unit s) \<ge> 0 then wp_speed_up_cms s else wp_speed_down_cms s);
          leash_z = (if z3 (pos_delta_unit s) \<ge> 0 then leash_up_z pc else leash_down_z pc)
      in if pos_delta_unit_z = 0 \<and> pos_delta_unit_xy = 0 then
           s\<lparr>track_accel := 0, track_speed := 0,
             track_leash_length := WPNAV_LEASH_LENGTH_MIN C\<rparr>
         else if z3 (pos_delta_unit s) = 0 then
           s\<lparr>track_accel := wp_accel_cms s / pos_delta_unit_xy,
             track_speed := wp_speed_cms s / pos_delta_unit_xy,
             track_leash_length := leash_xy pc / pos_delta_unit_xy\<rparr>
         else if pos_delta_unit_xy = 0 then
           s\<lparr>track_accel := WPNAV_ALT_HOLD_ACCEL_MAX C / pos_delta_unit_z,
             track_speed := speed_z / pos_delta_unit_z,
             track_leash_length := leash_z / pos_delta_unit_z\<rparr>
         else
           s\<lparr>track_accel := min (WPNAV_ALT_HOLD_ACCEL_MAX C / pos_delta_unit_z)
                                 (wp_accel_cms s / pos_delta_unit_xy),
             track_speed := min (speed_z / pos_delta_unit_z) (wp_speed_cms s / pos_delta_unit_xy),
             track_leash_length := min (leash_z / pos_delta_unit_z) (leash_xy pc / pos_delta_unit_xy)\<rparr>)"

text \<open>
  The vehicle's speed along the track, computed alike at lines 336 to 338 and 391 to 393.
\<close>

definition wp_speed_along_track :: "AP_InertialNav \<Rightarrow> AC_WPNav \<Rightarrow> real" where
  "wp_speed_along_track inav s =
     (let curr_vel = velocity inav
      in x3 curr_vel * x3 (pos_delta_unit s) + y3 curr_vel * y3 (pos_delta_unit s)
         + z3 curr_vel * z3 (pos_delta_unit s))"

text \<open>
  \<^verbatim>\<open>AC_WPNav::set_wp_origin_and_destination\<close>, lines 291 to 340. The two leash
  calculations of the position controller are the arguments \<open>calc_leash_length_xy\<close> and
  \<open>calc_leash_length_z\<close>; \<^verbatim>\<open>set_and_save\<close> stores the value (persistence is outside the
  model).
\<close>

definition set_wp_origin_and_destination ::
  "wpnav_consts \<Rightarrow> (AC_PosControl \<Rightarrow> AC_PosControl) \<Rightarrow> (AC_PosControl \<Rightarrow> AC_PosControl) \<Rightarrow>
   AP_InertialNav \<Rightarrow> Vector3f \<Rightarrow> Vector3f \<Rightarrow> AC_WPNav \<times> AC_PosControl \<Rightarrow> AC_WPNav \<times> AC_PosControl" where
  "set_wp_origin_and_destination C calc_leash_length_xy calc_leash_length_z inav org dest = (\<lambda>(s, pc).
     let s = s\<lparr>origin := org, destination := dest\<rparr>;
         pos_delta = vsub (destination s) (origin s);
         s = s\<lparr>track_length := vlength pos_delta\<rparr>;
         s = (if track_length s = 0 then s\<lparr>pos_delta_unit := \<lparr>x3 = 0, y3 = 0, z3 = 0\<rparr>\<rparr>
              else s\<lparr>pos_delta_unit := vdiv pos_delta (track_length s)\<rparr>);
         s = (if wp_accel_cms s \<le> 0 then s\<lparr>wp_accel_cms := WPNAV_ACCELERATION C\<rparr> else s);
         pc = set_speed_xy (wp_speed_cms s) pc;
         pc = set_accel_xy (wp_accel_cms s) pc;
         pc = set_speed_z (- wp_speed_down_cms s) (wp_speed_up_cms s) pc;
         pc = calc_leash_length_xy pc;
         pc = calc_leash_length_z pc;
         s = calculate_wp_leash_length C pc s;
         s = s\<lparr>yaw := get_bearing_cd (origin s) (destination s)\<rparr>;
         pc = set_pos_target org pc;
         s = s\<lparr>track_desired := 0\<rparr>;
         s = s\<lparr>flags := (flags s)\<lparr>reached_destination := False, fast_waypoint := False,
                                   segment_type := SEGMENT_STRAIGHT\<rparr>\<rparr>;
         speed_along_track = wp_speed_along_track inav s;
         s = s\<lparr>limited_speed_xy_cms := constrain_float speed_along_track 0 (wp_speed_cms s)\<rparr>
     in (s, pc))"

text \<open>
  \<^verbatim>\<open>AC_WPNav::advance_wp_target_along_track\<close>, lines 349 to 450, block by block as
  the source's comments divide it.

  Lines 357 to 388: the vehicle's progress along the track, its cross-track error and
  \<open>track_desired_max\<close>, how far along the track the target may be put before the end of
  the leash. The source divides by the leash it selected and by \<open>leash_xy\<close>: when one of
  them is zero the float result is an infinity or a NaN, and the model returns \<open>None\<close>.
\<close>

definition wp_track_desired_max :: "AP_InertialNav \<Rightarrow> AC_PosControl \<Rightarrow> AC_WPNav \<Rightarrow> real option" where
  "wp_track_desired_max inav pc s =
     (let curr_pos = position inav;
          curr_delta = vsub curr_pos (origin s);
          track_covered = x3 curr_delta * x3 (pos_delta_unit s) + y3 curr_delta * y3 (pos_delta_unit s)
                          + z3 curr_delta * z3 (pos_delta_unit s);
          track_covered_pos = vmul (pos_delta_unit s) track_covered;
          track_error = vsub curr_delta track_covered_pos;
          track_error_xy = pythagorous2 (x3 track_error) (y3 track_error);
          track_error_z = \<bar>z3 track_error\<bar>;
          leash_z = (if z3 track_error \<ge> 0 then leash_up_z pc else leash_down_z pc)
      in if leash_z = 0 \<or> leash_xy pc = 0 then None
         else
           let track_extra_max = min (track_leash_length s * (leash_z - track_error_z) / leash_z)
                                     (track_leash_length s * (leash_xy pc - track_error_xy) / leash_xy pc)
           in Some (if track_extra_max < 0 then track_covered else track_covered + track_extra_max))"

text \<open>
  Lines 395 to 400: the speed at which the velocity curve switches from linear to square
  root. The guard \<^verbatim>\<open>kP >= 0.0f\<close> lets \<open>kP = 0\<close> through to the division: \<open>None\<close>.
\<close>

definition wp_linear_velocity :: "AC_PosControl \<Rightarrow> AC_WPNav \<Rightarrow> real option" where
  "wp_linear_velocity pc s =
     (let linear_velocity = wp_speed_cms s;
          kP = pos_xy_kP pc
      in if kP \<ge> 0 then (if kP = 0 then None else Some (track_accel s / kP))
         else Some linear_velocity)"

text \<open>Lines 402 to 424: the update of \<open>limited_speed_xy_cms\<close>.\<close>

definition wp_limit_speed :: "real \<Rightarrow> real \<Rightarrow> real \<Rightarrow> real \<Rightarrow> AC_WPNav \<Rightarrow> AC_WPNav" where
  "wp_limit_speed dt track_desired_max speed_along_track linear_velocity s =
     (if speed_along_track < - linear_velocity then s\<lparr>limited_speed_xy_cms := 0\<rparr>
      else
        let s = (if dt > 0 then
                   (if track_desired_max > track_desired s
                    then s\<lparr>limited_speed_xy_cms := limited_speed_xy_cms s + 2 * track_accel s * dt\<rparr>
                    else s\<lparr>track_desired := track_desired_max\<rparr>)
                 else s);
            s = (if limited_speed_xy_cms s > track_speed s
                 then s\<lparr>limited_speed_xy_cms := track_speed s\<rparr> else s)
        in if \<bar>speed_along_track\<bar> < linear_velocity
           then s\<lparr>limited_speed_xy_cms :=
                    constrain_float (limited_speed_xy_cms s)
                      (speed_along_track - linear_velocity)
                      (speed_along_track + linear_velocity)\<rparr>
           else s)"

text \<open>
  Lines 425 to 430: the target moves; \<open>track_desired_temp\<close> holds the value that
  \<open>track_desired\<close> had when the function was entered.
\<close>

definition wp_move_target :: "real \<Rightarrow> real \<Rightarrow> AC_WPNav \<Rightarrow> AC_WPNav" where
  "wp_move_target dt track_desired_temp s =
     (let track_desired_temp = track_desired_temp + limited_speed_xy_cms s * dt;
          track_desired_temp = constrain_float track_desired_temp 0 (track_length s)
      in s\<lparr>track_desired := max (track_desired s) track_desired_temp\<rparr>)"

text \<open>Lines 435 to 449: has the waypoint been reached?\<close>

definition wp_check_reached :: "Vector3f \<Rightarrow> AC_WPNav \<Rightarrow> AC_WPNav" where
  "wp_check_reached curr_pos s =
     (if \<not> reached_destination (flags s) then
        (if track_desired s \<ge> track_length s then
           (if fast_waypoint (flags s)
            then s\<lparr>flags := (flags s)\<lparr>reached_destination := True\<rparr>\<rparr>
            else
              let dist_to_dest = vsub curr_pos (destination s)
              in if vlength dist_to_dest \<le> wp_radius_cm s
                 then s\<lparr>flags := (flags s)\<lparr>reached_destination := True\<rparr>\<rparr>
                 else s)
         else s)
      else s)"

definition advance_wp_target_along_track ::
  "AP_InertialNav \<Rightarrow> real \<Rightarrow> AC_WPNav \<times> AC_PosControl \<Rightarrow> (AC_WPNav \<times> AC_PosControl) option" where
  "advance_wp_target_along_track inav dt = (\<lambda>(s, pc).
     case wp_track_desired_max inav pc s of
       None \<Rightarrow> None
     | Some track_desired_max \<Rightarrow>
         (case wp_linear_velocity pc s of
            None \<Rightarrow> None
          | Some linear_velocity \<Rightarrow>
              let track_desired_temp = track_desired s;
                  speed_along_track = wp_speed_along_track inav s;
                  s = wp_limit_speed dt track_desired_max speed_along_track linear_velocity s;
                  s = wp_move_target dt track_desired_temp s;
                  pc = set_pos_target (vadd (origin s) (vmul (pos_delta_unit s) (track_desired s))) pc;
                  s = wp_check_reached (position inav) s
              in Some (s, pc)))"

text \<open>
  A sequence of calls to \<^verbatim>\<open>advance_wp_target_along_track\<close>. Each call comes with its
  \<open>dt\<close> and with what the inertial navigation and the position controller report at that
  moment; the result lists the navigator's state after each call.
\<close>

record wp_tick =
  tick_dt :: real
  tick_inav :: AP_InertialNav
  tick_pos_control :: AC_PosControl

fun wp_run :: "AC_WPNav \<Rightarrow> wp_tick list \<Rightarrow> AC_WPNav list option" where
  "wp_run s [] = Some []"
| "wp_run s (t # ts) =
     (case advance_wp_target_along_track (tick_inav t) (tick_dt t) (s, tick_pos_control t) of
        None \<Rightarrow> None
      | Some (s', pc') \<Rightarrow> (case wp_run s' ts of None \<Rightarrow> None | Some ss \<Rightarrow> Some (s' # ss)))"

text \<open>The divisors of a call are away from zero whichever leash it selects.\<close>

definition tick_finite :: "wp_tick \<Rightarrow> bool" where
  "tick_finite t \<longleftrightarrow>
     leash_xy (tick_pos_control t) \<noteq> 0 \<and> leash_up_z (tick_pos_control t) \<noteq> 0 \<and>
     leash_down_z (tick_pos_control t) \<noteq> 0 \<and> pos_xy_kP (tick_pos_control t) \<noteq> 0"

subsection \<open>Spline segments\<close>

text \<open>\<^verbatim>\<open>AC_WPNav::update_spline_solution\<close>, lines 697 to 703.\<close>

definition update_spline_solution ::
  "Vector3f \<Rightarrow> Vector3f \<Rightarrow> Vector3f \<Rightarrow> Vector3f \<Rightarrow> AC_WPNav \<Rightarrow> AC_WPNav" where
  "update_spline_solution org dest origin_vel dest_vel s =
     s\<lparr>hermite_spline_solution :=
         \<lparr>hermite0 = org,
          hermite1 = origin_vel,
          hermite2 = vsub (vadd (vsub (vmul (vneg org) 3) (vmul origin_vel 2)) (vmul dest 3)) dest_vel,
          hermite3 = vadd (vsub (vadd (vmul org 2) origin_vel) (vmul dest 2)) dest_vel\<rparr>\<rparr>"

text \<open>\<^verbatim>\<open>AC_WPNav::calc_spline_pos_vel\<close>, lines 753 to 766: position and velocity.\<close>

definition calc_spline_pos_vel :: "AC_WPNav \<Rightarrow> real \<Rightarrow> Vector3f \<times> Vector3f" where
  "calc_spline_pos_vel s spline_time =
     (let spline_time_sqrd = spline_time * spline_time;
          spline_time_cubed = spline_time_sqrd * spline_time;
          h = hermite_spline_solution s;
          pos = vadd (vadd (vadd (hermite0 h) (vmul (hermite1 h) spline_time))
                           (vmul (hermite2 h) spline_time_sqrd))
                     (vmul (hermite3 h) spline_time_cubed);
          vel = vadd (vadd (hermite1 h) (vmul (vmul (hermite2 h) 2) spline_time))
                     (vmul (vmul (hermite3 h) 3) spline_time_sqrd)
      in (pos, vel))"

subsection \<open>Barometer drift estimate (AP\_Baro)\<close>

text \<open>
  The class \<^verbatim>\<open>LowPassFilterFloat\<close> (libraries/Filter) is not among the sources: the
  drift estimator takes its two operations as arguments, over any filter state \<open>'f\<close>.
\<close>

record 'f filter_ops =
  filter_set_time_constant :: "real \<Rightarrow> real \<Rightarrow> 'f \<Rightarrow> 'f"
  filter_apply :: "real \<Rightarrow> 'f \<Rightarrow> real \<times> 'f"

record 'f AP_Baro =
  ground_temperature :: real
  ground_pressure :: real
  alt_offset :: "8 word"
  altitude :: real
  cal_time :: "32 word"
  drift_est :: real
  drift_gnd_level :: real
  drift_init_count :: "16 word"
  drift_filter :: 'f
  drift_tc :: real
  drift_init_period :: real

text \<open>
  The test \<^verbatim>\<open>millis() < _cal_time + _drift_init_period * 1000\<close> of
  \<^verbatim>\<open>update_drift_estimate\<close>: the drift initialisation window is still open.
\<close>

definition drift_init_window :: "32 word \<Rightarrow> 'f AP_Baro \<Rightarrow> bool" where
  "drift_init_window millis s \<longleftrightarrow>
     real (unat millis) < real (unat (cal_time s)) + drift_init_period s * 1000"

text \<open>
  \<^verbatim>\<open>AP_Baro::update_drift_estimate\<close>, lines 222 to 259 of APM\_Baro.cpp; \<open>millis\<close> is
  the scheduler's clock at the call.
\<close>

definition update_drift_estimate ::
  "'f filter_ops \<Rightarrow> 32 word \<Rightarrow> real \<Rightarrow> real \<Rightarrow> 'f AP_Baro \<Rightarrow> 'f AP_Baro" where
  "update_drift_estimate F millis alt dt s =
     (if drift_init_window millis s then
        s\<lparr>drift_gnd_level := drift_gnd_level s + alt,
          drift_init_count := drift_init_count s + 1\<rparr>
      else
        let s = (if drift_init_count s > 0 then
                   let s = s\<lparr>drift_gnd_level := drift_gnd_level s / real (unat (drift_init_count s))\<rparr>;
                       s = s\<lparr>drift_init_count := 0\<rparr>;
                       s = s\<lparr>drift_filter := filter_set_time_constant F dt (drift_tc s) (drift_filter s)\<rparr>;
                       r = filter_apply F 0 (drift_filter s)
                   in s\<lparr>drift_est := fst r, drift_filter := snd r\<rparr>
                 else s)
        in if drift_tc s < 0 then s\<lparr>drift_est := 0\<rparr>
           else
             let innov = altitude s + real_of_int (sint (alt_offset s)) - drift_est s
                         - (alt - drift_gnd_level s)
             in if innov < 5 then
                  let s = s\<lparr>drift_filter := filter_set_time_constant F dt (drift_tc s) (drift_filter s)\<rparr>;
                      r = filter_apply F (innov + drift_est s) (drift_filter s)
                  in s\<lparr>drift_est := fst r, drift_filter := snd r\<rparr>
                else s)"

text \<open>\<^verbatim>\<open>AP_Baro::get_drift_estimate\<close>, AP\_Baro.h line 85.\<close>

definition get_drift_estimate :: "'f AP_Baro \<Rightarrow> real" where
  "get_drift_estimate s = drift_est s"

text \<open>
  \<^verbatim>\<open>AP_Baro::update_calibration\<close>, lines 135 to 140: the driver's current pressure and
  temperature and the scheduler's clock are arguments.
\<close>

definition update_calibration :: "real \<Rightarrow> real \<Rightarrow> 32 word \<Rightarrow> 'f AP_Baro \<Rightarrow> 'f AP_Baro" where
  "update_calibration pressure temperature millis s =
     s\<lparr>ground_pressure := pressure, ground_temperature := temperature, cal_time := millis\<rparr>"

text \<open>
  Modelled from the spec: the class \<^verbatim>\<open>LowPassFilterFloat\<close> (libraries/Filter) is not among
  the sources. The spec calls it ``a first-order low-pass filter'' with the time constant
  \<open>drift_tc\<close>, ``updated each call using the caller-supplied dt''. Its state: the gain and
  the last output. The general results below hold for every filter; this one serves in
  the concrete examples.
\<close>

record LowPassFilter =
  alpha :: real
  base_value :: real

text \<open>
  Modelled from the spec: \<^verbatim>\<open>LowPassFilter::set_time_constant\<close>, the gain of a first-order
  low-pass filter with time constant \<open>tc\<close> sampled every \<open>dt\<close>, \<open>dt / (tc + dt)\<close>.
\<close>

definition lpf_set_time_constant :: "real \<Rightarrow> real \<Rightarrow> LowPassFilter \<Rightarrow> LowPassFilter" where
  "lpf_set_time_constant time_step time_constant f =
     (if time_constant + time_step \<le> 0 then f\<lparr>alpha := 1\<rparr>
      else f\<lparr>alpha := time_step / (time_constant + time_step)\<rparr>)"

text \<open>
  Modelled from the spec: \<^verbatim>\<open>LowPassFilter::apply\<close>, the output moves from its previous
  value towards the sample by the gain and is returned.
\<close>

definition lpf_apply :: "real \<Rightarrow> LowPassFilter \<Rightarrow> real \<times> LowPassFilter" where
  "lpf_apply sample f =
     (let f = f\<lparr>base_value := base_value f + alpha f * (sample - base_value f)\<rparr>
      in (base_value f, f))"

text \<open>Modelled from the spec: the two operations of the filter, as the drift estimator takes them.\<close>

definition LowPassFilter_ops :: "LowPassFilter filter_ops" where
  "LowPassFilter_ops = \<lparr>filter_set_time_constant = lpf_set_time_constant, filter_apply = lpf_apply\<rparr>"

subsection \<open>Single-precision arithmetic\<close>

text \<open>
  The C type \<^verbatim>\<open>float\<close> of the targets is IEEE 754 binary32: 24 significant bits, every
  operation rounded to the nearest representable value, ties to the even significand.
  \<open>round24\<close> is that rounding on the reals, with the exponent range left unbounded (no
  overflow, no underflow, no subnormal numbers): \<open>expo x\<close> is the binary exponent of \<open>x\<close>,
  and \<open>rne\<close> rounds to the nearest integer, ties to even.
\<close>

definition expo :: "real \<Rightarrow> int" where
  "expo x = \<lfloor>log 2 \<bar>x\<bar>\<rfloor>"

definition rne :: "real \<Rightarrow> int" where
  "rne y = (let f = \<lfloor>y\<rfloor>; d = y - of_int f
            in if d < 1 / 2 then f else if 1 / 2 < d then f + 1
               else if even f then f else f + 1)"

definition round24 :: "real \<Rightarrow> real" where
  "round24 x = (if x = 0 then 0
                else of_int (rne (x / 2 powi (expo x - 23))) * 2 powi (expo x - 23))"

text \<open>
  The functions below repeat lines of the source with every arithmetic operation followed
  by a rounding function \<open>fl\<close>, each operation rounded to the format of its operands, none
  fused with another. Comparisons, \<^verbatim>\<open>min\<close>, \<^verbatim>\<open>max\<close>, \<^verbatim>\<open>fabsf\<close> and the unary minus are
  exact in a binary format and carry no rounding. With \<open>round24\<close> for \<open>fl\<close> they compute
  what the program computes in binary32 (away from overflow and underflow); with the
  identity for \<open>fl\<close> they are the functions over the reals above.
\<close>

text \<open>
  Modelled from the spec: \<^verbatim>\<open>pythagorous2\<close> (AP\_Math), \<^verbatim>\<open>sqrtf(sq(a)+sq(b))\<close>, with its two
  products, its sum and its square root rounded.
\<close>

definition pythagorous2_fl :: "(real \<Rightarrow> real) \<Rightarrow> real \<Rightarrow> real \<Rightarrow> real" where
  "pythagorous2_fl fl a b = fl (sqrt (fl (fl (a * a) + fl (b * b))))"

text \<open>Modelled from the spec: \<^verbatim>\<open>Vector3f::operator-\<close> (AP\_Math), each difference rounded.\<close>

definition vsub_fl :: "(real \<Rightarrow> real) \<Rightarrow> Vector3f \<Rightarrow> Vector3f \<Rightarrow> Vector3f" where
  "vsub_fl fl a b = \<lparr>x3 = fl (x3 a - x3 b), y3 = fl (y3 a - y3 b), z3 = fl (z3 a - z3 b)\<rparr>"

text \<open>Modelled from the spec: \<^verbatim>\<open>Vector3f::operator/\<close> (AP\_Math), each quotient rounded.\<close>

definition vdiv_fl :: "(real \<Rightarrow> real) \<Rightarrow> Vector3f \<Rightarrow> real \<Rightarrow> Vector3f" where
  "vdiv_fl fl a k = \<lparr>x3 = fl (x3 a / k), y3 = fl (y3 a / k), z3 = fl (z3 a / k)\<rparr>"

text \<open>
  Modelled from the spec: \<^verbatim>\<open>Vector3f::length\<close> (AP\_Math), the square root of the sum of
  the three squares, added from left to right, every operation rounded.
\<close>

definition vlength_fl :: "(real \<Rightarrow> real) \<Rightarrow> Vector3f \<Rightarrow> real" where
  "vlength_fl fl a = fl (sqrt (fl (fl (fl (x3 a * x3 a) + fl (y3 a * y3 a)) + fl (z3 a * z3 a))))"

text \<open>
  \<^verbatim>\<open>AC_WPNav::calc_loiter_desired_velocity\<close>, lines 175 to 224, in rounded arithmetic.
  A product or quotient of several factors is evaluated from left to right.
\<close>

definition calc_loiter_desired_velocity_fl ::
  "(real \<Rightarrow> real) \<Rightarrow> wpnav_consts \<Rightarrow> AP_AHRS \<Rightarrow> real \<Rightarrow>
   AC_WPNav \<times> AC_PosControl \<Rightarrow> AC_WPNav \<times> AC_PosControl" where
  "calc_loiter_desired_velocity_fl fl C ahrs nav_dt = (\<lambda>(s, pc).
     if nav_dt < 0 then (s, pc)
     else
       let s = (if loiter_speed_cms s < WPNAV_LOITER_SPEED_MIN C
                then s\<lparr>loiter_speed_cms := WPNAV_LOITER_SPEED_MIN C,
                        loiter_accel_cms := fl (WPNAV_LOITER_SPEED_MIN C / 2)\<rparr>
                else s);
           desired_accel_x = fl (fl (pilot_accel_fwd_cms s * cos_yaw ahrs) - fl (pilot_accel_rgt_cms s * sin_yaw ahrs));
           desired_accel_y = fl (fl (pilot_accel_fwd_cms s * sin_yaw ahrs) + fl (pilot_accel_rgt_cms s * cos_yaw ahrs));
           desired_vel_x = fl (x2 (get_desired_velocity pc) + fl (desired_accel_x * nav_dt));
           desired_vel_y = fl (y2 (get_desired_velocity pc) + fl (desired_accel_y * nav_dt));
           desired_vel_x =
             (if desired_vel_x > 0 then
                let v = fl (desired_vel_x
                      - fl (fl (fl (fl (loiter_accel_cms s - WPNAV_LOITER_ACCEL_MIN C) * nav_dt) * desired_vel_x) / loiter_speed_cms s))
                in max (fl (v - fl (WPNAV_LOITER_ACCEL_MIN C * nav_dt))) 0
              else if desired_vel_x < 0 then
                let v = fl (desired_vel_x
                      - fl (fl (fl (fl (loiter_accel_cms s - WPNAV_LOITER_ACCEL_MIN C) * nav_dt) * desired_vel_x) / loiter_speed_cms s))
                in min (fl (v + fl (WPNAV_LOITER_ACCEL_MIN C * nav_dt))) 0
              else desired_vel_x);
           desired_vel_y =
             (if desired_vel_y > 0 then
                let v = fl (desired_vel_y
                      - fl (fl (fl (fl (loiter_accel_cms s - WPNAV_LOITER_ACCEL_MIN C) * nav_dt) * desired_vel_y) / loiter_speed_cms s))
                in max (fl (v - fl (WPNAV_LOITER_ACCEL_MIN C * nav_dt))) 0
              else if desired_vel_y < 0 then
                let v = fl (desired_vel_y
                      - fl (fl (fl (fl (loiter_accel_cms s - WPNAV_LOITER_ACCEL_MIN C) * nav_dt) * desired_vel_y) / loiter_speed_cms s))
                in min (fl (v + fl (WPNAV_LOITER_ACCEL_MIN C * nav_dt))) 0
              else desired_vel_y);
           vel_total = pythagorous2_fl fl desired_vel_x desired_vel_y;
           scale = (vel_total > loiter_speed_cms s \<and> vel_total > 0);
           desired_vel_x' = (if scale then fl (fl (loiter_speed_cms s * desired_vel_x) / vel_total) else desired_vel_x);
           desired_vel_y' = (if scale then fl (fl (loiter_speed_cms s * desired_vel_y) / vel_total) else desired_vel_y)
       in (s, set_desired_velocity desired_vel_x' desired_vel_y' pc))"

text \<open>\<^verbatim>\<open>AC_WPNav::calculate_wp_leash_length\<close>, lines 492 to 526, in rounded arithmetic.\<close>

definition calculate_wp_leash_length_fl ::
  "(real \<Rightarrow> real) \<Rightarrow> wpnav_consts \<Rightarrow> AC_PosControl \<Rightarrow> AC_WPNav \<Rightarrow> AC_WPNav" where
  "calculate_wp_leash_length_fl fl C pc s =
     (let pos_delta_unit_xy = pythagorous2_fl fl (x3 (pos_delta_unit s)) (y3 (pos_delta_unit s));
          pos_delta_unit_z = \<bar>z3 (pos_delta_unit s)\<bar>;
          speed_z = (if z3 (pos_delta_unit s) \<ge> 0 then wp_speed_up_cms s else wp_speed_down_cms s);
          leash_z = (if z3 (pos_delta_unit s) \<ge> 0 then leash_up_z pc else leash_down_z pc)
      in if pos_delta_unit_z = 0 \<and> pos_delta_unit_xy = 0 then
           s\<lparr>track_accel := 0, track_speed := 0,
             track_leash_length := WPNAV_LEASH_LENGTH_MIN C\<rparr>
         else if z3 (pos_delta_unit s) = 0 then
           s\<lparr>track_accel := fl (wp_accel_cms s / pos_delta_unit_xy),
             track_speed := fl (wp_speed_cms s / pos_delta_unit_xy),
             track_leash_length := fl (leash_xy pc / pos_delta_unit_xy)\<rparr>
         else if pos_delta_unit_xy = 0 then
           s\<lparr>track_accel := fl (WPNAV_ALT_HOLD_ACCEL_MAX C / pos_delta_unit_z),
             track_speed := fl (speed_z / pos_delta_unit_z),
             track_leash_length := fl (leash_z / pos_delta_unit_z)\<rparr>
         else
           s\<lparr>track_accel := min (fl (WPNAV_ALT_HOLD_ACCEL_MAX C / pos_delta_unit_z))
                                 (fl (wp_accel_cms s / pos_delta_unit_xy)),
             track_speed := min (fl (speed_z / pos_delta_unit_z)) (fl (wp_speed_cms s / pos_delta_unit_xy)),
             track_leash_length := min (fl (leash_z / pos_delta_unit_z)) (fl (leash_xy pc / pos_delta_unit_xy))\<rparr>)"

text \<open>
  \<^verbatim>\<open>AC_WPNav::set_wp_origin_and_destination\<close> from line 294 to its call of
  \<^verbatim>\<open>calculate_wp_leash_length\<close> at line 323, in rounded arithmetic. The lines after the
  call (bearing, position target, flags, initial speed) write none of \<open>track_accel\<close>,
  \<open>track_speed\<close> and \<open>track_leash_length\<close>.
\<close>

definition set_wp_leash_fl ::
  "(real \<Rightarrow> real) \<Rightarrow> wpnav_consts \<Rightarrow> (AC_PosControl \<Rightarrow> AC_PosControl) \<Rightarrow>
   (AC_PosControl \<Rightarrow> AC_PosControl) \<Rightarrow> Vector3f \<Rightarrow> Vector3f \<Rightarrow>
   AC_WPNav \<times> AC_PosControl \<Rightarrow> AC_WPNav \<times> AC_PosControl" where
  "set_wp_leash_fl fl C calc_leash_length_xy calc_leash_length_z org dest = (\<lambda>(s, pc).
     let s = s\<lparr>origin := org, destination := dest\<rparr>;
         pos_delta = vsub_fl fl (destination s) (origin s);
         s = s\<lparr>track_length := vlength_fl fl pos_delta\<rparr>;
         s = (if track_length s = 0 then s\<lparr>pos_delta_unit := \<lparr>x3 = 0, y3 = 0, z3 = 0\<rparr>\<rparr>
              else s\<lparr>pos_delta_unit := vdiv_fl fl pos_delta (track_length s)\<rparr>);
         s = (if wp_accel_cms s \<le> 0 then s\<lparr>wp_accel_cms := WPNAV_ACCELERATION C\<rparr> else s);
         pc = set_speed_xy (wp_speed_cms s) pc;
         pc = set_accel_xy (wp_accel_cms s) pc;
         pc = set_speed_z (- wp_speed_down_cms s) (wp_speed_up_cms s) pc;
         pc = calc_leash_length_xy pc;
         pc = calc_leash_length_z pc;
         s = calculate_wp_leash_length_fl fl C pc s
     in (s, pc))"

subsection \<open>Auxiliary definitions\<close>

text \<open>
  The position controller as \<^verbatim>\<open>set_wp_origin_and_destination\<close> leaves it at line 320,
  when \<^verbatim>\<open>calculate_wp_leash_length\<close> reads the leashes.
\<close>

definition wp_leash_pos_control ::
  "wpnav_consts \<Rightarrow> (AC_PosControl \<Rightarrow> AC_PosControl) \<Rightarrow> (AC_PosControl \<Rightarrow> AC_PosControl) \<Rightarrow>
   AC_WPNav \<Rightarrow> AC_PosControl \<Rightarrow> AC_PosControl" where
  "wp_leash_pos_control C cxy cz s pc =
     cz (cxy (set_speed_z (- wp_speed_down_cms s) (wp_speed_up_cms s)
       (set_accel_xy (if wp_accel_cms s \<le> 0 then WPNAV_ACCELERATION C else wp_accel_cms s)
          (set_speed_xy (wp_speed_cms s) pc))))"

text \<open>
  The invariant of a straight segment: the target lies on the track, the acceleration
  along the track is not negative, and once the target has left the origin neither the
  limited speed nor the top speed is negative.
\<close>

definition wp_inv :: "AC_WPNav \<Rightarrow> bool" where
  "wp_inv s \<longleftrightarrow> 0 \<le> track_desired s \<and> track_desired s \<le> track_length s \<and> 0 \<le> track_accel s \<and>
     (track_desired s = 0 \<or> (0 \<le> limited_speed_xy_cms s \<and> 0 \<le> track_speed s))"

text \<open>A segment of length zero to \<open>dest\<close> whose target is at the origin, not yet a fast waypoint.\<close>

definition zero_segment :: "Vector3f \<Rightarrow> real \<Rightarrow> AC_WPNav \<Rightarrow> bool" where
  "zero_segment dest r s \<longleftrightarrow>
     track_length s = 0 \<and> track_desired s = 0 \<and> \<not> fast_waypoint (flags s) \<and>
     destination s = dest \<and> wp_radius_cm s = r"

text \<open>
  \<open>rel_err u p q x y\<close>: \<open>x\<close> is \<open>y\<close> times a factor between \<open>(1 - u)\<^sup>p / (1 + u)\<^sup>q\<close> and
  \<open>(1 + u)\<^sup>p / (1 - u)\<^sup>q\<close>, the error that \<open>p\<close> roundings of relative error \<open>u\<close> in a
  numerator and \<open>q\<close> in a denominator can leave. With \<open>u = 0\<close> it is \<open>x = y\<close>.
\<close>

definition rel_err :: "real \<Rightarrow> nat \<Rightarrow> nat \<Rightarrow> real \<Rightarrow> real \<Rightarrow> bool" where
  "rel_err u p q x y \<longleftrightarrow>
     (\<exists>r. (1 - u) ^ p / (1 + u) ^ q \<le> r \<and> r \<le> (1 + u) ^ p / (1 - u) ^ q \<and> x = r * y)"

text \<open>The direction of a vector in exact arithmetic, zero for the zero vector.\<close>

definition unit_vector :: "Vector3f \<Rightarrow> Vector3f" where
  "unit_vector d = (if vlength d = 0 then \<lparr>x3 = 0, y3 = 0, z3 = 0\<rparr> else vdiv d (vlength d))"

subsection \<open>Example configuration\<close>

text \<open>
  The tunable parameters at the defaults of the parameter table (WP\_SPEED 500,
  WP\_RADIUS 200, WP\_SPEED\_UP 250, WP\_SPEED\_DOWN 150, LOIT\_SPEED 500, WP\_ACCEL 100),
  sample values for the constants, and a position controller with a horizontal leash
  of 1000 cm and \<open>kP = 1\<close>.
\<close>

definition example_consts :: wpnav_consts where
  "example_consts =
     \<lparr>WPNAV_ACCELERATION = 100, WPNAV_LOITER_SPEED_MIN = 100, WPNAV_LOITER_ACCEL_MIN = 25,
      WPNAV_WP_SPEED_MIN = 100, WPNAV_ALT_HOLD_ACCEL_MAX = 250, WPNAV_LEASH_LENGTH_MIN = 100\<rparr>"

definition example_wpnav :: AC_WPNav where
  "example_wpnav =
     \<lparr>wp_speed_cms = 500, wp_radius_cm = 200, wp_speed_up_cms = 250, wp_speed_down_cms = 150,
      loiter_speed_cms = 500, wp_accel_cms = 100, pilot_accel_fwd_cms = 0,
      pilot_accel_rgt_cms = 0, loiter_accel_cms = 250,
      flags = \<lparr>reached_destination = False, fast_waypoint = False, segment_type = SEGMENT_STRAIGHT\<rparr>,
      origin = vzero, destination = vzero, pos_delta_unit = vzero, track_length = 0,
      track_desired = 0, limited_speed_xy_cms = 0, track_accel = 0, track_speed = 0,
      track_leash_length = 0,
      hermite_spline_solution = \<lparr>hermite0 = vzero, hermite1 = vzero, hermite2 = vzero, hermite3 = vzero\<rparr>,
      yaw = 0\<rparr>"

definition example_pos_control :: AC_PosControl where
  "example_pos_control =
     \<lparr>pos_target = vzero, desired_vel = \<lparr>x2 = 0, y2 = 0\<rparr>, speed_cms = 500, accel_cms = 100,
      speed_down_cms = - 150, speed_up_cms = 250, leash_xy = 1000, leash_up_z = 750,
      leash_down_z = 750, pos_xy_kP = 1\<rparr>"

definition example_tick :: "real \<Rightarrow> Vector3f \<Rightarrow> Vector3f \<Rightarrow> wp_tick" where
  "example_tick dt pos vel =
     \<lparr>tick_dt = dt, tick_inav = \<lparr>position = pos, velocity = vel\<rparr>,
      tick_pos_control = example_pos_control\<rparr>"

text \<open>A level segment of 10 m, set while the vehicle rests at the origin.\<close>

definition example_segment :: AC_WPNav where
  "example_segment =
     fst (set_wp_origin_and_destination example_consts (\<lambda>p. p) (\<lambda>p. p)
            \<lparr>position = vzero, velocity = vzero\<rparr> vzero \<lparr>x3 = 1000, y3 = 0, z3 = 0\<rparr>
            (example_wpnav, example_pos_control))"

text \<open>A segment of length zero.\<close>

definition example_zero_segment :: AC_WPNav where
  "example_zero_segment =
     fst (set_wp_origin_and_destination example_consts (\<lambda>p. p) (\<lambda>p. p)
            \<lparr>position = vzero, velocity = vzero\<rparr> vzero vzero
            (example_wpnav, example_pos_control))"

text \<open>A vertical segment of 10 m, set while the vehicle climbs at 400 cm/s.\<close>

definition example_climb_segment :: AC_WPNav where
  "example_climb_segment =
     fst (set_wp_origin_and_destination example_consts (\<lambda>p. p) (\<lambda>p. p)
            \<lparr>position = vzero, velocity = \<lparr>x3 = 0, y3 = 0, z3 = 400\<rparr>\<rparr>
            vzero \<lparr>x3 = 0, y3 = 0, z3 = 1000\<rparr> (example_wpnav, example_pos_control))"

text \<open>
  A barometer after start-up, and the same barometer later: the first drift window has
  closed, one innovation of 4 m has been filtered, the calibration has been updated at
  2000 ms and one external altitude has been accumulated in the new window.
\<close>

definition example_baro_boot :: "LowPassFilter AP_Baro" where
  "example_baro_boot =
     \<lparr>ground_temperature = 25, ground_pressure = 101325, alt_offset = 0, altitude = 4,
      cal_time = 0, drift_est = 0, drift_gnd_level = 0, drift_init_count = 0,
      drift_filter = \<lparr>alpha = 1, base_value = 0\<rparr>, drift_tc = 1, drift_init_period = 1\<rparr>"

definition example_baro :: "LowPassFilter AP_Baro" where
  "example_baro =
     \<lparr>ground_temperature = 25, ground_pressure = 101325, alt_offset = 0, altitude = 4,
      cal_time = 2000, drift_est = 2, drift_gnd_level = 0, drift_init_count = 1,
      drift_filter = \<lparr>alpha = 1 / 2, base_value = 2\<rparr>, drift_tc = 1, drift_init_period = 1\<rparr>"

text \<open>A vehicle heading north.\<close>

definition example_ahrs :: AP_AHRS where
  "example_ahrs = \<lparr>cos_yaw = 1, sin_yaw = 0, yaw_sensor = 0\<rparr>"

section \<open>Auxiliary lemmas\<close>

subsection \<open>Math helpers\<close>

lemma constrain_float_range: "lo \<le> hi \<Longrightarrow> lo \<le> constrain_float a lo hi \<and> constrain_float a lo hi \<le> hi"
  by (simp add: constrain_float_def)

lemma pythagorous2_nonneg: "0 \<le> pythagorous2 a b"
  by (simp add: pythagorous2_def)

lemma vlength_nonneg: "0 \<le> vlength a"
  by (simp add: vlength_def)

lemma vlength_scale: "0 < c \<Longrightarrow> vlength (vmul d c) = vlength d * c"
proof -
  assume c: "0 < c"
  have "x3 d * c * (x3 d * c) + y3 d * c * (y3 d * c) + z3 d * c * (z3 d * c)
        = (x3 d * x3 d + y3 d * y3 d + z3 d * z3 d) * (c * c)"
    by (simp add: algebra_simps)
  then show ?thesis using c by (simp add: vlength_def vmul_def real_sqrt_mult)
qed

lemma sqrt_1000000: "sqrt 1000000 = (1000::real)"
  by (rule real_sqrt_unique) simp_all

lemma sqrt_10000: "sqrt 10000 = (100::real)"
  by (rule real_sqrt_unique) simp_all

subsection \<open>The blocks of \<^verbatim>\<open>advance_wp_target_along_track\<close>\<close>

lemma wp_limit_speed_fields:
  "track_length (wp_limit_speed dt m v l s) = track_length s"
  "track_accel (wp_limit_speed dt m v l s) = track_accel s"
  "track_speed (wp_limit_speed dt m v l s) = track_speed s"
  "flags (wp_limit_speed dt m v l s) = flags s"
  "origin (wp_limit_speed dt m v l s) = origin s"
  "destination (wp_limit_speed dt m v l s) = destination s"
  "pos_delta_unit (wp_limit_speed dt m v l s) = pos_delta_unit s"
  "wp_radius_cm (wp_limit_speed dt m v l s) = wp_radius_cm s"
  by (simp_all add: wp_limit_speed_def Let_def)

lemma wp_limit_speed_track_desired:
  "track_desired (wp_limit_speed dt m v l s) \<le> track_desired s"
  by (simp add: wp_limit_speed_def Let_def)

lemma wp_limit_speed_nonneg:
  assumes "0 \<le> track_accel s" "0 \<le> limited_speed_xy_cms s" "0 \<le> track_speed s"
  shows "0 \<le> limited_speed_xy_cms (wp_limit_speed dt m v l s)"
proof -
  have k: "0 < dt \<Longrightarrow> 0 \<le> 2 * track_accel s * dt" using assms by simp
  show ?thesis
    using assms(2,3)
    by (auto simp add: wp_limit_speed_def Let_def constrain_float_def) (use k in linarith)+
qed

lemma wp_limit_speed_pos:
  assumes "0 < limited_speed_xy_cms (wp_limit_speed dt m v l s)"
  shows "0 < track_speed s"
  using assms by (auto simp add: wp_limit_speed_def Let_def constrain_float_def split: if_splits)

lemma wp_limit_speed_le:
  assumes "0 \<le> limited_speed_xy_cms s" "0 \<le> track_speed s"
  shows "limited_speed_xy_cms (wp_limit_speed dt m v l s) \<le> track_speed s"
  using assms by (auto simp add: wp_limit_speed_def Let_def constrain_float_def split: if_splits)

lemma wp_move_target_fields:
  "track_length (wp_move_target dt m s) = track_length s"
  "track_accel (wp_move_target dt m s) = track_accel s"
  "track_speed (wp_move_target dt m s) = track_speed s"
  "limited_speed_xy_cms (wp_move_target dt m s) = limited_speed_xy_cms s"
  "flags (wp_move_target dt m s) = flags s"
  "origin (wp_move_target dt m s) = origin s"
  "destination (wp_move_target dt m s) = destination s"
  "pos_delta_unit (wp_move_target dt m s) = pos_delta_unit s"
  "wp_radius_cm (wp_move_target dt m s) = wp_radius_cm s"
  "track_desired (wp_move_target dt m s) =
     max (track_desired s) (constrain_float (m + limited_speed_xy_cms s * dt) 0 (track_length s))"
  by (simp_all add: wp_move_target_def Let_def)

lemma wp_check_reached_fields:
  "track_length (wp_check_reached p s) = track_length s"
  "track_accel (wp_check_reached p s) = track_accel s"
  "track_speed (wp_check_reached p s) = track_speed s"
  "limited_speed_xy_cms (wp_check_reached p s) = limited_speed_xy_cms s"
  "track_desired (wp_check_reached p s) = track_desired s"
  "origin (wp_check_reached p s) = origin s"
  "destination (wp_check_reached p s) = destination s"
  "pos_delta_unit (wp_check_reached p s) = pos_delta_unit s"
  "wp_radius_cm (wp_check_reached p s) = wp_radius_cm s"
  "fast_waypoint (flags (wp_check_reached p s)) = fast_waypoint (flags s)"
  by (simp_all add: wp_check_reached_def Let_def)

lemma advance_SomeE:
  assumes "advance_wp_target_along_track inav dt (s, pc) = Some (s', pc')"
  obtains m l where
    "wp_track_desired_max inav pc s = Some m" "wp_linear_velocity pc s = Some l"
    "s' = wp_check_reached (position inav)
            (wp_move_target dt (track_desired s)
               (wp_limit_speed dt m (wp_speed_along_track inav s) l s))"
  using assms
  by (auto simp add: advance_wp_target_along_track_def Let_def split: option.splits)

lemma advance_track_length:
  assumes "advance_wp_target_along_track inav dt (s, pc) = Some (s', pc')"
  shows "track_length s' = track_length s" "track_speed s' = track_speed s"
    "track_accel s' = track_accel s"
  using assms
  by (auto elim!: advance_SomeE simp: wp_check_reached_fields wp_move_target_fields wp_limit_speed_fields)

lemma advance_defined:
  assumes "leash_xy pc \<noteq> 0" "leash_up_z pc \<noteq> 0" "leash_down_z pc \<noteq> 0" "pos_xy_kP pc \<noteq> 0"
  shows "\<exists>r. advance_wp_target_along_track inav dt (s, pc) = Some r"
  using assms
  by (simp add: advance_wp_target_along_track_def wp_track_desired_max_def wp_linear_velocity_def Let_def)

lemma wp_run_defined:
  assumes "\<forall>t\<in>set ts. tick_finite t"
  shows "\<exists>ss. wp_run s ts = Some ss"
  using assms
proof (induction ts arbitrary: s)
  case Nil
  then show ?case by simp
next
  case (Cons t ts)
  then have "tick_finite t" by simp
  then have "\<exists>r. advance_wp_target_along_track (tick_inav t) (tick_dt t) (s, tick_pos_control t) = Some r"
    by (intro advance_defined) (simp_all add: tick_finite_def)
  then obtain s' pc' where
    r: "advance_wp_target_along_track (tick_inav t) (tick_dt t) (s, tick_pos_control t) = Some (s', pc')"
    by auto
  obtain ss where "wp_run s' ts = Some ss" using Cons by auto
  then show ?case using r by simp
qed

lemma wp_run_ConsE:
  assumes "wp_run s (t # ts) = Some ss"
  obtains s' pc' ss' where
    "advance_wp_target_along_track (tick_inav t) (tick_dt t) (s, tick_pos_control t) = Some (s', pc')"
    "wp_run s' ts = Some ss'" "ss = s' # ss'"
  using assms by (auto split: option.splits)

subsection \<open>\<^verbatim>\<open>calculate_wp_leash_length\<close> and \<^verbatim>\<open>set_wp_origin_and_destination\<close>\<close>

lemma calculate_wp_leash_length_fields:
  "track_length (calculate_wp_leash_length C pc s) = track_length s"
  "track_desired (calculate_wp_leash_length C pc s) = track_desired s"
  "limited_speed_xy_cms (calculate_wp_leash_length C pc s) = limited_speed_xy_cms s"
  "flags (calculate_wp_leash_length C pc s) = flags s"
  "origin (calculate_wp_leash_length C pc s) = origin s"
  "destination (calculate_wp_leash_length C pc s) = destination s"
  "pos_delta_unit (calculate_wp_leash_length C pc s) = pos_delta_unit s"
  "wp_radius_cm (calculate_wp_leash_length C pc s) = wp_radius_cm s"
  "wp_speed_cms (calculate_wp_leash_length C pc s) = wp_speed_cms s"
  by (simp_all add: calculate_wp_leash_length_def Let_def)

lemma calculate_wp_leash_length_accel:
  assumes "0 \<le> wp_accel_cms s" "0 \<le> WPNAV_ALT_HOLD_ACCEL_MAX C"
  shows "0 \<le> track_accel (calculate_wp_leash_length C pc s)"
  using assms pythagorous2_nonneg[of "x3 (pos_delta_unit s)" "y3 (pos_delta_unit s)"]
  by (simp add: calculate_wp_leash_length_def Let_def)

lemma calculate_wp_leash_length_speed:
  assumes "0 \<le> wp_speed_cms s" "0 \<le> wp_speed_up_cms s" "0 \<le> wp_speed_down_cms s"
  shows "0 \<le> track_speed (calculate_wp_leash_length C pc s)"
  using assms pythagorous2_nonneg[of "x3 (pos_delta_unit s)" "y3 (pos_delta_unit s)"]
  by (simp add: calculate_wp_leash_length_def Let_def)

lemma calculate_track_fields:
  fixes C pc s
  defines "u \<equiv> pos_delta_unit s"
  defines "uxy \<equiv> pythagorous2 (x3 u) (y3 u)"
  defines "uz \<equiv> \<bar>z3 u\<bar>"
  defines "speed_z \<equiv> (if z3 u \<ge> 0 then wp_speed_up_cms s else wp_speed_down_cms s)"
  defines "leash_z \<equiv> (if z3 u \<ge> 0 then leash_up_z pc else leash_down_z pc)"
  shows "track_accel (calculate_wp_leash_length C pc s) =
           (if uz = 0 \<and> uxy = 0 then 0 else if z3 u = 0 then wp_accel_cms s / uxy
            else if uxy = 0 then WPNAV_ALT_HOLD_ACCEL_MAX C / uz
            else min (WPNAV_ALT_HOLD_ACCEL_MAX C / uz) (wp_accel_cms s / uxy))"
    and "track_speed (calculate_wp_leash_length C pc s) =
           (if uz = 0 \<and> uxy = 0 then 0 else if z3 u = 0 then wp_speed_cms s / uxy
            else if uxy = 0 then speed_z / uz
            else min (speed_z / uz) (wp_speed_cms s / uxy))"
    and "track_leash_length (calculate_wp_leash_length C pc s) =
           (if uz = 0 \<and> uxy = 0 then WPNAV_LEASH_LENGTH_MIN C else if z3 u = 0 then leash_xy pc / uxy
            else if uxy = 0 then leash_z / uz
            else min (leash_z / uz) (leash_xy pc / uxy))"
  unfolding u_def uxy_def uz_def speed_z_def leash_z_def
  by (simp_all add: calculate_wp_leash_length_def Let_def)

lemma set_wp_fields:
  fixes C cxy cz inav org dest s pc
  defines "s0 \<equiv> fst (set_wp_origin_and_destination C cxy cz inav org dest (s, pc))"
  shows "track_desired s0 = 0"
    and "track_length s0 = vlength (vsub dest org)"
    and "origin s0 = org" and "destination s0 = dest"
    and "pos_delta_unit s0 = (if vlength (vsub dest org) = 0 then \<lparr>x3 = 0, y3 = 0, z3 = 0\<rparr>
                              else vdiv (vsub dest org) (vlength (vsub dest org)))"
    and "\<not> fast_waypoint (flags s0)" and "\<not> reached_destination (flags s0)"
    and "wp_speed_cms s0 = wp_speed_cms s" and "wp_radius_cm s0 = wp_radius_cm s"
    and "limited_speed_xy_cms s0 = constrain_float (wp_speed_along_track inav s0) 0 (wp_speed_cms s)"
  unfolding s0_def
  by (simp_all add: set_wp_origin_and_destination_def Let_def calculate_wp_leash_length_fields
        wp_speed_along_track_def)

lemma set_wp_accel_nonneg:
  assumes "0 < WPNAV_ACCELERATION C" "0 \<le> WPNAV_ALT_HOLD_ACCEL_MAX C"
  shows "0 \<le> track_accel (fst (set_wp_origin_and_destination C cxy cz inav org dest (s, pc)))"
  using assms
  by (simp add: set_wp_origin_and_destination_def Let_def calculate_wp_leash_length_accel)

lemma set_wp_speed_nonneg:
  assumes "0 \<le> wp_speed_cms s" "0 \<le> wp_speed_up_cms s" "0 \<le> wp_speed_down_cms s"
  shows "0 \<le> track_speed (fst (set_wp_origin_and_destination C cxy cz inav org dest (s, pc)))"
  using assms
  by (simp add: set_wp_origin_and_destination_def Let_def calculate_wp_leash_length_speed)

lemma set_wp_track_fields:
  fixes C cxy cz inav org dest s pc
  defines "s0 \<equiv> fst (set_wp_origin_and_destination C cxy cz inav org dest (s, pc))"
  defines "u \<equiv> pos_delta_unit s0"
  defines "uxy \<equiv> pythagorous2 (x3 u) (y3 u)"
  defines "uz \<equiv> \<bar>z3 u\<bar>"
  defines "acc \<equiv> (if wp_accel_cms s \<le> 0 then WPNAV_ACCELERATION C else wp_accel_cms s)"
  defines "pc1 \<equiv> wp_leash_pos_control C cxy cz s pc"
  defines "speed_z \<equiv> (if z3 u \<ge> 0 then wp_speed_up_cms s else wp_speed_down_cms s)"
  defines "leash_z \<equiv> (if z3 u \<ge> 0 then leash_up_z pc1 else leash_down_z pc1)"
  shows "track_accel s0 =
           (if uz = 0 \<and> uxy = 0 then 0 else if z3 u = 0 then acc / uxy
            else if uxy = 0 then WPNAV_ALT_HOLD_ACCEL_MAX C / uz
            else min (WPNAV_ALT_HOLD_ACCEL_MAX C / uz) (acc / uxy))"
    and "track_speed s0 =
           (if uz = 0 \<and> uxy = 0 then 0 else if z3 u = 0 then wp_speed_cms s / uxy
            else if uxy = 0 then speed_z / uz
            else min (speed_z / uz) (wp_speed_cms s / uxy))"
    and "track_leash_length s0 =
           (if uz = 0 \<and> uxy = 0 then WPNAV_LEASH_LENGTH_MIN C else if z3 u = 0 then leash_xy pc1 / uxy
            else if uxy = 0 then leash_z / uz
            else min (leash_z / uz) (leash_xy pc1 / uxy))"
proof -
  have u: "u = (if vlength (vsub dest org) = 0 then \<lparr>x3 = 0, y3 = 0, z3 = 0\<rparr>
                else vdiv (vsub dest org) (vlength (vsub dest org)))"
    unfolding u_def s0_def by (rule set_wp_fields)
  define s1 where "s1 = s\<lparr>origin := org, destination := dest, track_length := vlength (vsub dest org),
                           pos_delta_unit := u, wp_accel_cms := acc\<rparr>"
  have s0: "track_accel s0 = track_accel (calculate_wp_leash_length C pc1 s1)"
    "track_speed s0 = track_speed (calculate_wp_leash_length C pc1 s1)"
    "track_leash_length s0 = track_leash_length (calculate_wp_leash_length C pc1 s1)"
    unfolding s0_def s1_def u acc_def pc1_def wp_leash_pos_control_def
    by (simp_all add: set_wp_origin_and_destination_def Let_def)
  show "track_accel s0 =
           (if uz = 0 \<and> uxy = 0 then 0 else if z3 u = 0 then acc / uxy
            else if uxy = 0 then WPNAV_ALT_HOLD_ACCEL_MAX C / uz
            else min (WPNAV_ALT_HOLD_ACCEL_MAX C / uz) (acc / uxy))"
    unfolding s0(1) calculate_track_fields(1) by (simp add: s1_def uz_def uxy_def)
  show "track_speed s0 =
           (if uz = 0 \<and> uxy = 0 then 0 else if z3 u = 0 then wp_speed_cms s / uxy
            else if uxy = 0 then speed_z / uz
            else min (speed_z / uz) (wp_speed_cms s / uxy))"
    unfolding s0(2) calculate_track_fields(2) by (simp add: s1_def uz_def uxy_def speed_z_def)
  show "track_leash_length s0 =
           (if uz = 0 \<and> uxy = 0 then WPNAV_LEASH_LENGTH_MIN C else if z3 u = 0 then leash_xy pc1 / uxy
            else if uxy = 0 then leash_z / uz
            else min (leash_z / uz) (leash_xy pc1 / uxy))"
    unfolding s0(3) calculate_track_fields(3) by (simp add: s1_def uz_def uxy_def leash_z_def)
qed

subsection \<open>Invariants of a run\<close>

lemma wp_step_kernel:
  fixes m v l :: real
  assumes "0 \<le> dt" "wp_inv s"
  defines "s1 \<equiv> wp_limit_speed dt m v l s"
  defines "s2 \<equiv> wp_move_target dt (track_desired s) s1"
  shows "track_desired s \<le> track_desired s2 \<and> wp_inv s2"
proof -
  have L: "0 \<le> track_length s" and td: "0 \<le> track_desired s" "track_desired s \<le> track_length s"
    and a: "0 \<le> track_accel s"
    using assms(2) by (auto simp: wp_inv_def)
  have td1: "track_desired s1 \<le> track_desired s"
    unfolding s1_def by (rule wp_limit_speed_track_desired)
  define c where "c = constrain_float (track_desired s + limited_speed_xy_cms s1 * dt) 0 (track_length s)"
  have c: "0 \<le> c" "c \<le> track_length s"
    unfolding c_def using constrain_float_range[OF L] by auto
  have td2: "track_desired s2 = max (track_desired s1) c"
    unfolding s2_def c_def by (simp add: wp_move_target_fields s1_def wp_limit_speed_fields)
  have fields: "track_length s2 = track_length s" "track_accel s2 = track_accel s"
    "track_speed s2 = track_speed s" "limited_speed_xy_cms s2 = limited_speed_xy_cms s1"
    unfolding s2_def s1_def by (simp_all add: wp_move_target_fields wp_limit_speed_fields)
  have range: "0 \<le> track_desired s2" "track_desired s2 \<le> track_length s"
    using td2 c td1 td by auto
  show ?thesis
  proof (cases "track_desired s = 0")
    case True
    have mono: "track_desired s \<le> track_desired s2" using True range by simp
    have "track_desired s2 = 0 \<or> (0 \<le> limited_speed_xy_cms s1 \<and> 0 \<le> track_speed s)"
    proof (cases "0 < limited_speed_xy_cms s1")
      case True
      then have "0 < track_speed s" unfolding s1_def by (rule wp_limit_speed_pos)
      with True show ?thesis by simp
    next
      case False
      then have "limited_speed_xy_cms s1 * dt \<le> 0"
        using assms(1) by (simp add: mult_le_0_iff)
      then have "c = 0" unfolding c_def using True L by (simp add: constrain_float_def)
      then have "track_desired s2 = 0" using td2 td1 True range by auto
      then show ?thesis by simp
    qed
    then show ?thesis using mono range fields a by (simp add: wp_inv_def)
  next
    case False
    then have ls: "0 \<le> limited_speed_xy_cms s" "0 \<le> track_speed s"
      using assms(2) by (auto simp: wp_inv_def)
    have ls1: "0 \<le> limited_speed_xy_cms s1"
      unfolding s1_def using a ls by (rule wp_limit_speed_nonneg)
    then have "0 \<le> limited_speed_xy_cms s1 * dt" using assms(1) by simp
    then have "track_desired s \<le> c"
      unfolding c_def using td by (auto simp: constrain_float_def)
    then have mono: "track_desired s \<le> track_desired s2" using td2 by simp
    show ?thesis using mono range fields a ls ls1 by (simp add: wp_inv_def)
  qed
qed

lemma advance_step:
  assumes "advance_wp_target_along_track inav dt (s, pc) = Some (s', pc')"
      and "0 \<le> dt" and "wp_inv s"
  shows "track_desired s \<le> track_desired s' \<and> wp_inv s'"
proof -
  from assms(1) obtain m l where
    s': "s' = wp_check_reached (position inav)
            (wp_move_target dt (track_desired s)
               (wp_limit_speed dt m (wp_speed_along_track inav s) l s))"
    by (rule advance_SomeE)
  from wp_step_kernel[OF assms(2,3), of m "wp_speed_along_track inav s" l]
  show ?thesis unfolding s' by (simp add: wp_inv_def wp_check_reached_fields)
qed

lemma set_wp_inv:
  assumes "0 < WPNAV_ACCELERATION C" "0 \<le> WPNAV_ALT_HOLD_ACCEL_MAX C"
  shows "wp_inv (fst (set_wp_origin_and_destination C cxy cz inav org dest (s, pc)))"
  using set_wp_accel_nonneg[OF assms] vlength_nonneg
  by (simp add: wp_inv_def set_wp_fields)

lemma wp_run_monotone:
  assumes "wp_run s ts = Some ss" "\<forall>t\<in>set ts. 0 \<le> tick_dt t" "wp_inv s"
  shows "sorted (map track_desired (s # ss)) \<and>
         (\<forall>s'\<in>set ss. wp_inv s' \<and> track_length s' = track_length s)"
  using assms
proof (induction ts arbitrary: s ss)
  case Nil
  then show ?case by simp
next
  case (Cons t ts)
  from Cons.prems(1) obtain s' pc' ss' where
    adv: "advance_wp_target_along_track (tick_inav t) (tick_dt t) (s, tick_pos_control t) = Some (s', pc')"
    and run: "wp_run s' ts = Some ss'" and ss: "ss = s' # ss'"
    by (rule wp_run_ConsE)
  have dt: "0 \<le> tick_dt t" using Cons.prems(2) by simp
  have step: "track_desired s \<le> track_desired s'" "wp_inv s'"
    using advance_step[OF adv dt Cons.prems(3)] by simp_all
  have len: "track_length s' = track_length s" using adv by (rule advance_track_length)
  have IH: "sorted (map track_desired (s' # ss')) \<and>
         (\<forall>r\<in>set ss'. wp_inv r \<and> track_length r = track_length s')"
    using Cons.IH[OF run _ step(2)] Cons.prems(2) by simp
  show ?case using IH step len unfolding ss by auto
qed

lemma advance_speed_step:
  assumes "advance_wp_target_along_track inav dt (s, pc) = Some (s', pc')"
      and "0 \<le> limited_speed_xy_cms s" "0 \<le> track_speed s" "0 \<le> track_accel s"
  shows "0 \<le> limited_speed_xy_cms s'" "limited_speed_xy_cms s' \<le> track_speed s'"
        "0 \<le> track_speed s'" "0 \<le> track_accel s'"
proof -
  from assms(1) obtain m l where
    s': "s' = wp_check_reached (position inav)
            (wp_move_target dt (track_desired s)
               (wp_limit_speed dt m (wp_speed_along_track inav s) l s))"
    by (rule advance_SomeE)
  show "0 \<le> limited_speed_xy_cms s'"
    unfolding s' using wp_limit_speed_nonneg[OF assms(4,2,3)]
    by (simp add: wp_check_reached_fields wp_move_target_fields)
  show "limited_speed_xy_cms s' \<le> track_speed s'"
    unfolding s' using wp_limit_speed_le[OF assms(2,3)]
    by (simp add: wp_check_reached_fields wp_move_target_fields wp_limit_speed_fields)
  show "0 \<le> track_speed s'" "0 \<le> track_accel s'"
    using assms(3,4) advance_track_length[OF assms(1)] by simp_all
qed

lemma wp_run_speed:
  assumes "wp_run s ts = Some ss"
      and "0 \<le> limited_speed_xy_cms s" "0 \<le> track_speed s" "0 \<le> track_accel s"
  shows "\<forall>s'\<in>set ss. 0 \<le> limited_speed_xy_cms s' \<and> limited_speed_xy_cms s' \<le> track_speed s'"
  using assms
proof (induction ts arbitrary: s ss)
  case Nil
  then show ?case by simp
next
  case (Cons t ts)
  from Cons.prems(1) obtain s' pc' ss' where
    adv: "advance_wp_target_along_track (tick_inav t) (tick_dt t) (s, tick_pos_control t) = Some (s', pc')"
    and run: "wp_run s' ts = Some ss'" and ss: "ss = s' # ss'"
    by (rule wp_run_ConsE)
  note step = advance_speed_step[OF adv Cons.prems(2,3,4)]
  from Cons.IH[OF run step(1,3,4)] step(1,2) show ?case unfolding ss by simp
qed

lemma ex_le_Suc_Cons:
  "(\<exists>j\<le>Suc k. P ((t # ts) ! j)) \<longleftrightarrow> P t \<or> (\<exists>j\<le>k. P (ts ! j))"
proof
  assume "\<exists>j\<le>Suc k. P ((t # ts) ! j)"
  then obtain j where j: "j \<le> Suc k" "P ((t # ts) ! j)" by blast
  show "P t \<or> (\<exists>j\<le>k. P (ts ! j))"
  proof (cases j)
    case 0
    then show ?thesis using j by simp
  next
    case (Suc n)
    then have "n \<le> k" "P (ts ! n)" using j by simp_all
    then show ?thesis by blast
  qed
next
  assume "P t \<or> (\<exists>j\<le>k. P (ts ! j))"
  then show "\<exists>j\<le>Suc k. P ((t # ts) ! j)"
  proof
    assume "P t"
    then have "0 \<le> Suc k \<and> P ((t # ts) ! 0)" by simp
    then show ?thesis by blast
  next
    assume "\<exists>j\<le>k. P (ts ! j)"
    then obtain j where "j \<le> k" "P (ts ! j)" by blast
    then have "Suc j \<le> Suc k \<and> P ((t # ts) ! Suc j)" by simp
    then show ?thesis by blast
  qed
qed

lemma zero_segment_step:
  assumes adv: "advance_wp_target_along_track inav dt (s, pc) = Some (s', pc')"
      and Z: "zero_segment dest r s"
  shows "zero_segment dest r s'"
    and "reached_destination (flags s') \<longleftrightarrow>
           reached_destination (flags s) \<or> vlength (vsub (position inav) dest) \<le> r"
proof -
  from adv obtain m l where
    s': "s' = wp_check_reached (position inav)
            (wp_move_target dt (track_desired s)
               (wp_limit_speed dt m (wp_speed_along_track inav s) l s))"
    by (rule advance_SomeE)
  define s1 where "s1 = wp_limit_speed dt m (wp_speed_along_track inav s) l s"
  define s2 where "s2 = wp_move_target dt (track_desired s) s1"
  have Zs: "track_length s = 0" "track_desired s = 0" "\<not> fast_waypoint (flags s)"
    "destination s = dest" "wp_radius_cm s = r"
    using Z by (simp_all add: zero_segment_def)
  have td1: "track_desired s1 \<le> 0"
    unfolding s1_def using wp_limit_speed_track_desired[of dt m _ l s] Zs by simp
  have td2: "track_desired s2 = 0"
    unfolding s2_def using td1 Zs
    by (simp add: wp_move_target_fields s1_def wp_limit_speed_fields constrain_float_def)
  have f2: "track_length s2 = 0" "\<not> fast_waypoint (flags s2)" "destination s2 = dest"
    "wp_radius_cm s2 = r" "flags s2 = flags s"
    unfolding s2_def s1_def using Zs by (simp_all add: wp_move_target_fields wp_limit_speed_fields)
  have s'2: "s' = wp_check_reached (position inav) s2" unfolding s' s2_def s1_def ..
  show "zero_segment dest r s'"
    unfolding s'2 zero_segment_def using td2 f2 by (simp add: wp_check_reached_fields)
  show "reached_destination (flags s') \<longleftrightarrow>
           reached_destination (flags s) \<or> vlength (vsub (position inav) dest) \<le> r"
    unfolding s'2 using td2 f2 by (simp add: wp_check_reached_def Let_def)
qed

lemma zero_segment_run:
  assumes "wp_run s ts = Some ss" "zero_segment dest r s"
  shows "length ss = length ts \<and>
         (\<forall>i<length ts. track_desired (ss ! i) = 0 \<and>
            (reached_destination (flags (ss ! i)) \<longleftrightarrow>
               reached_destination (flags s) \<or>
               (\<exists>j\<le>i. vlength (vsub (position (tick_inav (ts ! j))) dest) \<le> r)))"
  using assms
proof (induction ts arbitrary: s ss)
  case Nil
  then show ?case by simp
next
  case (Cons t ts)
  from Cons.prems(1) obtain s' pc' ss' where
    adv: "advance_wp_target_along_track (tick_inav t) (tick_dt t) (s, tick_pos_control t) = Some (s', pc')"
    and run: "wp_run s' ts = Some ss'" and ss: "ss = s' # ss'"
    by (rule wp_run_ConsE)
  note step = zero_segment_step[OF adv Cons.prems(2)]
  have td: "track_desired s' = 0" using step(1) by (simp add: zero_segment_def)
  note IH = Cons.IH[OF run step(1)]
  let ?near = "\<lambda>t. vlength (vsub (position (tick_inav t)) dest) \<le> r"
  show ?case
  proof (intro conjI allI impI)
    show "length ss = length (t # ts)" using IH ss by simp
  next
    fix i assume "i < length (t # ts)"
    then show "track_desired (ss ! i) = 0" using IH td ss by (cases i) simp_all
  next
    fix i assume i: "i < length (t # ts)"
    show "reached_destination (flags (ss ! i)) \<longleftrightarrow>
            reached_destination (flags s) \<or> (\<exists>j\<le>i. ?near ((t # ts) ! j))"
    proof (cases i)
      case 0
      then show ?thesis using step(2) ss by simp
    next
      case (Suc k)
      then have k: "k < length ts" using i by simp
      have "reached_destination (flags (ss ! i)) \<longleftrightarrow> reached_destination (flags (ss' ! k))"
        using ss Suc by simp
      also have "\<dots> \<longleftrightarrow> reached_destination (flags s') \<or> (\<exists>j\<le>k. ?near (ts ! j))"
        using IH k by blast
      also have "\<dots> \<longleftrightarrow> reached_destination (flags s) \<or> (?near t \<or> (\<exists>j\<le>k. ?near (ts ! j)))"
        using step(2) by blast
      also have "\<dots> \<longleftrightarrow> reached_destination (flags s) \<or> (\<exists>j\<le>Suc k. ?near ((t # ts) ! j))"
        by (simp only: ex_le_Suc_Cons[where P = ?near])
      finally show ?thesis unfolding Suc .
    qed
  qed
qed

subsection \<open>The examples, evaluated\<close>

lemma example_ticks_finite:
  "\<forall>t\<in>set [example_tick dt1 p1 v1, example_tick dt2 p2 v2]. tick_finite t"
  by (simp add: tick_finite_def example_tick_def example_pos_control_def)

lemma example_segment_fields:
  "pos_delta_unit example_segment = \<lparr>x3 = 1, y3 = 0, z3 = 0\<rparr>"
  "track_length example_segment = 1000"
  "track_desired example_segment = 0"
  "limited_speed_xy_cms example_segment = 0"
  "origin example_segment = vzero"
  "track_accel example_segment = 100"
  "track_speed example_segment = 500"
  "track_leash_length example_segment = 1000"
proof -
  show u: "pos_delta_unit example_segment = \<lparr>x3 = 1, y3 = 0, z3 = 0\<rparr>"
    unfolding example_segment_def
    by (simp add: set_wp_fields vsub_def vlength_def vdiv_def vzero_def sqrt_1000000)
  show "track_length example_segment = 1000"
    unfolding example_segment_def
    by (simp add: set_wp_fields vsub_def vlength_def vzero_def sqrt_1000000)
  show "track_desired example_segment = 0" "origin example_segment = vzero"
    unfolding example_segment_def by (simp_all add: set_wp_fields)
  show "limited_speed_xy_cms example_segment = 0"
    unfolding example_segment_def set_wp_fields(10) unfolding example_segment_def[symmetric]
    by (simp add: wp_speed_along_track_def u constrain_float_def example_wpnav_def vzero_def)
  show "track_accel example_segment = 100"
    unfolding example_segment_def set_wp_track_fields(1) unfolding example_segment_def[symmetric]
    by (simp add: u pythagorous2_def example_wpnav_def)
  show "track_speed example_segment = 500"
    unfolding example_segment_def set_wp_track_fields(2) unfolding example_segment_def[symmetric]
    by (simp add: u pythagorous2_def example_wpnav_def)
  show "track_leash_length example_segment = 1000"
    unfolding example_segment_def set_wp_track_fields(3) unfolding example_segment_def[symmetric]
    by (simp add: u pythagorous2_def wp_leash_pos_control_def set_speed_xy_def set_accel_xy_def
          set_speed_z_def example_pos_control_def)
qed

text \<open>
  The first call on the level segment, a tenth of a second after it was set: the limited
  speed rises to \<open>2 * 100 * 0.1 = 20\<close> cm/s and the target moves 2 cm.
\<close>

lemma example_first_advance:
  "\<exists>s' pc'. advance_wp_target_along_track \<lparr>position = vzero, velocity = vzero\<rparr> (1 / 10)
       (example_segment, example_pos_control) = Some (s', pc')
     \<and> limited_speed_xy_cms s' = 20 \<and> track_desired s' = 2"
proof -
  have m: "wp_track_desired_max \<lparr>position = vzero, velocity = vzero\<rparr> example_pos_control example_segment
           = Some 1000"
    by (simp add: wp_track_desired_max_def Let_def example_segment_fields vsub_def vmul_def vzero_def
          pythagorous2_def example_pos_control_def)
  have l: "wp_linear_velocity example_pos_control example_segment = Some 100"
    by (simp add: wp_linear_velocity_def Let_def example_segment_fields example_pos_control_def)
  have v: "wp_speed_along_track \<lparr>position = vzero, velocity = vzero\<rparr> example_segment = 0"
    by (simp add: wp_speed_along_track_def vzero_def)
  define s1 where "s1 = wp_limit_speed (1 / 10) 1000 0 100 example_segment"
  have s1: "limited_speed_xy_cms s1 = 20" "track_desired s1 = 0" "track_length s1 = 1000"
    unfolding s1_def
    by (simp_all add: wp_limit_speed_def Let_def example_segment_fields constrain_float_def)
  define s2 where "s2 = wp_move_target (1 / 10) 0 s1"
  have s2: "limited_speed_xy_cms s2 = 20" "track_desired s2 = 2"
    unfolding s2_def by (simp_all add: wp_move_target_fields s1 constrain_float_def)
  show ?thesis
    by (simp add: advance_wp_target_along_track_def m l v Let_def example_segment_fields
          wp_check_reached_fields s1_def[symmetric] s2_def[symmetric] s2)
qed

text \<open>The later barometer state is what the calls named above make of the first.\<close>

lemma example_baro_reachable:
  "update_drift_estimate LowPassFilter_ops 2000 0 1
     (update_calibration 101325 25 2000
        (update_drift_estimate LowPassFilter_ops 1000 0 1
           (update_drift_estimate LowPassFilter_ops 0 0 1 example_baro_boot)))
   = example_baro"
proof -
  have 1: "update_drift_estimate LowPassFilter_ops 0 0 1 example_baro_boot
           = example_baro_boot\<lparr>drift_init_count := 1\<rparr>"
    by (simp add: update_drift_estimate_def drift_init_window_def example_baro_boot_def)
  have 2: "update_drift_estimate LowPassFilter_ops 1000 0 1 (example_baro_boot\<lparr>drift_init_count := 1\<rparr>)
           = example_baro_boot\<lparr>drift_est := 2, drift_filter := \<lparr>alpha = 1 / 2, base_value = 2\<rparr>\<rparr>"
    by (simp add: update_drift_estimate_def drift_init_window_def Let_def example_baro_boot_def
          LowPassFilter_ops_def lpf_set_time_constant_def lpf_apply_def)
  have 3: "update_drift_estimate LowPassFilter_ops 2000 0 1
             (update_calibration 101325 25 2000
                (example_baro_boot\<lparr>drift_est := 2, drift_filter := \<lparr>alpha = 1 / 2, base_value = 2\<rparr>\<rparr>))
           = example_baro"
    by (simp add: update_drift_estimate_def update_calibration_def drift_init_window_def
          example_baro_boot_def example_baro_def)
  show ?thesis unfolding 1 2 3 ..
qed

subsection \<open>Rounding to binary32\<close>

lemma two_powi_powr: "(2::real) powi n = 2 powr (of_int n)"
  by (rule powr_real_of_int'[symmetric]) simp_all

lemma expo_bounds:
  assumes "x \<noteq> 0"
  shows "2 powi (expo x) \<le> \<bar>x\<bar>" "\<bar>x\<bar> < 2 powi (expo x + 1)"
proof -
  have pos: "0 < \<bar>x\<bar>" using assms by simp
  have "of_int (expo x) \<le> log 2 \<bar>x\<bar>" by (simp add: expo_def)
  then have "2 powr (of_int (expo x)) \<le> \<bar>x\<bar>"
    using pos by (simp add: le_log_iff)
  then show "2 powi (expo x) \<le> \<bar>x\<bar>" by (simp only: two_powi_powr)
  have "log 2 \<bar>x\<bar> < of_int (expo x + 1)" by (simp add: expo_def)
  then have "\<bar>x\<bar> < 2 powr (of_int (expo x + 1))"
    using pos by (simp only: log_less_iff)
  then show "\<bar>x\<bar> < 2 powi (expo x + 1)" by (simp only: two_powi_powr)
qed

lemma expo_unique:
  assumes "2 powi e \<le> \<bar>x\<bar>" "\<bar>x\<bar> < 2 powi (e + 1)"
  shows "expo x = e"
proof -
  have "(0::real) < 2 powi e" by simp
  then have pos: "0 < \<bar>x\<bar>" using assms(1) by linarith
  have "2 powr (of_int e) \<le> \<bar>x\<bar>" using assms(1) by (simp only: two_powi_powr)
  then have 1: "of_int e \<le> log 2 \<bar>x\<bar>" using pos by (simp add: le_log_iff)
  have "\<bar>x\<bar> < 2 powr (of_int (e + 1))" using assms(2) by (simp only: two_powi_powr)
  then have 2: "log 2 \<bar>x\<bar> < of_int (e + 1)" using pos by (simp only: log_less_iff)
  have "\<lfloor>log 2 \<bar>x\<bar>\<rfloor> = e" using 1 2 by (simp only: floor_eq_iff) simp
  then show ?thesis by (simp add: expo_def)
qed

lemma rne_error: "\<bar>of_int (rne y) - y\<bar> \<le> 1 / 2"
  unfolding rne_def Let_def by (auto simp: abs_if) linarith+

lemma rne_unique:
  assumes "\<bar>y - of_int m\<bar> < 1 / 2"
  shows "rne y = m"
proof -
  have "\<bar>of_int (rne y) - y\<bar> \<le> 1 / 2" by (rule rne_error)
  with assms have "\<bar>(of_int (rne y) :: real) - of_int m\<bar> < 1" by linarith
  then have "\<bar>rne y - m\<bar> < 1" by (metis of_int_1 of_int_abs of_int_diff of_int_less_iff)
  then show ?thesis by simp
qed

lemma rne_of_int: "rne (of_int k) = k"
  by (rule rne_unique) simp

lemma round24_eval:
  assumes "2 powi e \<le> \<bar>x\<bar>" "\<bar>x\<bar> < 2 powi (e + 1)"
      and "\<bar>x / 2 powi (e - 23) - of_int m\<bar> < 1 / 2"
  shows "round24 x = of_int m * 2 powi (e - 23)"
proof -
  have "(0::real) < 2 powi e" by simp
  then have "0 < \<bar>x\<bar>" using assms(1) by linarith
  then have nz: "x \<noteq> 0" by simp
  have e: "expo x = e" using assms(1,2) by (rule expo_unique)
  have "rne (x / 2 powi (e - 23)) = m" using assms(3) by (rule rne_unique)
  then show ?thesis using nz by (simp add: round24_def e)
qed

lemma round24_sqrt_eval:
  assumes "0 < m" "(2 powi e)\<^sup>2 \<le> S" "S < (2 powi (e + 1))\<^sup>2"
      and "((of_int m - 1 / 2) * 2 powi (e - 23))\<^sup>2 < S"
      and "S < ((of_int m + 1 / 2) * 2 powi (e - 23))\<^sup>2"
  shows "round24 (sqrt S) = of_int m * 2 powi (e - 23)"
proof (rule round24_eval)
  have q: "(0::real) < 2 powi (e - 23)" by simp
  have p: "(0::real) \<le> 2 powi e" "(0::real) \<le> 2 powi (e + 1)" by simp_all
  have "sqrt ((2 powi e)\<^sup>2) \<le> sqrt S" using assms(2) by (simp only: real_sqrt_le_iff)
  then show "2 powi e \<le> \<bar>sqrt S\<bar>" using p by simp
  have "(0::real) \<le> (2 powi e)\<^sup>2" by simp
  then have S0: "0 \<le> S" using assms(2) by linarith
  have "sqrt S < sqrt ((2 powi (e + 1))\<^sup>2)" using assms(3) by (simp only: real_sqrt_less_iff)
  then show "\<bar>sqrt S\<bar> < 2 powi (e + 1)" using S0 by simp
  have m: "(0::real) \<le> (of_int m - 1 / 2) * 2 powi (e - 23)"
    "(0::real) \<le> (of_int m + 1 / 2) * 2 powi (e - 23)"
    using assms(1) by simp_all
  have "sqrt (((of_int m - 1 / 2) * 2 powi (e - 23))\<^sup>2) < sqrt S"
    using assms(4) by (simp only: real_sqrt_less_iff)
  then have lo: "(of_int m - 1 / 2) * 2 powi (e - 23) < sqrt S"
    using m(1) by (simp only: real_sqrt_abs abs_of_nonneg)
  have "sqrt S < sqrt (((of_int m + 1 / 2) * 2 powi (e - 23))\<^sup>2)"
    using assms(5) by (simp only: real_sqrt_less_iff)
  then have hi: "sqrt S < (of_int m + 1 / 2) * 2 powi (e - 23)"
    using m(2) by (simp only: real_sqrt_abs abs_of_nonneg)
  have "of_int m - 1 / 2 < sqrt S / 2 powi (e - 23)" "sqrt S / 2 powi (e - 23) < of_int m + 1 / 2"
    using lo hi q by (simp_all add: pos_less_divide_eq pos_divide_less_eq)
  then show "\<bar>sqrt S / 2 powi (e - 23) - of_int m\<bar> < 1 / 2" by linarith
qed

lemma round24_zero: "round24 0 = 0"
  by (simp add: round24_def)

lemma round24_rel_error: "\<bar>round24 x - x\<bar> \<le> (1 / 2 ^ 24) * \<bar>x\<bar>"
proof (cases "x = 0")
  case True
  then show ?thesis by (simp add: round24_def)
next
  case False
  define q :: real where "q = 2 powi (expo x - 23)"
  have q: "0 < q" by (simp add: q_def)
  have "q = 2 powi (expo x) / 2 ^ 23"
    by (simp add: q_def power_int_diff)
  then have qx: "q \<le> \<bar>x\<bar> / 2 ^ 23"
    using expo_bounds(1)[OF False] by (simp add: divide_right_mono)
  have "round24 x - x = q * (of_int (rne (x / q)) - x / q)"
    using False q by (simp add: round24_def q_def algebra_simps)
  then have "\<bar>round24 x - x\<bar> = q * \<bar>of_int (rne (x / q)) - x / q\<bar>"
    using q by (simp add: abs_mult)
  also have "\<dots> \<le> q * (1 / 2)"
    using rne_error[of "x / q"] q by (intro mult_left_mono) simp_all
  also have "\<dots> \<le> \<bar>x\<bar> / 2 ^ 23 * (1 / 2)" using qx by simp
  finally show ?thesis by simp
qed

lemma round24_exact:
  assumes x: "x = of_int m * 2 powi k" and m: "\<bar>m\<bar> < 2 ^ 24"
  shows "round24 x = x"
proof (cases "x = 0")
  case True
  then show ?thesis by (simp add: round24_def)
next
  case False
  define e where "e = expo x"
  have lo: "2 powi e \<le> \<bar>x\<bar>" unfolding e_def using False by (rule expo_bounds(1))
  have "\<bar>x\<bar> = of_int \<bar>m\<bar> * 2 powi k" unfolding x by (simp add: abs_mult)
  also have "\<dots> < 2 ^ 24 * 2 powi k"
  proof (rule mult_strict_right_mono)
    have "(of_int \<bar>m\<bar> :: real) < of_int (2 ^ 24)" using m by (simp only: of_int_less_iff)
    then show "(of_int \<bar>m\<bar> :: real) < 2 ^ 24" by simp
    show "(0::real) < 2 powi k" by simp
  qed
  also have "\<dots> = 2 powi (24 + k)" by (simp add: power_int_add)
  finally have hi: "\<bar>x\<bar> < 2 powi (24 + k)" .
  have ek: "e < 24 + k"
  proof (rule ccontr)
    assume "\<not> e < 24 + k"
    then have "24 + k \<le> e" by simp
    then have "(2::real) powi (24 + k) \<le> 2 powi e" by (rule power_int_increasing) simp
    then show False using lo hi by linarith
  qed
  define j where "j = nat (k - e + 23)"
  have j: "k = int j + (e - 23)" using ek by (simp add: j_def)
  have "x / 2 powi (e - 23) = of_int m * 2 powi (int j)"
    unfolding x by (subst j) (simp add: power_int_add)
  also have "\<dots> = of_int (m * 2 ^ j)" by (simp add: power_int_of_nat)
  finally have q: "x / 2 powi (e - 23) = of_int (m * 2 ^ j)" .
  have "round24 x = of_int (rne (x / 2 powi (e - 23))) * 2 powi (e - 23)"
    using False by (simp add: round24_def e_def)
  also have "\<dots> = of_int (m * 2 ^ j) * 2 powi (e - 23)" by (simp only: q rne_of_int)
  also have "\<dots> = x / 2 powi (e - 23) * 2 powi (e - 23)" by (simp only: q)
  also have "\<dots> = x" by simp
  finally show ?thesis .
qed

lemma round24_numeral:
  "(numeral n :: int) < 16777216 \<Longrightarrow> round24 (numeral n) = numeral n"
  using round24_exact[of "numeral n" "numeral n" 0] by simp

lemma sqrt_250000: "sqrt 250000 = (500::real)"
  using real_sqrt_abs2[of "500::real"] by simp

subsection \<open>Relative error of rounded results\<close>

lemma rounding_factor:
  fixes fl :: "real \<Rightarrow> real" and u :: real
  assumes fl: "\<forall>x. \<bar>fl x - x\<bar> \<le> u * \<bar>x\<bar>" and u0: "0 \<le> u"
  shows "\<exists>d. 1 - u \<le> d \<and> d \<le> 1 + u \<and> fl x = d * x"
proof (cases "x = 0")
  case True
  then have "fl x = 0" using fl[rule_format, of 0] by simp
  then show ?thesis using True by (intro exI[of _ 1]) (use u0 in simp)
next
  case False
  define d where "d = fl x / x"
  have dx: "fl x = d * x" using False by (simp add: d_def)
  have "\<bar>fl x - x\<bar> \<le> u * \<bar>x\<bar>" using fl by blast
  then have "\<bar>d - 1\<bar> * \<bar>x\<bar> \<le> u * \<bar>x\<bar>"
    unfolding dx by (simp add: abs_mult[symmetric] algebra_simps)
  then have "\<bar>d - 1\<bar> \<le> u" using False by simp
  then show ?thesis using dx by (intro exI[of _ d]) (simp add: abs_le_iff)
qed

lemma rounding_abs_le:
  fixes fl :: "real \<Rightarrow> real" and u :: real
  assumes fl: "\<forall>x. \<bar>fl x - x\<bar> \<le> u * \<bar>x\<bar>"
  shows "\<bar>fl x\<bar> \<le> (1 + u) * \<bar>x\<bar>"
proof -
  have "\<bar>fl x - x\<bar> \<le> u * \<bar>x\<bar>" using fl by blast
  then show ?thesis by (simp add: algebra_simps)
qed

lemma rounding_ge:
  fixes fl :: "real \<Rightarrow> real" and u :: real
  assumes fl: "\<forall>x. \<bar>fl x - x\<bar> \<le> u * \<bar>x\<bar>" and x: "0 \<le> x"
  shows "(1 - u) * x \<le> fl x"
proof -
  have "\<bar>fl x - x\<bar> \<le> u * \<bar>x\<bar>" using fl by blast
  then show ?thesis using x by (simp add: algebra_simps)
qed

lemma rel_err_lo_pos:
  fixes u :: real
  assumes "0 \<le> u" "u < 1"
  shows "0 < (1 - u) ^ p / (1 + u) ^ q"
  using assms by simp

lemma rel_err_lo_le_1:
  fixes u :: real
  assumes "0 \<le> u" "u < 1"
  shows "(1 - u) ^ p / (1 + u) ^ q \<le> 1"
proof -
  have "(1 - u) ^ p \<le> 1" using assms by (simp add: power_le_one)
  moreover have "1 \<le> (1 + u) ^ q" using assms by (simp add: one_le_power)
  ultimately have "(1 - u) ^ p \<le> (1 + u) ^ q" by linarith
  then show ?thesis using assms by (simp add: divide_le_eq_1)
qed

lemma rel_err_hi_ge_1:
  fixes u :: real
  assumes "0 \<le> u" "u < 1"
  shows "1 \<le> (1 + u) ^ p / (1 - u) ^ q"
proof -
  have "(1 - u) ^ q \<le> 1" using assms by (simp add: power_le_one)
  moreover have "1 \<le> (1 + u) ^ p" using assms by (simp add: one_le_power)
  ultimately have "(1 - u) ^ q \<le> (1 + u) ^ p" by linarith
  then show ?thesis using assms by (simp add: le_divide_eq_1)
qed

lemma rel_err_refl:
  assumes "0 \<le> u" "u < 1"
  shows "rel_err u p q x x"
  unfolding rel_err_def
  using rel_err_lo_le_1[OF assms, of p q] rel_err_hi_ge_1[OF assms, of p q]
  by (intro exI[of _ 1]) simp

lemma rel_err_lo_mono:
  fixes u :: real
  assumes "0 \<le> u" "u < 1" "p \<le> p'" "q \<le> q'"
  shows "(1 - u) ^ p' / (1 + u) ^ q' \<le> (1 - u) ^ p / (1 + u) ^ q"
proof -
  have 1: "(1 - u) ^ p' \<le> (1 - u) ^ p" using assms by (intro power_decreasing) simp_all
  have 2: "(1 + u) ^ q \<le> (1 + u) ^ q'" using assms by (intro power_increasing) simp_all
  have 3: "0 < (1 + u) ^ q" "0 \<le> (1 - u) ^ p'" using assms by simp_all
  show ?thesis using 1 2 3 by (intro frac_le) simp_all
qed

lemma rel_err_hi_mono:
  fixes u :: real
  assumes "0 \<le> u" "u < 1" "p \<le> p'" "q \<le> q'"
  shows "(1 + u) ^ p / (1 - u) ^ q \<le> (1 + u) ^ p' / (1 - u) ^ q'"
proof -
  have 1: "(1 - u) ^ q' \<le> (1 - u) ^ q" using assms by (intro power_decreasing) simp_all
  have 2: "(1 + u) ^ p \<le> (1 + u) ^ p'" using assms by (intro power_increasing) simp_all
  have 3: "0 < (1 - u) ^ q'" "0 \<le> (1 + u) ^ p" using assms by simp_all
  show ?thesis using 1 2 3 by (intro frac_le) simp_all
qed

lemma rel_err_weaken:
  assumes "0 \<le> u" "u < 1" "rel_err u p q x y" "p \<le> p'" "q \<le> q'"
  shows "rel_err u p' q' x y"
proof -
  from assms(3) obtain r where r: "(1 - u) ^ p / (1 + u) ^ q \<le> r" "r \<le> (1 + u) ^ p / (1 - u) ^ q"
    "x = r * y" by (auto simp: rel_err_def)
  show ?thesis unfolding rel_err_def
    using r rel_err_lo_mono[OF assms(1,2,4,5)] rel_err_hi_mono[OF assms(1,2,4,5)]
    by (intro exI[of _ r]) simp
qed

lemma rel_err_cast: "rel_err u p q x y \<Longrightarrow> p = p' \<Longrightarrow> q = q' \<Longrightarrow> rel_err u p' q' x y"
  by simp

lemma rel_err_zero_iff:
  assumes "0 \<le> u" "u < 1" "rel_err u p q x y"
  shows "x = 0 \<longleftrightarrow> y = 0"
proof -
  from assms(3) obtain r where r: "(1 - u) ^ p / (1 + u) ^ q \<le> r" "x = r * y"
    by (auto simp: rel_err_def)
  have "0 < r" using r(1) rel_err_lo_pos[OF assms(1,2), of p q] by linarith
  then show ?thesis using r(2) by simp
qed

lemma rel_err_nonneg_iff:
  assumes "0 \<le> u" "u < 1" "rel_err u p q x y"
  shows "0 \<le> x \<longleftrightarrow> 0 \<le> y"
proof -
  from assms(3) obtain r where r: "(1 - u) ^ p / (1 + u) ^ q \<le> r" "x = r * y"
    by (auto simp: rel_err_def)
  have "0 < r" using r(1) rel_err_lo_pos[OF assms(1,2), of p q] by linarith
  then show ?thesis using r(2) by (simp add: zero_le_mult_iff)
qed

lemma rel_err_abs:
  assumes "0 \<le> u" "u < 1" "rel_err u p q x y"
  shows "rel_err u p q \<bar>x\<bar> \<bar>y\<bar>"
proof -
  from assms(3) obtain r where r: "(1 - u) ^ p / (1 + u) ^ q \<le> r" "r \<le> (1 + u) ^ p / (1 - u) ^ q"
    "x = r * y" by (auto simp: rel_err_def)
  have "0 < r" using r(1) rel_err_lo_pos[OF assms(1,2), of p q] by linarith
  then have "\<bar>x\<bar> = r * \<bar>y\<bar>" using r(3) by (simp add: abs_mult)
  then show ?thesis unfolding rel_err_def using r(1,2) by blast
qed

lemma rel_err_bounds_nonneg:
  assumes u: "0 \<le> u" "u < 1" and y: "0 \<le> y"
  shows "rel_err u p q x y \<longleftrightarrow>
           (1 - u) ^ p / (1 + u) ^ q * y \<le> x \<and> x \<le> (1 + u) ^ p / (1 - u) ^ q * y"
proof
  assume "rel_err u p q x y"
  then obtain r where r: "(1 - u) ^ p / (1 + u) ^ q \<le> r" "r \<le> (1 + u) ^ p / (1 - u) ^ q"
    "x = r * y" by (auto simp: rel_err_def)
  show "(1 - u) ^ p / (1 + u) ^ q * y \<le> x \<and> x \<le> (1 + u) ^ p / (1 - u) ^ q * y"
    unfolding r(3) using r(1,2) y by (intro conjI mult_right_mono)
next
  assume b: "(1 - u) ^ p / (1 + u) ^ q * y \<le> x \<and> x \<le> (1 + u) ^ p / (1 - u) ^ q * y"
  show "rel_err u p q x y"
  proof (cases "y = 0")
    case True
    then have "x = y" using b by simp
    then show ?thesis using rel_err_refl[OF u] by simp
  next
    case False
    then have y0: "0 < y" using y by simp
    have "(1 - u) ^ p / (1 + u) ^ q \<le> x / y" "x / y \<le> (1 + u) ^ p / (1 - u) ^ q"
      using b y0 by (simp_all add: pos_le_divide_eq pos_divide_le_eq)
    moreover have "x = x / y * y" using False by simp
    ultimately show ?thesis unfolding rel_err_def by blast
  qed
qed

lemma rel_err_bounds_nonpos:
  assumes u: "0 \<le> u" "u < 1" and y: "y \<le> 0"
  shows "rel_err u p q x y \<longleftrightarrow>
           (1 + u) ^ p / (1 - u) ^ q * y \<le> x \<and> x \<le> (1 - u) ^ p / (1 + u) ^ q * y"
proof
  assume "rel_err u p q x y"
  then obtain r where r: "(1 - u) ^ p / (1 + u) ^ q \<le> r" "r \<le> (1 + u) ^ p / (1 - u) ^ q"
    "x = r * y" by (auto simp: rel_err_def)
  show "(1 + u) ^ p / (1 - u) ^ q * y \<le> x \<and> x \<le> (1 - u) ^ p / (1 + u) ^ q * y"
    unfolding r(3) using r(1,2) y by (intro conjI mult_right_mono_neg)
next
  assume b: "(1 + u) ^ p / (1 - u) ^ q * y \<le> x \<and> x \<le> (1 - u) ^ p / (1 + u) ^ q * y"
  show "rel_err u p q x y"
  proof (cases "y = 0")
    case True
    then have "x = y" using b by simp
    then show ?thesis using rel_err_refl[OF u] by simp
  next
    case False
    then have y0: "y < 0" using y by simp
    have "(1 - u) ^ p / (1 + u) ^ q \<le> x / y" "x / y \<le> (1 + u) ^ p / (1 - u) ^ q"
      using b y0 by (simp_all add: neg_le_divide_eq neg_divide_le_eq)
    moreover have "x = x / y * y" using False by simp
    ultimately show ?thesis unfolding rel_err_def by blast
  qed
qed

lemma rel_err_fl:
  fixes fl :: "real \<Rightarrow> real"
  assumes fl: "\<forall>x. \<bar>fl x - x\<bar> \<le> u * \<bar>x\<bar>" and u: "0 \<le> u" "u < 1"
      and x: "rel_err u p q x y"
  shows "rel_err u (p + 1) q (fl x) y"
proof -
  from x obtain r where r: "(1 - u) ^ p / (1 + u) ^ q \<le> r" "r \<le> (1 + u) ^ p / (1 - u) ^ q"
    "x = r * y" by (auto simp: rel_err_def)
  from rounding_factor[OF fl u(1), of x] obtain d where
    d: "1 - u \<le> d" "d \<le> 1 + u" "fl x = d * x" by blast
  have r0: "0 \<le> r" using r(1) rel_err_lo_pos[OF u, of p q] by linarith
  have d0: "0 \<le> d" using d(1) u by linarith
  have l0: "0 \<le> (1 - u) ^ p / (1 + u) ^ q" using rel_err_lo_pos[OF u, of p q] by simp
  have "(1 - u) * ((1 - u) ^ p / (1 + u) ^ q) \<le> d * r"
    using d(1) r(1) l0 u by (intro mult_mono) simp_all
  then have 1: "(1 - u) ^ (p + 1) / (1 + u) ^ q \<le> d * r" by simp
  have "d * r \<le> (1 + u) * ((1 + u) ^ p / (1 - u) ^ q)"
    using d(2) r(2) r0 d0 u by (intro mult_mono) simp_all
  then have 2: "d * r \<le> (1 + u) ^ (p + 1) / (1 - u) ^ q" by simp
  have "fl x = d * x" by (rule d(3))
  also have "\<dots> = (d * r) * y" by (simp add: r(3))
  finally show ?thesis unfolding rel_err_def using 1 2 by blast
qed

lemma rel_err_mult:
  assumes u: "0 \<le> u" "u < 1"
      and 1: "rel_err u p1 q1 xa ya" and 2: "rel_err u p2 q2 xb yb"
  shows "rel_err u (p1 + p2) (q1 + q2) (xa * xb) (ya * yb)"
proof -
  from 1 obtain r1 where r1: "(1 - u) ^ p1 / (1 + u) ^ q1 \<le> r1" "r1 \<le> (1 + u) ^ p1 / (1 - u) ^ q1"
    "xa = r1 * ya" by (auto simp: rel_err_def)
  from 2 obtain r2 where r2: "(1 - u) ^ p2 / (1 + u) ^ q2 \<le> r2" "r2 \<le> (1 + u) ^ p2 / (1 - u) ^ q2"
    "xb = r2 * yb" by (auto simp: rel_err_def)
  have l1: "0 \<le> (1 - u) ^ p1 / (1 + u) ^ q1" and l2: "0 \<le> (1 - u) ^ p2 / (1 + u) ^ q2"
    using rel_err_lo_pos[OF u, of p1 q1] rel_err_lo_pos[OF u, of p2 q2] by simp_all
  have r10: "0 \<le> r1" using r1(1) l1 by linarith
  have r20: "0 \<le> r2" using r2(1) l2 by linarith
  have "(1 - u) ^ p1 / (1 + u) ^ q1 * ((1 - u) ^ p2 / (1 + u) ^ q2) \<le> r1 * r2"
    using r1(1) r2(1) l1 l2 by (intro mult_mono) simp_all
  then have a: "(1 - u) ^ (p1 + p2) / (1 + u) ^ (q1 + q2) \<le> r1 * r2" by (simp add: power_add)
  have "r1 * r2 \<le> (1 + u) ^ p1 / (1 - u) ^ q1 * ((1 + u) ^ p2 / (1 - u) ^ q2)"
    using r1(2) r2(2) r10 r20 by (intro mult_mono) simp_all
  then have b: "r1 * r2 \<le> (1 + u) ^ (p1 + p2) / (1 - u) ^ (q1 + q2)" by (simp add: power_add)
  have "xa * xb = (r1 * r2) * (ya * yb)" unfolding r1(3) r2(3) by simp
  then show ?thesis unfolding rel_err_def using a b by blast
qed

lemma rel_err_inverse:
  assumes u: "0 \<le> u" "u < 1" and 1: "rel_err u p q x y"
  shows "rel_err u q p (1 / x) (1 / y)"
proof -
  from 1 obtain r where r: "(1 - u) ^ p / (1 + u) ^ q \<le> r" "r \<le> (1 + u) ^ p / (1 - u) ^ q"
    "x = r * y" by (auto simp: rel_err_def)
  have l: "0 < (1 - u) ^ p / (1 + u) ^ q" by (rule rel_err_lo_pos[OF u])
  have r0: "0 < r" using r(1) l by linarith
  have "inverse ((1 + u) ^ p / (1 - u) ^ q) \<le> inverse r"
    using r(2) r0 by (rule le_imp_inverse_le)
  then have a: "(1 - u) ^ q / (1 + u) ^ p \<le> 1 / r" by (simp add: inverse_eq_divide)
  have "inverse r \<le> inverse ((1 - u) ^ p / (1 + u) ^ q)"
    using r(1) l by (rule le_imp_inverse_le)
  then have b: "1 / r \<le> (1 + u) ^ q / (1 - u) ^ p" by (simp add: inverse_eq_divide)
  have "1 / x = (1 / r) * (1 / y)" unfolding r(3) by simp
  then show ?thesis unfolding rel_err_def using a b by blast
qed

lemma rel_err_divide:
  assumes u: "0 \<le> u" "u < 1"
      and 1: "rel_err u p1 q1 xa ya" and 2: "rel_err u p2 q2 xb yb"
  shows "rel_err u (p1 + q2) (q1 + p2) (xa / xb) (ya / yb)"
  using rel_err_mult[OF u 1 rel_err_inverse[OF u 2]] by simp

lemma rel_err_add:
  assumes u: "0 \<le> u" "u < 1"
      and 1: "rel_err u p q xa ya" and 2: "rel_err u p q xb yb"
      and y: "0 \<le> ya" "0 \<le> yb"
  shows "rel_err u p q (xa + xb) (ya + yb)"
proof -
  have yab: "0 \<le> ya + yb" using y by simp
  show ?thesis
    using 1 2 unfolding rel_err_bounds_nonneg[OF u y(1)] rel_err_bounds_nonneg[OF u y(2)]
      rel_err_bounds_nonneg[OF u yab]
    by (simp add: distrib_left)
qed

lemma rel_err_sqrt:
  assumes u: "0 \<le> u" "u < 1" and 1: "rel_err u (2 * p) (2 * q) x y"
  shows "rel_err u p q (sqrt x) (sqrt y)"
proof -
  from 1 obtain r where r: "(1 - u) ^ (2 * p) / (1 + u) ^ (2 * q) \<le> r"
    "r \<le> (1 + u) ^ (2 * p) / (1 - u) ^ (2 * q)" "x = r * y" by (auto simp: rel_err_def)
  have e: "sqrt (a ^ (2 * n) / b ^ (2 * m)) = a ^ n / b ^ m" if "0 \<le> a" "0 \<le> b" for a b :: real and n m
  proof -
    have "a ^ (2 * n) / b ^ (2 * m) = (a ^ n / b ^ m)\<^sup>2"
      by (simp only: power_even_eq power_divide)
    moreover have "0 \<le> a ^ n / b ^ m" using that by simp
    ultimately show ?thesis by (simp only: real_sqrt_abs abs_of_nonneg)
  qed
  have "sqrt ((1 - u) ^ (2 * p) / (1 + u) ^ (2 * q)) \<le> sqrt r"
    using r(1) by (simp only: real_sqrt_le_iff)
  then have a: "(1 - u) ^ p / (1 + u) ^ q \<le> sqrt r" using u by (simp only: e)
  have "sqrt r \<le> sqrt ((1 + u) ^ (2 * p) / (1 - u) ^ (2 * q))"
    using r(2) by (simp only: real_sqrt_le_iff)
  then have b: "sqrt r \<le> (1 + u) ^ p / (1 - u) ^ q" using u by (simp only: e)
  have "sqrt x = sqrt r * sqrt y" unfolding r(3) by (rule real_sqrt_mult)
  then show ?thesis unfolding rel_err_def using a b by blast
qed

lemma rel_err_min:
  assumes u: "0 \<le> u" "u < 1"
      and 1: "rel_err u p q xa ya" and 2: "rel_err u p q xb yb"
  shows "rel_err u p q (min xa xb) (min ya yb)"
proof -
  define lo where "lo = (1 - u) ^ p / (1 + u) ^ q"
  define hi where "hi = (1 + u) ^ p / (1 - u) ^ q"
  have lo0: "0 < lo" unfolding lo_def by (rule rel_err_lo_pos[OF u])
  have swap: "rel_err u p q (min a b) (min c d)"
    if ac: "rel_err u p q a c" and bd: "rel_err u p q b d" and cd: "c \<le> d" for a b c d
  proof (cases "a \<le> b")
    case True
    then show ?thesis using ac cd by (simp add: min_def)
  next
    case False
    then have ba: "b < a" by simp
    from ac obtain r1 where r1: "lo \<le> r1" "r1 \<le> hi" "a = r1 * c"
      by (auto simp: rel_err_def lo_def hi_def)
    from bd obtain r2 where r2: "lo \<le> r2" "r2 \<le> hi" "b = r2 * d"
      by (auto simp: rel_err_def lo_def hi_def)
    have r10: "0 < r1" and r20: "0 < r2" using r1(1) r2(1) lo0 by linarith+
    have m: "min a b = b" "min c d = c" using ba cd by simp_all
    have dge: "r2 * c \<le> b" unfolding r2(3) using cd r20 by (intro mult_left_mono) simp_all
    show ?thesis
    proof (cases "0 \<le> c")
      case True
      have "lo * c \<le> r2 * c" using r2(1) True by (rule mult_right_mono)
      then have l: "lo * c \<le> b" using dge by linarith
      have "r1 * c \<le> hi * c" using r1(2) True by (rule mult_right_mono)
      then have h: "b \<le> hi * c" using ba r1(3) by linarith
      show ?thesis unfolding m rel_err_bounds_nonneg[OF u True] using l h
        by (simp add: lo_def hi_def)
    next
      case False
      then have c0: "c \<le> 0" by simp
      have "hi * c \<le> r2 * c" using r2(2) c0 by (rule mult_right_mono_neg)
      then have l: "hi * c \<le> b" using dge by linarith
      have "r1 * c \<le> lo * c" using r1(1) c0 by (rule mult_right_mono_neg)
      then have h: "b \<le> lo * c" using ba r1(3) by linarith
      show ?thesis unfolding m rel_err_bounds_nonpos[OF u c0] using l h
        by (simp add: lo_def hi_def)
    qed
  qed
  show ?thesis
  proof (cases "ya \<le> yb")
    case True
    then show ?thesis using swap[OF 1 2] by simp
  next
    case False
    then have "yb \<le> ya" by simp
    then have "rel_err u p q (min xb xa) (min yb ya)" using swap[OF 2 1] by simp
    then show ?thesis by (simp add: min.commute)
  qed
qed

lemma rel_err_compare:
  assumes u: "0 \<le> u" "u < 1"
      and 1: "rel_err u p q x e" and 2: "rel_err u p q y e"
  shows "rel_err u (p + q) (p + q) y x"
proof -
  from 1 obtain r1 where r1: "(1 - u) ^ p / (1 + u) ^ q \<le> r1" "x = r1 * e"
    by (auto simp: rel_err_def)
  have "0 < r1" using r1(1) rel_err_lo_pos[OF u, of p q] by linarith
  then have "e = (1 / x) * x * e \<or> x = 0" by simp
  have i: "rel_err u q p (1 / x) (1 / e)" using u 1 by (rule rel_err_inverse)
  have "rel_err u (p + q) (q + p) (y * (1 / x)) (e * (1 / e))" using u 2 i by (rule rel_err_mult)
  then have m: "rel_err u (p + q) (p + q) (y / x) (e / e)" by (simp add: add.commute)
  show ?thesis
  proof (cases "e = 0")
    case True
    then have "x = 0" "y = 0" using rel_err_zero_iff[OF u 1] rel_err_zero_iff[OF u 2] by simp_all
    then show ?thesis using rel_err_refl[OF u] by simp
  next
    case False
    then have x0: "x \<noteq> 0" using rel_err_zero_iff[OF u 1] by simp
    from m False obtain r where r: "(1 - u) ^ (p + q) / (1 + u) ^ (p + q) \<le> r"
      "r \<le> (1 + u) ^ (p + q) / (1 - u) ^ (p + q)" "y / x = r" by (auto simp: rel_err_def)
    have "y = r * x" using r(3) x0 by (simp add: field_simps)
    then show ?thesis unfolding rel_err_def using r(1,2) by blast
  qed
qed

lemma rel_err_exact: "rel_err 0 p q x y \<longleftrightarrow> x = y"
proof
  assume "rel_err 0 p q x y"
  then obtain r :: real where "1 \<le> r" "r \<le> 1" "x = r * y" by (auto simp: rel_err_def)
  then show "x = y" by simp
next
  assume "x = y"
  then have "(1::real) \<le> 1 \<and> (1::real) \<le> 1 \<and> x = 1 * y" by simp
  then show "rel_err 0 p q x y" unfolding rel_err_def by (intro exI[of _ 1]) simp
qed

subsection \<open>The loiter speed cap\<close>

lemma pythagorous2_fl_exact: "pythagorous2_fl (\<lambda>x. x) a b = pythagorous2 a b"
  by (simp add: pythagorous2_fl_def pythagorous2_def)

lemma calc_loiter_desired_velocity_fl_exact:
  "calc_loiter_desired_velocity_fl (\<lambda>x. x) C ahrs nav_dt = calc_loiter_desired_velocity C ahrs nav_dt"
  unfolding calc_loiter_desired_velocity_fl_def calc_loiter_desired_velocity_def pythagorous2_fl_exact
  by (rule refl)

lemma pythagorous2_fl_lower:
  fixes fl :: "real \<Rightarrow> real" and u :: real
  assumes fl: "\<forall>x. \<bar>fl x - x\<bar> \<le> u * \<bar>x\<bar>" and u: "0 \<le> u" "u < 1"
  shows "(1 - u)\<^sup>2 * pythagorous2 a b \<le> pythagorous2_fl fl a b"
proof -
  define m where "m = pythagorous2 a b"
  define S where "S = fl (a * a) + fl (b * b)"
  have m0: "0 \<le> m" unfolding m_def by (rule pythagorous2_nonneg)
  have m2: "m\<^sup>2 = a * a + b * b" unfolding m_def pythagorous2_def by simp
  have u1: "0 < 1 - u" using u by simp
  have "(1 - u) * (a * a) \<le> fl (a * a)" "(1 - u) * (b * b) \<le> fl (b * b)"
    using fl by (intro rounding_ge; simp)+
  then have S: "(1 - u) * m\<^sup>2 \<le> S" unfolding S_def m2 by (simp add: algebra_simps)
  have S0: "0 \<le> S"
  proof -
    have "0 \<le> (1 - u) * m\<^sup>2" using u1 by simp
    then show ?thesis using S by linarith
  qed
  have "(1 - u) * ((1 - u) * m\<^sup>2) \<le> (1 - u) * S"
    using S u1 by (intro mult_left_mono) simp_all
  also have "\<dots> \<le> fl S" using fl S0 by (rule rounding_ge)
  finally have flS: "((1 - u) * m)\<^sup>2 \<le> fl S" by (simp add: power2_eq_square algebra_simps)
  have "(1 - u) * m = sqrt (((1 - u) * m)\<^sup>2)" using u1 m0 by simp
  also have "\<dots> \<le> sqrt (fl S)" using flS by (simp only: real_sqrt_le_iff)
  finally have sq: "(1 - u) * m \<le> sqrt (fl S)" .
  have "0 \<le> (1 - u) * m" using u1 m0 by simp
  then have sq0: "0 \<le> sqrt (fl S)" using sq by linarith
  have "(1 - u) * ((1 - u) * m) \<le> (1 - u) * sqrt (fl S)"
    using sq u1 by (intro mult_left_mono) simp_all
  also have "\<dots> \<le> fl (sqrt (fl S))" using fl sq0 by (rule rounding_ge)
  finally show ?thesis
    unfolding pythagorous2_fl_def S_def m_def by (simp add: power2_eq_square algebra_simps)
qed

lemma pythagorous2_mono:
  assumes "\<bar>x\<bar> \<le> K * \<bar>a\<bar>" "\<bar>y\<bar> \<le> K * \<bar>b\<bar>" "0 \<le> K"
  shows "pythagorous2 x y \<le> K * pythagorous2 a b"
proof -
  have "x * x = \<bar>x\<bar> * \<bar>x\<bar>" by simp
  also have "\<dots> \<le> (K * \<bar>a\<bar>) * (K * \<bar>a\<bar>)" using assms(1) by (intro mult_mono) simp_all
  finally have x: "x * x \<le> K * K * (a * a)" by (simp add: algebra_simps abs_mult_self_eq)
  have "y * y = \<bar>y\<bar> * \<bar>y\<bar>" by simp
  also have "\<dots> \<le> (K * \<bar>b\<bar>) * (K * \<bar>b\<bar>)" using assms(2) by (intro mult_mono) simp_all
  finally have y: "y * y \<le> K * K * (b * b)" by (simp add: algebra_simps abs_mult_self_eq)
  have "x * x + y * y \<le> K\<^sup>2 * (a * a + b * b)"
    using x y by (simp add: power2_eq_square algebra_simps)
  then have "sqrt (x * x + y * y) \<le> sqrt (K\<^sup>2 * (a * a + b * b))"
    by (simp only: real_sqrt_le_iff)
  also have "\<dots> = K * sqrt (a * a + b * b)" using assms(3) by (simp add: real_sqrt_mult)
  finally show ?thesis by (simp add: pythagorous2_def)
qed

lemma loiter_scale_bound_fl:
  fixes fl :: "real \<Rightarrow> real" and u L a b :: real
  assumes fl: "\<forall>x. \<bar>fl x - x\<bar> \<le> u * \<bar>x\<bar>" and u: "0 \<le> u" "u < 1" and L: "0 \<le> L"
  shows "pythagorous2
           (if pythagorous2_fl fl a b > L \<and> pythagorous2_fl fl a b > 0
            then fl (fl (L * a) / pythagorous2_fl fl a b) else a)
           (if pythagorous2_fl fl a b > L \<and> pythagorous2_fl fl a b > 0
            then fl (fl (L * b) / pythagorous2_fl fl a b) else b)
         \<le> L * ((1 + u) / (1 - u))\<^sup>2"
proof -
  define t where "t = pythagorous2_fl fl a b"
  define m where "m = pythagorous2 a b"
  have u1: "0 < 1 - u" "0 < (1 - u)\<^sup>2" using u by simp_all
  have m0: "0 \<le> m" unfolding m_def by (rule pythagorous2_nonneg)
  have low: "(1 - u)\<^sup>2 * m \<le> t" unfolding t_def m_def using fl u by (rule pythagorous2_fl_lower)
  then have mt: "m \<le> t / (1 - u)\<^sup>2" using u1 by (simp add: pos_le_divide_eq mult.commute)
  have one: "1 \<le> (1 + u)\<^sup>2" using u by (simp add: power2_eq_square algebra_simps)
  have bound_eq: "L * ((1 + u) / (1 - u))\<^sup>2 = (1 + u)\<^sup>2 * L / (1 - u)\<^sup>2"
    by (simp add: power_divide)
  show ?thesis
  proof (cases "t > L \<and> t > 0")
    case True
    then have t0: "0 < t" by simp
    define K where "K = (1 + u)\<^sup>2 * L / t"
    have K0: "0 \<le> K" unfolding K_def using L t0 by simp
    have sc: "\<bar>fl (fl (L * c) / t)\<bar> \<le> K * \<bar>c\<bar>" for c
    proof -
      have "\<bar>fl (fl (L * c) / t)\<bar> \<le> (1 + u) * \<bar>fl (L * c) / t\<bar>" using fl by (rule rounding_abs_le)
      also have "\<dots> = (1 + u) * (\<bar>fl (L * c)\<bar> / t)" using t0 by simp
      also have "\<dots> \<le> (1 + u) * (((1 + u) * \<bar>L * c\<bar>) / t)"
        using rounding_abs_le[OF fl, of "L * c"] u t0
        by (intro mult_left_mono divide_right_mono) simp_all
      also have "\<dots> = K * \<bar>c\<bar>" using L by (simp add: K_def abs_mult power2_eq_square)
      finally show ?thesis .
    qed
    have "pythagorous2 (fl (fl (L * a) / t)) (fl (fl (L * b) / t)) \<le> K * m"
      unfolding m_def using sc[of a] sc[of b] K0 by (rule pythagorous2_mono)
    also have "\<dots> \<le> K * (t / (1 - u)\<^sup>2)" using mt K0 by (rule mult_left_mono)
    also have "\<dots> = (1 + u)\<^sup>2 * L / (1 - u)\<^sup>2" using t0 by (simp add: K_def)
    finally show ?thesis unfolding t_def[symmetric] bound_eq if_P[OF True] .
  next
    case False
    have tL: "t \<le> L"
    proof (cases "t > L")
      case True
      with False have "t \<le> 0" by simp
      then show ?thesis using L by linarith
    next
      case False
      then show ?thesis by simp
    qed
    have "m \<le> t / (1 - u)\<^sup>2" by (rule mt)
    also have "\<dots> \<le> L / (1 - u)\<^sup>2" using tL u1 by (simp add: divide_right_mono)
    also have "\<dots> = 1 * L / (1 - u)\<^sup>2" by simp
    also have "\<dots> \<le> (1 + u)\<^sup>2 * L / (1 - u)\<^sup>2"
      using one L u1 by (intro divide_right_mono mult_right_mono) simp_all
    finally show ?thesis unfolding t_def[symmetric] bound_eq if_not_P[OF False] m_def .
  qed
qed

lemma calc_loiter_shape_fl:
  assumes n: "\<not> nav_dt < 0"
  shows "\<exists>a b. calc_loiter_desired_velocity_fl fl C ahrs nav_dt (s, pc) =
     (if loiter_speed_cms s < WPNAV_LOITER_SPEED_MIN C
                then s\<lparr>loiter_speed_cms := WPNAV_LOITER_SPEED_MIN C,
                        loiter_accel_cms := fl (WPNAV_LOITER_SPEED_MIN C / 2)\<rparr>
                else s,
      set_desired_velocity
        (if pythagorous2_fl fl a b > loiter_speed_cms (if loiter_speed_cms s < WPNAV_LOITER_SPEED_MIN C
                then s\<lparr>loiter_speed_cms := WPNAV_LOITER_SPEED_MIN C,
                        loiter_accel_cms := fl (WPNAV_LOITER_SPEED_MIN C / 2)\<rparr>
                else s) \<and> pythagorous2_fl fl a b > 0
         then fl (fl (loiter_speed_cms (if loiter_speed_cms s < WPNAV_LOITER_SPEED_MIN C
                then s\<lparr>loiter_speed_cms := WPNAV_LOITER_SPEED_MIN C,
                        loiter_accel_cms := fl (WPNAV_LOITER_SPEED_MIN C / 2)\<rparr>
                else s) * a) / pythagorous2_fl fl a b) else a)
        (if pythagorous2_fl fl a b > loiter_speed_cms (if loiter_speed_cms s < WPNAV_LOITER_SPEED_MIN C
                then s\<lparr>loiter_speed_cms := WPNAV_LOITER_SPEED_MIN C,
                        loiter_accel_cms := fl (WPNAV_LOITER_SPEED_MIN C / 2)\<rparr>
                else s) \<and> pythagorous2_fl fl a b > 0
         then fl (fl (loiter_speed_cms (if loiter_speed_cms s < WPNAV_LOITER_SPEED_MIN C
                then s\<lparr>loiter_speed_cms := WPNAV_LOITER_SPEED_MIN C,
                        loiter_accel_cms := fl (WPNAV_LOITER_SPEED_MIN C / 2)\<rparr>
                else s) * b) / pythagorous2_fl fl a b) else b)
        pc)"
  unfolding calc_loiter_desired_velocity_fl_def Let_def split_conv if_not_P[OF n]
  by (intro exI) (rule refl)

subsection \<open>The leash quantities in rounded arithmetic\<close>

lemma vector_ops_fl_exact:
  "vsub_fl (\<lambda>x. x) a b = vsub a b" "vdiv_fl (\<lambda>x. x) a k = vdiv a k"
  "vlength_fl (\<lambda>x. x) a = vlength a"
  by (simp_all add: vsub_fl_def vsub_def vdiv_fl_def vdiv_def vlength_fl_def vlength_def)

lemma calculate_wp_leash_length_fl_exact:
  "calculate_wp_leash_length_fl (\<lambda>x. x) C pc s = calculate_wp_leash_length C pc s"
  unfolding calculate_wp_leash_length_fl_def calculate_wp_leash_length_def pythagorous2_fl_exact
  by (rule refl)

lemma calculate_track_fields_fl:
  fixes fl C pc s
  defines "u \<equiv> pos_delta_unit s"
  defines "uxy \<equiv> pythagorous2_fl fl (x3 u) (y3 u)"
  defines "uz \<equiv> \<bar>z3 u\<bar>"
  defines "speed_z \<equiv> (if z3 u \<ge> 0 then wp_speed_up_cms s else wp_speed_down_cms s)"
  defines "leash_z \<equiv> (if z3 u \<ge> 0 then leash_up_z pc else leash_down_z pc)"
  shows "track_accel (calculate_wp_leash_length_fl fl C pc s) =
           (if uz = 0 \<and> uxy = 0 then 0 else if z3 u = 0 then fl (wp_accel_cms s / uxy)
            else if uxy = 0 then fl (WPNAV_ALT_HOLD_ACCEL_MAX C / uz)
            else min (fl (WPNAV_ALT_HOLD_ACCEL_MAX C / uz)) (fl (wp_accel_cms s / uxy)))"
    and "track_speed (calculate_wp_leash_length_fl fl C pc s) =
           (if uz = 0 \<and> uxy = 0 then 0 else if z3 u = 0 then fl (wp_speed_cms s / uxy)
            else if uxy = 0 then fl (speed_z / uz)
            else min (fl (speed_z / uz)) (fl (wp_speed_cms s / uxy)))"
    and "track_leash_length (calculate_wp_leash_length_fl fl C pc s) =
           (if uz = 0 \<and> uxy = 0 then WPNAV_LEASH_LENGTH_MIN C else if z3 u = 0 then fl (leash_xy pc / uxy)
            else if uxy = 0 then fl (leash_z / uz)
            else min (fl (leash_z / uz)) (fl (leash_xy pc / uxy)))"
  unfolding u_def uxy_def uz_def speed_z_def leash_z_def
  by (simp_all add: calculate_wp_leash_length_fl_def Let_def)

lemma unit_vector_scale:
  assumes c: "0 < c"
  shows "unit_vector (vmul d c) = unit_vector d"
proof -
  have 2: "vlength (vmul d c) = 0 \<longleftrightarrow> vlength d = 0"
    using c by (simp add: vlength_scale)
  have 3: "vdiv (vmul d c) (vlength d * c) = vdiv d (vlength d)"
    using c by (simp add: vdiv_def vmul_def)
  show ?thesis unfolding unit_vector_def 2 by (simp add: vlength_scale[OF c] 3)
qed

lemma vlength_fl_rel:
  fixes fl :: "real \<Rightarrow> real"
  assumes fl: "\<forall>x. \<bar>fl x - x\<bar> \<le> u * \<bar>x\<bar>" and u: "0 \<le> u" "u < 1"
  shows "rel_err u 3 0 (vlength_fl fl d) (vlength d)"
proof -
  note R = rel_err_fl[OF fl u]
  have sq: "rel_err u 1 0 (fl (a * a)) (a * a)" for a
    by (rule rel_err_cast[OF R[OF rel_err_refl[OF u, of 0 0 "a * a"]]]) simp_all
  have "rel_err u 1 0 (fl (x3 d * x3 d) + fl (y3 d * y3 d)) (x3 d * x3 d + y3 d * y3 d)"
    using u sq sq by (rule rel_err_add) simp_all
  then have "rel_err u (1 + 1) 0 (fl (fl (x3 d * x3 d) + fl (y3 d * y3 d))) (x3 d * x3 d + y3 d * y3 d)"
    by (rule R)
  then have xy: "rel_err u 2 0 (fl (fl (x3 d * x3 d) + fl (y3 d * y3 d))) (x3 d * x3 d + y3 d * y3 d)"
    by (rule rel_err_cast) simp_all
  have z: "rel_err u 2 0 (fl (z3 d * z3 d)) (z3 d * z3 d)"
    using u sq by (rule rel_err_weaken) simp_all
  have "rel_err u 2 0 (fl (fl (x3 d * x3 d) + fl (y3 d * y3 d)) + fl (z3 d * z3 d))
          (x3 d * x3 d + y3 d * y3 d + z3 d * z3 d)"
    using u xy z by (rule rel_err_add) simp_all
  then have "rel_err u (2 + 1) 0 (fl (fl (fl (x3 d * x3 d) + fl (y3 d * y3 d)) + fl (z3 d * z3 d)))
          (x3 d * x3 d + y3 d * y3 d + z3 d * z3 d)"
    by (rule R)
  then have "rel_err u (2 * 2) (2 * 0) (fl (fl (fl (x3 d * x3 d) + fl (y3 d * y3 d)) + fl (z3 d * z3 d)))
          (x3 d * x3 d + y3 d * y3 d + z3 d * z3 d)"
    by (rule rel_err_weaken[OF u]) simp_all
  then have "rel_err u 2 0 (sqrt (fl (fl (fl (x3 d * x3 d) + fl (y3 d * y3 d)) + fl (z3 d * z3 d))))
          (sqrt (x3 d * x3 d + y3 d * y3 d + z3 d * z3 d))"
    by (rule rel_err_sqrt[OF u])
  then have "rel_err u (2 + 1) 0 (fl (sqrt (fl (fl (fl (x3 d * x3 d) + fl (y3 d * y3 d)) + fl (z3 d * z3 d)))))
          (sqrt (x3 d * x3 d + y3 d * y3 d + z3 d * z3 d))"
    by (rule R)
  then show ?thesis unfolding vlength_fl_def vlength_def by (rule rel_err_cast) simp_all
qed

lemma pythagorous2_fl_rel:
  fixes fl :: "real \<Rightarrow> real"
  assumes fl: "\<forall>x. \<bar>fl x - x\<bar> \<le> u * \<bar>x\<bar>" and u: "0 \<le> u" "u < 1"
      and a: "rel_err u 1 3 a a'" and b: "rel_err u 1 3 b b'"
  shows "rel_err u 3 3 (pythagorous2_fl fl a b) (pythagorous2 a' b')"
proof -
  note R = rel_err_fl[OF fl u]
  have sq: "rel_err u 3 6 (fl (c * c)) (c' * c')" if "rel_err u 1 3 c c'" for c c'
    by (rule rel_err_cast[OF R[OF rel_err_mult[OF u that that]]]) simp_all
  have "rel_err u 3 6 (fl (a * a) + fl (b * b)) (a' * a' + b' * b')"
    using u sq[OF a] sq[OF b] by (rule rel_err_add) simp_all
  then have "rel_err u (3 + 1) 6 (fl (fl (a * a) + fl (b * b))) (a' * a' + b' * b')"
    by (rule R)
  then have "rel_err u (2 * 2) (2 * 3) (fl (fl (a * a) + fl (b * b))) (a' * a' + b' * b')"
    by (rule rel_err_cast) simp_all
  then have "rel_err u 2 3 (sqrt (fl (fl (a * a) + fl (b * b)))) (sqrt (a' * a' + b' * b'))"
    by (rule rel_err_sqrt[OF u])
  then have "rel_err u (2 + 1) 3 (fl (sqrt (fl (fl (a * a) + fl (b * b))))) (sqrt (a' * a' + b' * b'))"
    by (rule R)
  then show ?thesis unfolding pythagorous2_fl_def pythagorous2_def by (rule rel_err_cast) simp_all
qed

lemma unit_vector_fl_rel:
  fixes fl :: "real \<Rightarrow> real" and d :: Vector3f
  assumes fl: "\<forall>x. \<bar>fl x - x\<bar> \<le> u * \<bar>x\<bar>" and u: "0 \<le> u" "u < 1"
  defines "uf \<equiv> (if vlength_fl fl d = 0 then \<lparr>x3 = 0, y3 = 0, z3 = 0\<rparr>
                  else vdiv_fl fl d (vlength_fl fl d))"
  shows "rel_err u 1 3 (x3 uf) (x3 (unit_vector d))"
    and "rel_err u 1 3 (y3 uf) (y3 (unit_vector d))"
    and "rel_err u 1 3 (z3 uf) (z3 (unit_vector d))"
proof -
  note L = vlength_fl_rel[OF fl u, of d]
  have z: "vlength_fl fl d = 0 \<longleftrightarrow> vlength d = 0" using u L by (rule rel_err_zero_iff)
  have q: "rel_err u 1 3 (fl (a / vlength_fl fl d)) (a / vlength d)" for a
  proof -
    have "rel_err u (0 + 0) (0 + 3) (a / vlength_fl fl d) (a / vlength d)"
      using u rel_err_refl[OF u, of 0 0 a] L by (rule rel_err_divide)
    then have "rel_err u (0 + 0 + 1) (0 + 3) (fl (a / vlength_fl fl d)) (a / vlength d)"
      by (rule rel_err_fl[OF fl u])
    then show ?thesis by (rule rel_err_cast) simp_all
  qed
  show "rel_err u 1 3 (x3 uf) (x3 (unit_vector d))"
    unfolding uf_def unit_vector_def z using q rel_err_refl[OF u]
    by (simp add: vdiv_fl_def vdiv_def)
  show "rel_err u 1 3 (y3 uf) (y3 (unit_vector d))"
    unfolding uf_def unit_vector_def z using q rel_err_refl[OF u]
    by (simp add: vdiv_fl_def vdiv_def)
  show "rel_err u 1 3 (z3 uf) (z3 (unit_vector d))"
    unfolding uf_def unit_vector_def z using q rel_err_refl[OF u]
    by (simp add: vdiv_fl_def vdiv_def)
qed

lemma leash_field_rel:
  fixes fl :: "real \<Rightarrow> real"
  assumes fl: "\<forall>x. \<bar>fl x - x\<bar> \<le> u * \<bar>x\<bar>" and u: "0 \<le> u" "u < 1"
      and z: "rel_err u 1 3 zf ze" and xy: "rel_err u 3 3 xyf xye"
  shows "rel_err u 4 3
     (if \<bar>zf\<bar> = 0 \<and> xyf = 0 then K else if zf = 0 then fl (A / xyf)
      else if xyf = 0 then fl (B / \<bar>zf\<bar>) else min (fl (B / \<bar>zf\<bar>)) (fl (A / xyf)))
     (if \<bar>ze\<bar> = 0 \<and> xye = 0 then K else if ze = 0 then A / xye
      else if xye = 0 then B / \<bar>ze\<bar> else min (B / \<bar>ze\<bar>) (A / xye))"
proof -
  have z0: "zf = 0 \<longleftrightarrow> ze = 0" using u z by (rule rel_err_zero_iff)
  have xy0: "xyf = 0 \<longleftrightarrow> xye = 0" using u xy by (rule rel_err_zero_iff)
  have "rel_err u (0 + 3) (0 + 3) (A / xyf) (A / xye)"
    using u rel_err_refl[OF u, of 0 0 A] xy by (rule rel_err_divide)
  then have "rel_err u (0 + 3 + 1) (0 + 3) (fl (A / xyf)) (A / xye)"
    by (rule rel_err_fl[OF fl u])
  then have a: "rel_err u 4 3 (fl (A / xyf)) (A / xye)" by (rule rel_err_cast) simp_all
  have "rel_err u (0 + 3) (0 + 1) (B / \<bar>zf\<bar>) (B / \<bar>ze\<bar>)"
    using u rel_err_refl[OF u, of 0 0 B] rel_err_abs[OF u z] by (rule rel_err_divide)
  then have "rel_err u (0 + 3 + 1) (0 + 1) (fl (B / \<bar>zf\<bar>)) (B / \<bar>ze\<bar>)"
    by (rule rel_err_fl[OF fl u])
  then have b: "rel_err u 4 3 (fl (B / \<bar>zf\<bar>)) (B / \<bar>ze\<bar>)"
    by (rule rel_err_weaken[OF u]) simp_all
  have m: "rel_err u 4 3 (min (fl (B / \<bar>zf\<bar>)) (fl (A / xyf))) (min (B / \<bar>ze\<bar>) (A / xye))"
    using u b a by (rule rel_err_min)
  have k: "rel_err u 4 3 K K" by (rule rel_err_refl[OF u])
  show ?thesis using a b m k by (simp add: z0 xy0)
qed

lemma calculate_fl_rel:
  fixes fl :: "real \<Rightarrow> real" and C pc s s1
  assumes fl: "\<forall>x. \<bar>fl x - x\<bar> \<le> u * \<bar>x\<bar>" and u: "0 \<le> u" "u < 1"
      and x: "rel_err u 1 3 (x3 (pos_delta_unit s1)) (x3 ue)"
      and y: "rel_err u 1 3 (y3 (pos_delta_unit s1)) (y3 ue)"
      and z: "rel_err u 1 3 (z3 (pos_delta_unit s1)) (z3 ue)"
      and p: "wp_accel_cms s1 = wp_accel_cms s" "wp_speed_cms s1 = wp_speed_cms s"
             "wp_speed_up_cms s1 = wp_speed_up_cms s" "wp_speed_down_cms s1 = wp_speed_down_cms s"
  defines "sf \<equiv> calculate_wp_leash_length_fl fl C pc s1"
  defines "se \<equiv> calculate_wp_leash_length C pc (s\<lparr>pos_delta_unit := ue\<rparr>)"
  shows "rel_err u 4 3 (track_accel sf) (track_accel se)"
    and "rel_err u 4 3 (track_speed sf) (track_speed se)"
    and "rel_err u 4 3 (track_leash_length sf) (track_leash_length se)"
proof -
  define uf where "uf = pos_delta_unit s1"
  note x = x[folded uf_def] and y = y[folded uf_def] and z = z[folded uf_def]
  have xy: "rel_err u 3 3 (pythagorous2_fl fl (x3 uf) (y3 uf)) (pythagorous2 (x3 ue) (y3 ue))"
    using fl u x y by (rule pythagorous2_fl_rel)
  have sg: "0 \<le> z3 uf \<longleftrightarrow> 0 \<le> z3 ue" using u z by (rule rel_err_nonneg_iff)
  note F = leash_field_rel[OF fl u z xy]
  let ?xyf = "pythagorous2_fl fl (x3 uf) (y3 uf)" and ?xye = "pythagorous2 (x3 ue) (y3 ue)"
  let ?sz = "if 0 \<le> z3 ue then wp_speed_up_cms s else wp_speed_down_cms s"
  let ?lz = "if 0 \<le> z3 ue then leash_up_z pc else leash_down_z pc"
  have fa: "track_accel sf =
     (if \<bar>z3 uf\<bar> = 0 \<and> ?xyf = 0 then 0 else if z3 uf = 0 then fl (wp_accel_cms s / ?xyf)
      else if ?xyf = 0 then fl (WPNAV_ALT_HOLD_ACCEL_MAX C / \<bar>z3 uf\<bar>)
      else min (fl (WPNAV_ALT_HOLD_ACCEL_MAX C / \<bar>z3 uf\<bar>)) (fl (wp_accel_cms s / ?xyf)))"
    unfolding sf_def calculate_track_fields_fl uf_def[symmetric] by (simp add: p)
  have ea: "track_accel se =
     (if \<bar>z3 ue\<bar> = 0 \<and> ?xye = 0 then 0 else if z3 ue = 0 then wp_accel_cms s / ?xye
      else if ?xye = 0 then WPNAV_ALT_HOLD_ACCEL_MAX C / \<bar>z3 ue\<bar>
      else min (WPNAV_ALT_HOLD_ACCEL_MAX C / \<bar>z3 ue\<bar>) (wp_accel_cms s / ?xye))"
    unfolding se_def calculate_track_fields by simp
  show "rel_err u 4 3 (track_accel sf) (track_accel se)"
    unfolding fa ea by (rule F)
  have fs: "track_speed sf =
     (if \<bar>z3 uf\<bar> = 0 \<and> ?xyf = 0 then 0 else if z3 uf = 0 then fl (wp_speed_cms s / ?xyf)
      else if ?xyf = 0 then fl (?sz / \<bar>z3 uf\<bar>)
      else min (fl (?sz / \<bar>z3 uf\<bar>)) (fl (wp_speed_cms s / ?xyf)))"
    unfolding sf_def calculate_track_fields_fl uf_def[symmetric] by (simp add: sg p)
  have es: "track_speed se =
     (if \<bar>z3 ue\<bar> = 0 \<and> ?xye = 0 then 0 else if z3 ue = 0 then wp_speed_cms s / ?xye
      else if ?xye = 0 then ?sz / \<bar>z3 ue\<bar>
      else min (?sz / \<bar>z3 ue\<bar>) (wp_speed_cms s / ?xye))"
    unfolding se_def calculate_track_fields by simp
  show "rel_err u 4 3 (track_speed sf) (track_speed se)"
    unfolding fs es by (rule F)
  have fl': "track_leash_length sf =
     (if \<bar>z3 uf\<bar> = 0 \<and> ?xyf = 0 then WPNAV_LEASH_LENGTH_MIN C
      else if z3 uf = 0 then fl (leash_xy pc / ?xyf)
      else if ?xyf = 0 then fl (?lz / \<bar>z3 uf\<bar>)
      else min (fl (?lz / \<bar>z3 uf\<bar>)) (fl (leash_xy pc / ?xyf)))"
    unfolding sf_def calculate_track_fields_fl uf_def[symmetric] by (simp add: sg p)
  have el: "track_leash_length se =
     (if \<bar>z3 ue\<bar> = 0 \<and> ?xye = 0 then WPNAV_LEASH_LENGTH_MIN C
      else if z3 ue = 0 then leash_xy pc / ?xye
      else if ?xye = 0 then ?lz / \<bar>z3 ue\<bar>
      else min (?lz / \<bar>z3 ue\<bar>) (leash_xy pc / ?xye))"
    unfolding se_def calculate_track_fields by simp
  show "rel_err u 4 3 (track_leash_length sf) (track_leash_length se)"
    unfolding fl' el by (rule F)
qed

lemma set_wp_leash_fl_state:
  obtains s3 where
    "fst (set_wp_leash_fl fl C cxy cz org dest (s, pc))
       = calculate_wp_leash_length_fl fl C (wp_leash_pos_control C cxy cz s pc) s3"
    "pos_delta_unit s3 = (if vlength_fl fl (vsub_fl fl dest org) = 0 then \<lparr>x3 = 0, y3 = 0, z3 = 0\<rparr>
       else vdiv_fl fl (vsub_fl fl dest org) (vlength_fl fl (vsub_fl fl dest org)))"
    "wp_accel_cms s3 = (if wp_accel_cms s \<le> 0 then WPNAV_ACCELERATION C else wp_accel_cms s)"
    "wp_speed_cms s3 = wp_speed_cms s" "wp_speed_up_cms s3 = wp_speed_up_cms s"
    "wp_speed_down_cms s3 = wp_speed_down_cms s"
proof -
  define len where "len = vlength_fl fl (vsub_fl fl dest org)"
  define s1 where "s1 = s\<lparr>origin := org, destination := dest, track_length := len\<rparr>"
  define s2 where "s2 = (if len = 0 then s1\<lparr>pos_delta_unit := \<lparr>x3 = 0, y3 = 0, z3 = 0\<rparr>\<rparr>
                  else s1\<lparr>pos_delta_unit := vdiv_fl fl (vsub_fl fl dest org) len\<rparr>)"
  define s3 where "s3 = (if wp_accel_cms s \<le> 0 then s2\<lparr>wp_accel_cms := WPNAV_ACCELERATION C\<rparr> else s2)"
  have "fst (set_wp_leash_fl fl C cxy cz org dest (s, pc))
       = calculate_wp_leash_length_fl fl C (wp_leash_pos_control C cxy cz s pc) s3"
    unfolding s3_def s2_def s1_def len_def wp_leash_pos_control_def
    by (simp add: set_wp_leash_fl_def Let_def)
  moreover have "pos_delta_unit s3 = (if vlength_fl fl (vsub_fl fl dest org) = 0 then \<lparr>x3 = 0, y3 = 0, z3 = 0\<rparr>
       else vdiv_fl fl (vsub_fl fl dest org) (vlength_fl fl (vsub_fl fl dest org)))"
    unfolding s3_def s2_def s1_def len_def by simp
  moreover have "wp_accel_cms s3 = (if wp_accel_cms s \<le> 0 then WPNAV_ACCELERATION C else wp_accel_cms s)"
    "wp_speed_cms s3 = wp_speed_cms s" "wp_speed_up_cms s3 = wp_speed_up_cms s"
    "wp_speed_down_cms s3 = wp_speed_down_cms s"
    unfolding s3_def s2_def s1_def by simp_all
  ultimately show thesis by (rule that)
qed

lemma set_wp_leash_fl_accel:
  fixes fl C cxy cz org dest s pc
  defines "s0 \<equiv> fst (set_wp_leash_fl fl C cxy cz org dest (s, pc))"
  defines "u \<equiv> (if vlength_fl fl (vsub_fl fl dest org) = 0 then \<lparr>x3 = 0, y3 = 0, z3 = 0\<rparr>
      else vdiv_fl fl (vsub_fl fl dest org) (vlength_fl fl (vsub_fl fl dest org)))"
  defines "acc \<equiv> (if wp_accel_cms s \<le> 0 then WPNAV_ACCELERATION C else wp_accel_cms s)"
  shows "track_accel s0 =
           (if \<bar>z3 u\<bar> = 0 \<and> pythagorous2_fl fl (x3 u) (y3 u) = 0 then 0
            else if z3 u = 0 then fl (acc / pythagorous2_fl fl (x3 u) (y3 u))
            else if pythagorous2_fl fl (x3 u) (y3 u) = 0 then fl (WPNAV_ALT_HOLD_ACCEL_MAX C / \<bar>z3 u\<bar>)
            else min (fl (WPNAV_ALT_HOLD_ACCEL_MAX C / \<bar>z3 u\<bar>))
                     (fl (acc / pythagorous2_fl fl (x3 u) (y3 u))))"
proof -
  obtain s3 where S: "fst (set_wp_leash_fl fl C cxy cz org dest (s, pc))
       = calculate_wp_leash_length_fl fl C (wp_leash_pos_control C cxy cz s pc) s3"
    "pos_delta_unit s3 = u" "wp_accel_cms s3 = acc"
    unfolding u_def acc_def by (rule set_wp_leash_fl_state)
  show ?thesis unfolding s0_def S(1) calculate_track_fields_fl(1) S(2,3) ..
qed

lemma set_wp_leash_fl_rel:
  fixes fl :: "real \<Rightarrow> real" and C cxy cz pc s org dest
  assumes fl: "\<forall>x. \<bar>fl x - x\<bar> \<le> u * \<bar>x\<bar>" and u: "0 \<le> u" "u < 1"
  defines "sf \<equiv> fst (set_wp_leash_fl fl C cxy cz org dest (s, pc))"
  defines "se \<equiv> calculate_wp_leash_length C (wp_leash_pos_control C cxy cz s pc)
                   (s\<lparr>wp_accel_cms := (if wp_accel_cms s \<le> 0 then WPNAV_ACCELERATION C else wp_accel_cms s),
                      pos_delta_unit := unit_vector (vsub_fl fl dest org)\<rparr>)"
  shows "rel_err u 4 3 (track_accel sf) (track_accel se)"
    and "rel_err u 4 3 (track_speed sf) (track_speed se)"
    and "rel_err u 4 3 (track_leash_length sf) (track_leash_length se)"
proof -
  define acc where "acc = (if wp_accel_cms s \<le> 0 then WPNAV_ACCELERATION C else wp_accel_cms s)"
  define pc1 where "pc1 = wp_leash_pos_control C cxy cz s pc"
  obtain s3 where S: "fst (set_wp_leash_fl fl C cxy cz org dest (s, pc))
       = calculate_wp_leash_length_fl fl C pc1 s3"
    "pos_delta_unit s3 = (if vlength_fl fl (vsub_fl fl dest org) = 0 then \<lparr>x3 = 0, y3 = 0, z3 = 0\<rparr>
       else vdiv_fl fl (vsub_fl fl dest org) (vlength_fl fl (vsub_fl fl dest org)))"
    "wp_accel_cms s3 = acc"
    "wp_speed_cms s3 = wp_speed_cms s" "wp_speed_up_cms s3 = wp_speed_up_cms s"
    "wp_speed_down_cms s3 = wp_speed_down_cms s"
    unfolding acc_def pc1_def by (rule set_wp_leash_fl_state)
  note U = unit_vector_fl_rel[OF fl u, of "vsub_fl fl dest org", folded S(2)]
  have p: "wp_accel_cms s3 = wp_accel_cms (s\<lparr>wp_accel_cms := acc\<rparr>)"
    "wp_speed_cms s3 = wp_speed_cms (s\<lparr>wp_accel_cms := acc\<rparr>)"
    "wp_speed_up_cms s3 = wp_speed_up_cms (s\<lparr>wp_accel_cms := acc\<rparr>)"
    "wp_speed_down_cms s3 = wp_speed_down_cms (s\<lparr>wp_accel_cms := acc\<rparr>)"
    using S(3,4,5,6) by simp_all
  note K = calculate_fl_rel[OF fl u U p, of C pc1]
  show "rel_err u 4 3 (track_accel sf) (track_accel se)"
    unfolding sf_def se_def S(1) acc_def[symmetric] pc1_def[symmetric] by (rule K(1))
  show "rel_err u 4 3 (track_speed sf) (track_speed se)"
    unfolding sf_def se_def S(1) acc_def[symmetric] pc1_def[symmetric] by (rule K(2))
  show "rel_err u 4 3 (track_leash_length sf) (track_leash_length se)"
    unfolding sf_def se_def S(1) acc_def[symmetric] pc1_def[symmetric] by (rule K(3))
qed

subsection \<open>The examples in binary32\<close>

lemma example_loiter_capped:
  "calc_loiter_desired_velocity_fl round24 example_consts example_ahrs 0
     (example_wpnav, example_pos_control\<lparr>desired_vel := \<lparr>x2 = 600, y2 = 800\<rparr>\<rparr>)
   = (example_wpnav, example_pos_control\<lparr>desired_vel := \<lparr>x2 = 300, y2 = 400\<rparr>\<rparr>)"
  by (simp add: calc_loiter_desired_velocity_fl_def pythagorous2_fl_def Let_def
        example_consts_def example_ahrs_def example_wpnav_def example_pos_control_def
        get_desired_velocity_def set_desired_velocity_def
        round24_zero round24_numeral sqrt_1000000)

lemma example_loiter_overshoot:
  "calc_loiter_desired_velocity_fl round24 example_consts example_ahrs 0
     (example_wpnav, example_pos_control\<lparr>desired_vel := \<lparr>x2 = 400, y2 = 400\<rparr>\<rparr>)
   = (example_wpnav, example_pos_control\<lparr>desired_vel :=
        \<lparr>x2 = 11585238 / 32768, y2 = 11585238 / 32768\<rparr>\<rparr>)"
proof -
  have sq: "round24 (sqrt 320000) = 9268190 / 16384"
  proof -
    have "round24 (sqrt 320000) = of_int 9268190 * 2 powi (9 - 23)"
      by (rule round24_sqrt_eval) (simp_all add: power_divide)
    then show ?thesis by simp
  qed
  have dv: "round24 (200000 / (9268190 / 16384)) = 11585238 / 32768"
    by (simp add: round24_eval[where e = 8 and m = 11585238])
  have dv': "round24 (327680000 / 926819) = 5792619 / 16384"
    using dv by simp
  show ?thesis
    by (simp add: calc_loiter_desired_velocity_fl_def pythagorous2_fl_def Let_def
        example_consts_def example_ahrs_def example_wpnav_def example_pos_control_def
        get_desired_velocity_def set_desired_velocity_def
        round24_zero round24_numeral sq dv dv')
qed

lemma vlength_fl_eval:
  assumes "fl (x3 d * x3 d) = a" "fl (y3 d * y3 d) = b" "fl (a + b) = c"
      and "fl (z3 d * z3 d) = e" "fl (c + e) = f" "fl (sqrt f) = L"
  shows "vlength_fl fl d = L"
  unfolding vlength_fl_def assms ..

lemma pythagorous2_fl_eval:
  assumes "fl (a * a) = p" "fl (b * b) = q" "fl (p + q) = s" "fl (sqrt s) = t"
  shows "pythagorous2_fl fl a b = t"
  unfolding pythagorous2_fl_def assms ..

lemma example_short_length:
  "vlength_fl round24 \<lparr>x3 = 100, y3 = 200, z3 = 0\<rparr> = 14654295 / 65536"
proof (rule vlength_fl_eval[where a = 10000 and b = 40000 and c = 50000 and e = 0 and f = 50000])
  have "round24 (sqrt 50000) = of_int 14654295 * 2 powi (7 - 23)"
    by (rule round24_sqrt_eval) (simp_all add: power_divide)
  then show "round24 (sqrt 50000) = 14654295 / 65536" by simp
qed (simp_all add: round24_numeral round24_zero)

lemma example_long_length:
  "vlength_fl round24 \<lparr>x3 = 300, y3 = 600, z3 = 0\<rparr> = 10990721 / 16384"
proof (rule vlength_fl_eval[where a = 90000 and b = 360000 and c = 450000 and e = 0 and f = 450000])
  have "round24 (sqrt 450000) = of_int 10990721 * 2 powi (9 - 23)"
    by (rule round24_sqrt_eval) (simp_all add: power_divide)
  then show "round24 (sqrt 450000) = 10990721 / 16384" by simp
qed (simp_all add: round24_numeral round24_zero)

lemma example_short_unit:
  "(if vlength_fl round24 (vsub_fl round24 \<lparr>x3 = 100, y3 = 200, z3 = 0\<rparr> vzero) = 0
    then \<lparr>x3 = 0, y3 = 0, z3 = 0\<rparr>
    else vdiv_fl round24 (vsub_fl round24 \<lparr>x3 = 100, y3 = 200, z3 = 0\<rparr> vzero)
           (vlength_fl round24 (vsub_fl round24 \<lparr>x3 = 100, y3 = 200, z3 = 0\<rparr> vzero)))
   = \<lparr>x3 = 7502999 / 16777216, y3 = 7502999 / 8388608, z3 = 0\<rparr>"
proof -
  have x: "round24 (1310720 / 2930859) = 7502999 / 16777216"
  proof -
    have "round24 (1310720 / 2930859) = of_int 15005998 * 2 powi (- 2 - 23)"
      by (rule round24_eval) simp_all
    then show ?thesis by simp
  qed
  have y: "round24 (2621440 / 2930859) = 7502999 / 8388608"
  proof -
    have "round24 (2621440 / 2930859) = of_int 15005998 * 2 powi (- 1 - 23)"
      by (rule round24_eval) simp_all
    then show ?thesis by simp
  qed
  have d: "vsub_fl round24 \<lparr>x3 = 100, y3 = 200, z3 = 0\<rparr> vzero = \<lparr>x3 = 100, y3 = 200, z3 = 0\<rparr>"
    by (simp add: vsub_fl_def vzero_def round24_numeral round24_zero)
  show ?thesis
    unfolding d example_short_length
    by (simp add: vdiv_fl_def round24_zero x y)
qed

lemma example_long_unit:
  "(if vlength_fl round24 (vsub_fl round24 \<lparr>x3 = 300, y3 = 600, z3 = 0\<rparr> vzero) = 0
    then \<lparr>x3 = 0, y3 = 0, z3 = 0\<rparr>
    else vdiv_fl round24 (vsub_fl round24 \<lparr>x3 = 300, y3 = 600, z3 = 0\<rparr> vzero)
           (vlength_fl round24 (vsub_fl round24 \<lparr>x3 = 300, y3 = 600, z3 = 0\<rparr> vzero)))
   = \<lparr>x3 = 15005999 / 33554432, y3 = 15005999 / 16777216, z3 = 0\<rparr>"
proof -
  have x: "round24 (4915200 / 10990721) = 15005999 / 33554432"
  proof -
    have "round24 (4915200 / 10990721) = of_int 15005999 * 2 powi (- 2 - 23)"
      by (rule round24_eval) simp_all
    then show ?thesis by simp
  qed
  have y: "round24 (9830400 / 10990721) = 15005999 / 16777216"
  proof -
    have "round24 (9830400 / 10990721) = of_int 15005999 * 2 powi (- 1 - 23)"
      by (rule round24_eval) simp_all
    then show ?thesis by simp
  qed
  have d: "vsub_fl round24 \<lparr>x3 = 300, y3 = 600, z3 = 0\<rparr> vzero = \<lparr>x3 = 300, y3 = 600, z3 = 0\<rparr>"
    by (simp add: vsub_fl_def vzero_def round24_numeral round24_zero)
  show ?thesis
    unfolding d example_long_length
    by (simp add: vdiv_fl_def round24_zero x y)
qed

lemma example_short_unit_xy:
  "pythagorous2_fl round24 (7502999 / 16777216) (7502999 / 8388608) = 16777215 / 16777216"
proof (rule pythagorous2_fl_eval[where p = "3355443 / 16777216" and q = "3355443 / 4194304"
      and s = "16777215 / 16777216"])
  have "round24 (7502999 / 16777216 * (7502999 / 16777216)) = of_int 13421772 * 2 powi (- 3 - 23)"
    by (rule round24_eval) simp_all
  then show "round24 (7502999 / 16777216 * (7502999 / 16777216)) = 3355443 / 16777216" by simp
  have "round24 (7502999 / 8388608 * (7502999 / 8388608)) = of_int 13421772 * 2 powi (- 1 - 23)"
    by (rule round24_eval) simp_all
  then show "round24 (7502999 / 8388608 * (7502999 / 8388608)) = 3355443 / 4194304" by simp
  have "round24 (3355443 / 16777216 + 3355443 / 4194304) = of_int 16777215 * 2 powi (- 1 - 23)"
    by (rule round24_eval) simp_all
  then show "round24 (3355443 / 16777216 + 3355443 / 4194304) = 16777215 / 16777216" by simp
  have "round24 (sqrt (16777215 / 16777216)) = of_int 16777215 * 2 powi (- 1 - 23)"
    by (rule round24_sqrt_eval) (simp_all add: power_divide)
  then show "round24 (sqrt (16777215 / 16777216)) = 16777215 / 16777216" by simp
qed

lemma example_long_unit_xy:
  "pythagorous2_fl round24 (15005999 / 33554432) (15005999 / 16777216) = 1"
proof (rule pythagorous2_fl_eval[where p = "6710887 / 33554432" and q = "6710887 / 8388608"
      and s = "8388609 / 8388608"])
  have "round24 (15005999 / 33554432 * (15005999 / 33554432)) = of_int 13421774 * 2 powi (- 3 - 23)"
    by (rule round24_eval) simp_all
  then show "round24 (15005999 / 33554432 * (15005999 / 33554432)) = 6710887 / 33554432" by simp
  have "round24 (15005999 / 16777216 * (15005999 / 16777216)) = of_int 13421774 * 2 powi (- 1 - 23)"
    by (rule round24_eval) simp_all
  then show "round24 (15005999 / 16777216 * (15005999 / 16777216)) = 6710887 / 8388608" by simp
  have "round24 (6710887 / 33554432 + 6710887 / 8388608) = of_int 8388609 * 2 powi (0 - 23)"
    by (rule round24_eval) simp_all
  then show "round24 (6710887 / 33554432 + 6710887 / 8388608) = 8388609 / 8388608" by simp
  have "round24 (sqrt (8388609 / 8388608)) = of_int 8388608 * 2 powi (0 - 23)"
    by (rule round24_sqrt_eval) (simp_all add: power_divide)
  then show "round24 (sqrt (8388609 / 8388608)) = 1" by simp
qed

lemma example_short_accel:
  "track_accel (fst (set_wp_leash_fl round24 example_consts (\<lambda>p. p) (\<lambda>p. p) vzero \<lparr>x3 = 100, y3 = 200, z3 = 0\<rparr>
      (example_wpnav, example_pos_control)))
   = 13107201 / 131072"
proof -
  have a: "round24 (1677721600 / 16777215) = 13107201 / 131072"
  proof -
    have "round24 (1677721600 / 16777215) = of_int 13107201 * 2 powi (6 - 23)"
      by (rule round24_eval) simp_all
    then show ?thesis by simp
  qed
  have a': "round24 (335544320 / 3355443) = 13107201 / 131072"
    using a by simp
  show ?thesis
    unfolding set_wp_leash_fl_accel example_short_unit
    by (simp add: example_short_unit_xy example_wpnav_def a a')
qed

lemma example_long_accel:
  "track_accel (fst (set_wp_leash_fl round24 example_consts (\<lambda>p. p) (\<lambda>p. p) vzero \<lparr>x3 = 300, y3 = 600, z3 = 0\<rparr>
      (example_wpnav, example_pos_control)))
   = 100"
  unfolding set_wp_leash_fl_accel example_long_unit
  by (simp add: example_long_unit_xy example_wpnav_def round24_numeral)

section \<open>Verified properties\<close>

text \<open>
  C1. For every straight segment created by \<^verbatim>\<open>set_wp_origin_and_destination\<close> and every
  sequence of calls to \<^verbatim>\<open>advance_wp_target_along_track\<close> with \<open>dt \<ge> 0\<close>, whatever the
  inertial navigation and the position controller report, \<open>track_desired\<close> never decreases
  from one call to the next and always lies between 0 and \<open>track_length\<close>. The constants
  \<^verbatim>\<open>WPNAV_ACCELERATION\<close> and \<^verbatim>\<open>WPNAV_ALT_HOLD_ACCEL_MAX\<close> are taken positive and
  non-negative. The last conjunct says that the run is defined whenever no call divides
  by zero.
\<close>

theorem track_desired_monotone_bounded:
  assumes "0 < WPNAV_ACCELERATION C" and "0 \<le> WPNAV_ALT_HOLD_ACCEL_MAX C"
      and "s0 = fst (set_wp_origin_and_destination C calc_xy calc_z inav org dest (s, pc))"
      and "\<forall>t\<in>set ts. 0 \<le> tick_dt t"
  shows "(\<forall>ss. wp_run s0 ts = Some ss \<longrightarrow>
            sorted (map track_desired (s0 # ss)) \<and>
            (\<forall>s'\<in>set (s0 # ss). 0 \<le> track_desired s' \<and> track_desired s' \<le> track_length s0))
       \<and> ((\<forall>t\<in>set ts. tick_finite t) \<longrightarrow> (\<exists>ss. wp_run s0 ts = Some ss))"
proof -
  have inv0: "wp_inv s0" unfolding assms(3) using assms(1,2) by (rule set_wp_inv)
  have "sorted (map track_desired (s0 # ss)) \<and>
        (\<forall>s'\<in>set (s0 # ss). 0 \<le> track_desired s' \<and> track_desired s' \<le> track_length s0)"
    if run: "wp_run s0 ts = Some ss" for ss
  proof -
    from wp_run_monotone[OF run assms(4) inv0]
    have "sorted (map track_desired (s0 # ss))"
      and *: "\<forall>s'\<in>set ss. wp_inv s' \<and> track_length s' = track_length s0" by simp_all
    moreover have "0 \<le> track_desired s' \<and> track_desired s' \<le> track_length s0" if "s' \<in> set (s0 # ss)" for s'
      using that * inv0 by (auto simp: wp_inv_def)
    ultimately show ?thesis by blast
  qed
  then show ?thesis using wp_run_defined by blast
qed

theorem track_desired_monotone_bounded_witness:
  "\<exists>ss. wp_run example_segment
           [example_tick (1 / 10) vzero vzero, example_tick (1 / 10) vzero vzero] = Some ss
      \<and> sorted (map track_desired (example_segment # ss))
      \<and> list_all (\<lambda>s'. 0 \<le> track_desired s' \<and> track_desired s' \<le> track_length example_segment)
           (example_segment # ss)"
proof -
  have c: "0 < WPNAV_ACCELERATION example_consts" "0 \<le> WPNAV_ALT_HOLD_ACCEL_MAX example_consts"
    by (simp_all add: example_consts_def)
  have dt: "\<forall>t\<in>set [example_tick (1 / 10) vzero vzero, example_tick (1 / 10) vzero vzero]. 0 \<le> tick_dt t"
    by (simp add: example_tick_def)
  from track_desired_monotone_bounded[OF c example_segment_def dt] example_ticks_finite
  show ?thesis by (fastforce simp: list_all_iff)
qed

text \<open>
  C2, as stated, fails right after \<^verbatim>\<open>set_wp_origin_and_destination\<close>: the initial limited
  speed is clamped to \<open>[0, wp_speed_cms]\<close>, not to \<open>[0, track_speed]\<close>. On a vertical
  segment set while the vehicle climbs at 400 cm/s it is 400, above the track speed 250.
\<close>

theorem limited_speed_above_track_speed_after_set:
  "limited_speed_xy_cms example_climb_segment = 400
   \<and> track_speed example_climb_segment = 250
   \<and> \<not> limited_speed_xy_cms example_climb_segment \<le> track_speed example_climb_segment"
proof -
  have u: "pos_delta_unit example_climb_segment = \<lparr>x3 = 0, y3 = 0, z3 = 1\<rparr>"
    unfolding example_climb_segment_def
    by (simp add: set_wp_fields vsub_def vlength_def vdiv_def vzero_def sqrt_1000000)
  have ls: "limited_speed_xy_cms example_climb_segment = 400"
    unfolding example_climb_segment_def set_wp_fields(10) unfolding example_climb_segment_def[symmetric]
    by (simp add: wp_speed_along_track_def u constrain_float_def example_wpnav_def)
  have T: "track_speed example_climb_segment = 250"
    unfolding example_climb_segment_def set_wp_track_fields(2) unfolding example_climb_segment_def[symmetric]
    by (simp add: u pythagorous2_def example_wpnav_def)
  show ?thesis by (simp add: ls T)
qed

text \<open>
  C2, amended. With non-negative speed parameters \<open>wp_speed_cms\<close>, \<open>wp_speed_up_cms\<close> and
  \<open>wp_speed_down_cms\<close>: immediately after \<^verbatim>\<open>set_wp_origin_and_destination\<close> the limited
  speed lies between 0 and \<open>wp_speed_cms\<close>, and after every call to
  \<^verbatim>\<open>advance_wp_target_along_track\<close> (with any \<open>dt\<close>) it lies between 0 and \<open>track_speed\<close>.
\<close>

theorem limited_speed_bounds:
  assumes "0 < WPNAV_ACCELERATION C" and "0 \<le> WPNAV_ALT_HOLD_ACCEL_MAX C"
      and "0 \<le> wp_speed_cms s" and "0 \<le> wp_speed_up_cms s" and "0 \<le> wp_speed_down_cms s"
      and "s0 = fst (set_wp_origin_and_destination C calc_xy calc_z inav org dest (s, pc))"
  shows "0 \<le> limited_speed_xy_cms s0 \<and> limited_speed_xy_cms s0 \<le> wp_speed_cms s0
       \<and> (\<forall>ss. wp_run s0 ts = Some ss \<longrightarrow>
             (\<forall>s'\<in>set ss. 0 \<le> limited_speed_xy_cms s' \<and> limited_speed_xy_cms s' \<le> track_speed s'))
       \<and> ((\<forall>t\<in>set ts. tick_finite t) \<longrightarrow> (\<exists>ss. wp_run s0 ts = Some ss))"
proof -
  have ls0: "0 \<le> limited_speed_xy_cms s0" "limited_speed_xy_cms s0 \<le> wp_speed_cms s0"
    unfolding assms(6) using constrain_float_range[OF assms(3)]
    by (simp_all add: set_wp_fields)
  have T: "0 \<le> track_speed s0" unfolding assms(6) using assms(3,4,5) by (rule set_wp_speed_nonneg)
  have a: "0 \<le> track_accel s0" unfolding assms(6) using assms(1,2) by (rule set_wp_accel_nonneg)
  show ?thesis using ls0 wp_run_speed[OF _ ls0(1) T a] wp_run_defined by blast
qed

theorem limited_speed_bounds_witness:
  "0 \<le> limited_speed_xy_cms example_segment
   \<and> limited_speed_xy_cms example_segment \<le> wp_speed_cms example_segment
   \<and> (\<exists>ss. wp_run example_segment
           [example_tick (1 / 10) vzero vzero, example_tick (1 / 10) vzero vzero] = Some ss
      \<and> list_all (\<lambda>s'. 0 \<le> limited_speed_xy_cms s' \<and> limited_speed_xy_cms s' \<le> track_speed s') ss)"
proof -
  have c: "0 < WPNAV_ACCELERATION example_consts" "0 \<le> WPNAV_ALT_HOLD_ACCEL_MAX example_consts"
    by (simp_all add: example_consts_def)
  have p: "0 \<le> wp_speed_cms example_wpnav" "0 \<le> wp_speed_up_cms example_wpnav"
    "0 \<le> wp_speed_down_cms example_wpnav"
    by (simp_all add: example_wpnav_def)
  from limited_speed_bounds[OF c p example_segment_def,
      of "[example_tick (1 / 10) vzero vzero, example_tick (1 / 10) vzero vzero]"]
    example_ticks_finite
  show ?thesis by (fastforce simp: list_all_iff)
qed

text \<open>
  C3, as stated, fails in the arithmetic of the program. \<^verbatim>\<open>calculate_wp_leash_length\<close>
  reads the direction from \<open>pos_delta_unit\<close>, which \<^verbatim>\<open>set_wp_origin_and_destination\<close> has
  normalised, so the vector that can be rescaled is the segment \<open>destination - origin\<close>. In
  binary32 the level segment from the origin to (100, 200, 0) cm gets a horizontal unit length
  of \<open>1 - 2\<^sup>-\<^sup>2\<^sup>4\<close> and \<open>track_accel = 100 + 2\<^sup>-\<^sup>1\<^sup>7\<close>; the segment three times as long, to
  (300, 600, 0) cm, gets the unit length 1 and \<open>track_accel = 100\<close> (WP\_ACCEL is 100).
\<close>

theorem leash_length_differs_after_scaling:
  "vsub_fl round24 \<lparr>x3 = 300, y3 = 600, z3 = 0\<rparr> vzero
     = vmul (vsub_fl round24 \<lparr>x3 = 100, y3 = 200, z3 = 0\<rparr> vzero) 3
   \<and> track_accel (fst (set_wp_leash_fl round24 example_consts (\<lambda>p. p) (\<lambda>p. p) vzero \<lparr>x3 = 100, y3 = 200, z3 = 0\<rparr>
           (example_wpnav, example_pos_control)))
     = 13107201 / 131072
   \<and> track_accel (fst (set_wp_leash_fl round24 example_consts (\<lambda>p. p) (\<lambda>p. p) vzero \<lparr>x3 = 300, y3 = 600, z3 = 0\<rparr>
           (example_wpnav, example_pos_control)))
     = 100
   \<and> track_accel (fst (set_wp_leash_fl round24 example_consts (\<lambda>p. p) (\<lambda>p. p) vzero \<lparr>x3 = 300, y3 = 600, z3 = 0\<rparr>
           (example_wpnav, example_pos_control)))
     \<noteq> track_accel (fst (set_wp_leash_fl round24 example_consts (\<lambda>p. p) (\<lambda>p. p) vzero \<lparr>x3 = 100, y3 = 200, z3 = 0\<rparr>
           (example_wpnav, example_pos_control)))"
  unfolding example_short_accel example_long_accel
  by (simp add: vsub_fl_def vmul_def vzero_def round24_numeral round24_zero)

text \<open>
  C3, amended. Rescaling the segment vector \<open>destination - origin\<close> by a factor \<open>c > 0\<close>
  changes \<open>track_accel\<close>, \<open>track_speed\<close> and \<open>track_leash_length\<close>, as
  \<^verbatim>\<open>set_wp_origin_and_destination\<close> computes them, by rounding errors only: when every
  operation is rounded with a relative error of at most \<open>u < 1\<close>, each quantity of the rescaled
  segment is the quantity of the original segment times a factor between
  \<open>((1 - u) / (1 + u))\<^sup>7\<close> and \<open>((1 + u) / (1 - u))\<^sup>7\<close>. In exact arithmetic (\<open>u = 0\<close>) the
  quantities are equal; in binary32 \<open>u = 2\<^sup>-\<^sup>2\<^sup>4\<close>.
\<close>

theorem leash_length_rounded_scaling:
  fixes fl :: "real \<Rightarrow> real" and u c :: real
  assumes "\<forall>x. \<bar>fl x - x\<bar> \<le> u * \<bar>x\<bar>" and "0 \<le> u" and "u < 1" and "0 < c"
      and "vsub_fl fl dest' org' = vmul (vsub_fl fl dest org) c"
  shows "rel_err u 7 7
           (track_accel (fst (set_wp_leash_fl fl C cxy cz org' dest' (s, pc))))
           (track_accel (fst (set_wp_leash_fl fl C cxy cz org dest (s, pc))))
       \<and> rel_err u 7 7
           (track_speed (fst (set_wp_leash_fl fl C cxy cz org' dest' (s, pc))))
           (track_speed (fst (set_wp_leash_fl fl C cxy cz org dest (s, pc))))
       \<and> rel_err u 7 7
           (track_leash_length (fst (set_wp_leash_fl fl C cxy cz org' dest' (s, pc))))
           (track_leash_length (fst (set_wp_leash_fl fl C cxy cz org dest (s, pc))))"
proof -
  have e: "unit_vector (vsub_fl fl dest' org') = unit_vector (vsub_fl fl dest org)"
    unfolding assms(5) using assms(4) by (rule unit_vector_scale)
  note A = set_wp_leash_fl_rel[OF assms(1,2,3), of C cxy cz org dest s pc]
  note B = set_wp_leash_fl_rel[OF assms(1,2,3), of C cxy cz org' dest' s pc, unfolded e]
  have "rel_err u (4 + 3) (4 + 3)
           (track_accel (fst (set_wp_leash_fl fl C cxy cz org' dest' (s, pc))))
           (track_accel (fst (set_wp_leash_fl fl C cxy cz org dest (s, pc))))"
    using assms(2,3) A(1) B(1) by (rule rel_err_compare)
  moreover have "rel_err u (4 + 3) (4 + 3)
           (track_speed (fst (set_wp_leash_fl fl C cxy cz org' dest' (s, pc))))
           (track_speed (fst (set_wp_leash_fl fl C cxy cz org dest (s, pc))))"
    using assms(2,3) A(2) B(2) by (rule rel_err_compare)
  moreover have "rel_err u (4 + 3) (4 + 3)
           (track_leash_length (fst (set_wp_leash_fl fl C cxy cz org' dest' (s, pc))))
           (track_leash_length (fst (set_wp_leash_fl fl C cxy cz org dest (s, pc))))"
    using assms(2,3) A(3) B(3) by (rule rel_err_compare)
  ultimately show ?thesis by simp
qed

theorem leash_length_rounded_scaling_witness:
  "rel_err (1 / 2 ^ 24) 7 7 100 (13107201 / 131072)
   \<and> rel_err (1 / 2 ^ 24) 7 7
        (track_speed (fst (set_wp_leash_fl round24 example_consts (\<lambda>p. p) (\<lambda>p. p) vzero \<lparr>x3 = 300, y3 = 600, z3 = 0\<rparr>
           (example_wpnav, example_pos_control))))
        (track_speed (fst (set_wp_leash_fl round24 example_consts (\<lambda>p. p) (\<lambda>p. p) vzero \<lparr>x3 = 100, y3 = 200, z3 = 0\<rparr>
           (example_wpnav, example_pos_control))))
   \<and> rel_err (1 / 2 ^ 24) 7 7
        (track_leash_length (fst (set_wp_leash_fl round24 example_consts (\<lambda>p. p) (\<lambda>p. p) vzero \<lparr>x3 = 300, y3 = 600, z3 = 0\<rparr>
           (example_wpnav, example_pos_control))))
        (track_leash_length (fst (set_wp_leash_fl round24 example_consts (\<lambda>p. p) (\<lambda>p. p) vzero \<lparr>x3 = 100, y3 = 200, z3 = 0\<rparr>
           (example_wpnav, example_pos_control))))"
proof -
  have h: "\<forall>x. \<bar>round24 x - x\<bar> \<le> (1 / 2 ^ 24) * \<bar>x\<bar>" using round24_rel_error by blast
  have u0: "(0::real) \<le> 1 / 2 ^ 24" and u1: "(1::real) / 2 ^ 24 < 1" by simp_all
  have c: "(0::real) < 3" by simp
  have d: "vsub_fl round24 \<lparr>x3 = 300, y3 = 600, z3 = 0\<rparr> vzero
             = vmul (vsub_fl round24 \<lparr>x3 = 100, y3 = 200, z3 = 0\<rparr> vzero) 3"
    by (simp add: vsub_fl_def vmul_def vzero_def round24_numeral round24_zero)
  note inst = leash_length_rounded_scaling[OF h u0 u1 c d, of example_consts "\<lambda>p. p" "\<lambda>p. p"
      example_wpnav example_pos_control]
  then show ?thesis unfolding example_short_accel example_long_accel .
qed

text \<open>
  C4. For a segment of length zero (\<open>origin = destination\<close>) set with
  \<^verbatim>\<open>set_wp_origin_and_destination\<close>: \<open>pos_delta_unit\<close> is the zero vector,
  \<open>track_leash_length\<close> is \<^verbatim>\<open>WPNAV_LEASH_LENGTH_MIN\<close>, \<open>track_desired\<close> is 0 after every
  later call to \<^verbatim>\<open>advance_wp_target_along_track\<close>, and the waypoint (slow, as the setter
  leaves it) is marked reached by the first call that finds the vehicle within
  \<open>wp_radius_cm\<close> of the destination, and by none before it: after each call the flag
  \<open>reached_destination\<close> is set if and only if that call or an earlier one found the vehicle
  within the radius.
\<close>

theorem zero_length_segment:
  assumes "s0 = fst (set_wp_origin_and_destination C calc_xy calc_z inav org org (s, pc))"
  shows "pos_delta_unit s0 = \<lparr>x3 = 0, y3 = 0, z3 = 0\<rparr>
       \<and> track_leash_length s0 = WPNAV_LEASH_LENGTH_MIN C
       \<and> (\<forall>ss. wp_run s0 ts = Some ss \<longrightarrow>
             length ss = length ts \<and>
             (\<forall>i<length ts. track_desired (ss ! i) = 0 \<and>
                (reached_destination (flags (ss ! i)) \<longleftrightarrow>
                   (\<exists>j\<le>i. vlength (vsub (position (tick_inav (ts ! j))) org) \<le> wp_radius_cm s))))
       \<and> ((\<forall>t\<in>set ts. tick_finite t) \<longrightarrow> (\<exists>ss. wp_run s0 ts = Some ss))"
proof -
  have len: "vlength (vsub org org) = 0" by (simp add: vlength_def vsub_def)
  have u: "pos_delta_unit s0 = \<lparr>x3 = 0, y3 = 0, z3 = 0\<rparr>"
    unfolding assms by (simp add: set_wp_fields len)
  have leash: "track_leash_length s0 = WPNAV_LEASH_LENGTH_MIN C"
    unfolding assms set_wp_track_fields(3) unfolding assms[symmetric]
    by (simp add: u pythagorous2_def)
  have Z: "zero_segment org (wp_radius_cm s) s0"
    unfolding assms zero_segment_def by (simp add: set_wp_fields len)
  have nr: "\<not> reached_destination (flags s0)"
    unfolding assms by (simp add: set_wp_fields)
  have run: "length ss = length ts \<and>
             (\<forall>i<length ts. track_desired (ss ! i) = 0 \<and>
                (reached_destination (flags (ss ! i)) \<longleftrightarrow>
                   (\<exists>j\<le>i. vlength (vsub (position (tick_inav (ts ! j))) org) \<le> wp_radius_cm s)))"
    if "wp_run s0 ts = Some ss" for ss
    using zero_segment_run[OF that Z] nr by simp
  have total: "(\<forall>t\<in>set ts. tick_finite t) \<longrightarrow> (\<exists>ss. wp_run s0 ts = Some ss)"
    using wp_run_defined by blast
  have runall: "\<forall>ss. wp_run s0 ts = Some ss \<longrightarrow>
             length ss = length ts \<and>
             (\<forall>i<length ts. track_desired (ss ! i) = 0 \<and>
                (reached_destination (flags (ss ! i)) \<longleftrightarrow>
                   (\<exists>j\<le>i. vlength (vsub (position (tick_inav (ts ! j))) org) \<le> wp_radius_cm s)))"
  proof (intro allI impI)
    fix ss assume "wp_run s0 ts = Some ss"
    then show "length ss = length ts \<and>
             (\<forall>i<length ts. track_desired (ss ! i) = 0 \<and>
                (reached_destination (flags (ss ! i)) \<longleftrightarrow>
                   (\<exists>j\<le>i. vlength (vsub (position (tick_inav (ts ! j))) org) \<le> wp_radius_cm s)))"
      by (rule run)
  qed
  from u leash runall total show ?thesis by (intro conjI)
qed

theorem zero_length_segment_witness:
  "pos_delta_unit example_zero_segment = \<lparr>x3 = 0, y3 = 0, z3 = 0\<rparr>
   \<and> track_leash_length example_zero_segment = 100
   \<and> (\<exists>ss. wp_run example_zero_segment
             [example_tick (1 / 10) \<lparr>x3 = 1000, y3 = 0, z3 = 0\<rparr> vzero,
              example_tick (1 / 10) \<lparr>x3 = 100, y3 = 0, z3 = 0\<rparr> vzero] = Some ss
        \<and> length ss = 2 \<and> track_desired (ss ! 0) = 0 \<and> track_desired (ss ! 1) = 0
        \<and> \<not> reached_destination (flags (ss ! 0))
        \<and> reached_destination (flags (ss ! 1)))"
proof -
  define t0 where "t0 = example_tick (1 / 10) \<lparr>x3 = 1000, y3 = 0, z3 = 0\<rparr> vzero"
  define t1 where "t1 = example_tick (1 / 10) \<lparr>x3 = 100, y3 = 0, z3 = 0\<rparr> vzero"
  define near where
    "near = (\<lambda>t::wp_tick. vlength (vsub (position (tick_inav t)) vzero) \<le> wp_radius_cm example_wpnav)"
  note inst = zero_length_segment[OF example_zero_segment_def, of "[t0, t1]"]
  have fin: "\<forall>t\<in>set [t0, t1]. tick_finite t"
    unfolding t0_def t1_def by (rule example_ticks_finite)
  from inst have "(\<forall>t\<in>set [t0, t1]. tick_finite t) \<longrightarrow>
                    (\<exists>ss. wp_run example_zero_segment [t0, t1] = Some ss)"
    by (elim conjE)
  with fin obtain ss where ss: "wp_run example_zero_segment [t0, t1] = Some ss" by blast
  from inst have "\<forall>ss. wp_run example_zero_segment [t0, t1] = Some ss \<longrightarrow>
             length ss = length [t0, t1] \<and>
             (\<forall>i<length [t0, t1]. track_desired (ss ! i) = 0 \<and>
                (reached_destination (flags (ss ! i)) \<longleftrightarrow> (\<exists>j\<le>i. near ([t0, t1] ! j))))"
    unfolding near_def by (elim conjE)
  with ss have len: "length ss = length [t0, t1]"
    and all: "\<forall>i<length [t0, t1]. track_desired (ss ! i) = 0 \<and>
                (reached_destination (flags (ss ! i)) \<longleftrightarrow> (\<exists>j\<le>i. near ([t0, t1] ! j)))"
    by blast+
  have far: "\<not> near t0"
    unfolding near_def t0_def
    by (simp add: example_tick_def vlength_def vsub_def vzero_def example_wpnav_def sqrt_1000000)
  have close: "near t1"
    unfolding near_def t1_def
    by (simp add: example_tick_def vlength_def vsub_def vzero_def example_wpnav_def sqrt_10000)
  have "(0::nat) < length [t0, t1]" by simp
  with all have a0: "track_desired (ss ! 0) = 0"
    "reached_destination (flags (ss ! 0)) \<longleftrightarrow> (\<exists>j\<le>0. near ([t0, t1] ! j))"
    by blast+
  have "(1::nat) < length [t0, t1]" by simp
  with all have a1: "track_desired (ss ! 1) = 0"
    "reached_destination (flags (ss ! 1)) \<longleftrightarrow> (\<exists>j\<le>1. near ([t0, t1] ! j))"
    by blast+
  have r0: "\<not> reached_destination (flags (ss ! 0))"
    using a0(2) far by simp
  have "(1::nat) \<le> 1 \<and> near ([t0, t1] ! 1)" using close by simp
  then have "\<exists>j\<le>1. near ([t0, t1] ! j)" by blast
  then have r1: "reached_destination (flags (ss ! 1))"
    using a1(2) by blast
  have c: "WPNAV_LEASH_LENGTH_MIN example_consts = 100" by (simp add: example_consts_def)
  have u: "pos_delta_unit example_zero_segment = \<lparr>x3 = 0, y3 = 0, z3 = 0\<rparr>"
    and l: "track_leash_length example_zero_segment = 100"
    using inst c by simp_all
  have len2: "length ss = 2" using len by simp
  have "wp_run example_zero_segment [t0, t1] = Some ss
        \<and> length ss = 2 \<and> track_desired (ss ! 0) = 0 \<and> track_desired (ss ! 1) = 0
        \<and> \<not> reached_destination (flags (ss ! 0))
        \<and> reached_destination (flags (ss ! 1))"
    using ss len2 a0(1) a1(1) r0 r1 by (intro conjI)
  then have "\<exists>ss. wp_run example_zero_segment [t0, t1] = Some ss
        \<and> length ss = 2 \<and> track_desired (ss ! 0) = 0 \<and> track_desired (ss ! 1) = 0
        \<and> \<not> reached_destination (flags (ss ! 0))
        \<and> reached_destination (flags (ss ! 1))" ..
  with u l show ?thesis unfolding t0_def t1_def by (intro conjI)
qed

text \<open>
  C5, as stated, fails in the arithmetic of the program: the cap divides by a rounded
  magnitude and rounds the two quotients. In binary32, with LOIT\_SPEED 500, no pilot input,
  \<open>nav_dt = 0\<close> and a prior desired velocity of (400, 400) cm/s, \<open>vel_total\<close> is
  9268190 / 16384 and both components become 11585238 / 32768 = 353.5534057..., a velocity of
  magnitude 500.0000215... .
\<close>

theorem loiter_desired_velocity_exceeds_loiter_speed:
  "loiter_speed_cms (fst (calc_loiter_desired_velocity_fl round24 example_consts example_ahrs 0
       (example_wpnav, example_pos_control\<lparr>desired_vel := \<lparr>x2 = 400, y2 = 400\<rparr>\<rparr>)))
   < pythagorous2
       (x2 (get_desired_velocity (snd (calc_loiter_desired_velocity_fl round24 example_consts example_ahrs 0
          (example_wpnav, example_pos_control\<lparr>desired_vel := \<lparr>x2 = 400, y2 = 400\<rparr>\<rparr>)))))
       (y2 (get_desired_velocity (snd (calc_loiter_desired_velocity_fl round24 example_consts example_ahrs 0
          (example_wpnav, example_pos_control\<lparr>desired_vel := \<lparr>x2 = 400, y2 = 400\<rparr>\<rparr>)))))"
proof -
  define c :: real where "c = 11585238 / 32768"
  have "(250000::real) < c * c + c * c" by (simp add: c_def)
  then have "sqrt 250000 < sqrt (c * c + c * c)" by (simp only: real_sqrt_less_iff)
  then have "500 < pythagorous2 c c" by (simp only: sqrt_250000 pythagorous2_def)
  then show ?thesis
    unfolding example_loiter_overshoot c_def
    by (simp add: get_desired_velocity_def example_wpnav_def)
qed

text \<open>
  C5, amended. After every call to \<^verbatim>\<open>calc_loiter_desired_velocity\<close> with \<open>nav_dt \<ge> 0\<close>, the
  desired velocity handed to the position controller has a magnitude of at most
  \<open>loiter_speed_cms * ((1 + u) / (1 - u))\<^sup>2\<close>, where \<open>loiter_speed_cms\<close> is the value the call
  leaves (the larger of the stored parameter and \<^verbatim>\<open>WPNAV_LOITER_SPEED_MIN\<close>) and \<open>u < 1\<close>
  bounds the relative error of each rounded operation; for every pilot acceleration, yaw
  and prior desired velocity. In exact arithmetic (\<open>u = 0\<close>) the bound is \<open>loiter_speed_cms\<close>;
  in binary32 \<open>u = 2\<^sup>-\<^sup>2\<^sup>4\<close>. The constant \<^verbatim>\<open>WPNAV_LOITER_SPEED_MIN\<close> is taken positive.
\<close>

theorem loiter_desired_velocity_rounded_bound:
  fixes fl :: "real \<Rightarrow> real" and u :: real
  assumes "\<forall>x. \<bar>fl x - x\<bar> \<le> u * \<bar>x\<bar>" and "0 \<le> u" and "u < 1"
      and "0 < WPNAV_LOITER_SPEED_MIN C" and "0 \<le> nav_dt"
  shows "pythagorous2 (x2 (get_desired_velocity (snd (calc_loiter_desired_velocity_fl fl C ahrs nav_dt (s, pc)))))
                      (y2 (get_desired_velocity (snd (calc_loiter_desired_velocity_fl fl C ahrs nav_dt (s, pc)))))
         \<le> loiter_speed_cms (fst (calc_loiter_desired_velocity_fl fl C ahrs nav_dt (s, pc)))
             * ((1 + u) / (1 - u))\<^sup>2
       \<and> loiter_speed_cms (fst (calc_loiter_desired_velocity_fl fl C ahrs nav_dt (s, pc)))
         = max (loiter_speed_cms s) (WPNAV_LOITER_SPEED_MIN C)"
proof -
  define s1 where "s1 = (if loiter_speed_cms s < WPNAV_LOITER_SPEED_MIN C
                then s\<lparr>loiter_speed_cms := WPNAV_LOITER_SPEED_MIN C,
                        loiter_accel_cms := fl (WPNAV_LOITER_SPEED_MIN C / 2)\<rparr>
                else s)"
  have L: "loiter_speed_cms s1 = max (loiter_speed_cms s) (WPNAV_LOITER_SPEED_MIN C)"
    by (simp add: s1_def)
  then have L0: "0 \<le> loiter_speed_cms s1" using assms(4) by simp
  have n: "\<not> nav_dt < 0" using assms(5) by simp
  from calc_loiter_shape_fl[OF n, of fl C ahrs s pc, folded s1_def] obtain a b where
    r: "calc_loiter_desired_velocity_fl fl C ahrs nav_dt (s, pc) =
         (s1, set_desired_velocity
            (if pythagorous2_fl fl a b > loiter_speed_cms s1 \<and> pythagorous2_fl fl a b > 0
             then fl (fl (loiter_speed_cms s1 * a) / pythagorous2_fl fl a b) else a)
            (if pythagorous2_fl fl a b > loiter_speed_cms s1 \<and> pythagorous2_fl fl a b > 0
             then fl (fl (loiter_speed_cms s1 * b) / pythagorous2_fl fl a b) else b) pc)"
    by blast
  show ?thesis
    unfolding r fst_conv snd_conv
    using loiter_scale_bound_fl[OF assms(1,2,3) L0, of a b] L
    by (simp add: get_desired_velocity_def set_desired_velocity_def)
qed

theorem loiter_desired_velocity_rounded_bound_witness:
  "pythagorous2
     (x2 (get_desired_velocity (snd (calc_loiter_desired_velocity_fl round24 example_consts example_ahrs 0
        (example_wpnav, example_pos_control\<lparr>desired_vel := \<lparr>x2 = 600, y2 = 800\<rparr>\<rparr>)))))
     (y2 (get_desired_velocity (snd (calc_loiter_desired_velocity_fl round24 example_consts example_ahrs 0
        (example_wpnav, example_pos_control\<lparr>desired_vel := \<lparr>x2 = 600, y2 = 800\<rparr>\<rparr>)))))
   \<le> 500 * ((1 + 1 / 2 ^ 24) / (1 - 1 / 2 ^ 24))\<^sup>2
   \<and> get_desired_velocity (snd (calc_loiter_desired_velocity_fl round24 example_consts example_ahrs 0
        (example_wpnav, example_pos_control\<lparr>desired_vel := \<lparr>x2 = 600, y2 = 800\<rparr>\<rparr>)))
     = \<lparr>x2 = 300, y2 = 400\<rparr>"
proof -
  have h: "\<forall>x. \<bar>round24 x - x\<bar> \<le> (1 / 2 ^ 24) * \<bar>x\<bar>" using round24_rel_error by blast
  have u0: "(0::real) \<le> 1 / 2 ^ 24" and u1: "(1::real) / 2 ^ 24 < 1" by simp_all
  have c: "0 < WPNAV_LOITER_SPEED_MIN example_consts" by (simp add: example_consts_def)
  have dt: "(0::real) \<le> 0" by simp
  have L: "max (loiter_speed_cms example_wpnav) (WPNAV_LOITER_SPEED_MIN example_consts) = 500"
    by (simp add: example_wpnav_def example_consts_def)
  note inst = loiter_desired_velocity_rounded_bound[OF h u0 u1 c dt, of example_ahrs example_wpnav
      "example_pos_control\<lparr>desired_vel := \<lparr>x2 = 600, y2 = 800\<rparr>\<rparr>"]
  from inst have Lr: "loiter_speed_cms (fst (calc_loiter_desired_velocity_fl round24 example_consts example_ahrs 0
        (example_wpnav, example_pos_control\<lparr>desired_vel := \<lparr>x2 = 600, y2 = 800\<rparr>\<rparr>))) = 500"
    by (simp only: L)
  from inst have b: "pythagorous2
     (x2 (get_desired_velocity (snd (calc_loiter_desired_velocity_fl round24 example_consts example_ahrs 0
        (example_wpnav, example_pos_control\<lparr>desired_vel := \<lparr>x2 = 600, y2 = 800\<rparr>\<rparr>)))))
     (y2 (get_desired_velocity (snd (calc_loiter_desired_velocity_fl round24 example_consts example_ahrs 0
        (example_wpnav, example_pos_control\<lparr>desired_vel := \<lparr>x2 = 600, y2 = 800\<rparr>\<rparr>)))))
   \<le> 500 * ((1 + 1 / 2 ^ 24) / (1 - 1 / 2 ^ 24))\<^sup>2"
    unfolding Lr by (rule conjunct1)
  have v: "get_desired_velocity (snd (calc_loiter_desired_velocity_fl round24 example_consts example_ahrs 0
        (example_wpnav, example_pos_control\<lparr>desired_vel := \<lparr>x2 = 600, y2 = 800\<rparr>\<rparr>)))
     = \<lparr>x2 = 300, y2 = 400\<rparr>"
    unfolding example_loiter_capped by (simp add: get_desired_velocity_def)
  from b v show ?thesis by (rule conjI)
qed

text \<open>
  C6. \<^verbatim>\<open>update_spline_solution\<close> computes \<open>H0 = p0\<close>, \<open>H1 = v0\<close>,
  \<open>H2 = -3 p0 - 2 v0 + 3 p1 - v1\<close> and \<open>H3 = 2 p0 + v0 - 2 p1 + v1\<close>; for every \<open>t\<close> the
  position returned by \<^verbatim>\<open>calc_spline_pos_vel\<close> is \<open>H0 + H1 t + H2 t\<^sup>2 + H3 t\<^sup>3\<close>, the
  velocity is \<open>H1 + 2 H2 t + 3 H3 t\<^sup>2\<close>, and the velocity is the derivative of the position
  with respect to \<open>t\<close>, component by component.
\<close>

theorem spline_hermite_coefficients_and_derivative:
  "(let h = hermite_spline_solution (update_spline_solution p0 p1 v0 v1 s)
    in hermite0 h = p0 \<and> hermite1 h = v0
       \<and> x3 (hermite2 h) = - 3 * x3 p0 - 2 * x3 v0 + 3 * x3 p1 - x3 v1
       \<and> y3 (hermite2 h) = - 3 * y3 p0 - 2 * y3 v0 + 3 * y3 p1 - y3 v1
       \<and> z3 (hermite2 h) = - 3 * z3 p0 - 2 * z3 v0 + 3 * z3 p1 - z3 v1
       \<and> x3 (hermite3 h) = 2 * x3 p0 + x3 v0 - 2 * x3 p1 + x3 v1
       \<and> y3 (hermite3 h) = 2 * y3 p0 + y3 v0 - 2 * y3 p1 + y3 v1
       \<and> z3 (hermite3 h) = 2 * z3 p0 + z3 v0 - 2 * z3 p1 + z3 v1)
   \<and> (let h = hermite_spline_solution s'
       in x3 (fst (calc_spline_pos_vel s' t))
            = x3 (hermite0 h) + x3 (hermite1 h) * t + x3 (hermite2 h) * t\<^sup>2 + x3 (hermite3 h) * t ^ 3
        \<and> y3 (fst (calc_spline_pos_vel s' t))
            = y3 (hermite0 h) + y3 (hermite1 h) * t + y3 (hermite2 h) * t\<^sup>2 + y3 (hermite3 h) * t ^ 3
        \<and> z3 (fst (calc_spline_pos_vel s' t))
            = z3 (hermite0 h) + z3 (hermite1 h) * t + z3 (hermite2 h) * t\<^sup>2 + z3 (hermite3 h) * t ^ 3
        \<and> x3 (snd (calc_spline_pos_vel s' t))
            = x3 (hermite1 h) + 2 * x3 (hermite2 h) * t + 3 * x3 (hermite3 h) * t\<^sup>2
        \<and> y3 (snd (calc_spline_pos_vel s' t))
            = y3 (hermite1 h) + 2 * y3 (hermite2 h) * t + 3 * y3 (hermite3 h) * t\<^sup>2
        \<and> z3 (snd (calc_spline_pos_vel s' t))
            = z3 (hermite1 h) + 2 * z3 (hermite2 h) * t + 3 * z3 (hermite3 h) * t\<^sup>2)
   \<and> ((\<lambda>t. x3 (fst (calc_spline_pos_vel s' t))) has_real_derivative x3 (snd (calc_spline_pos_vel s' t))) (at t)
   \<and> ((\<lambda>t. y3 (fst (calc_spline_pos_vel s' t))) has_real_derivative y3 (snd (calc_spline_pos_vel s' t))) (at t)
   \<and> ((\<lambda>t. z3 (fst (calc_spline_pos_vel s' t))) has_real_derivative z3 (snd (calc_spline_pos_vel s' t))) (at t)"
proof -
  have upd: "hermite_spline_solution (update_spline_solution p0 p1 v0 v1 s) =
    \<lparr>hermite0 = p0, hermite1 = v0,
     hermite2 = vsub (vadd (vsub (vmul (vneg p0) 3) (vmul v0 2)) (vmul p1 3)) v1,
     hermite3 = vadd (vsub (vadd (vmul p0 2) v0) (vmul p1 2)) v1\<rparr>"
    by (simp add: update_spline_solution_def)
  have coeff: "let h = hermite_spline_solution (update_spline_solution p0 p1 v0 v1 s)
    in hermite0 h = p0 \<and> hermite1 h = v0
       \<and> x3 (hermite2 h) = - 3 * x3 p0 - 2 * x3 v0 + 3 * x3 p1 - x3 v1
       \<and> y3 (hermite2 h) = - 3 * y3 p0 - 2 * y3 v0 + 3 * y3 p1 - y3 v1
       \<and> z3 (hermite2 h) = - 3 * z3 p0 - 2 * z3 v0 + 3 * z3 p1 - z3 v1
       \<and> x3 (hermite3 h) = 2 * x3 p0 + x3 v0 - 2 * x3 p1 + x3 v1
       \<and> y3 (hermite3 h) = 2 * y3 p0 + y3 v0 - 2 * y3 p1 + y3 v1
       \<and> z3 (hermite3 h) = 2 * z3 p0 + z3 v0 - 2 * z3 p1 + z3 v1"
    unfolding upd by (simp add: Let_def vsub_def vadd_def vmul_def vneg_def)
  have pos: "x3 (fst (calc_spline_pos_vel s' t))
            = x3 (hermite0 (hermite_spline_solution s')) + x3 (hermite1 (hermite_spline_solution s')) * t
              + x3 (hermite2 (hermite_spline_solution s')) * t\<^sup>2 + x3 (hermite3 (hermite_spline_solution s')) * t ^ 3"
     "y3 (fst (calc_spline_pos_vel s' t))
            = y3 (hermite0 (hermite_spline_solution s')) + y3 (hermite1 (hermite_spline_solution s')) * t
              + y3 (hermite2 (hermite_spline_solution s')) * t\<^sup>2 + y3 (hermite3 (hermite_spline_solution s')) * t ^ 3"
     "z3 (fst (calc_spline_pos_vel s' t))
            = z3 (hermite0 (hermite_spline_solution s')) + z3 (hermite1 (hermite_spline_solution s')) * t
              + z3 (hermite2 (hermite_spline_solution s')) * t\<^sup>2 + z3 (hermite3 (hermite_spline_solution s')) * t ^ 3"
    for t
    by (simp_all add: calc_spline_pos_vel_def Let_def vadd_def vmul_def power2_eq_square power3_eq_cube)
  have vel: "x3 (snd (calc_spline_pos_vel s' t))
            = x3 (hermite1 (hermite_spline_solution s')) + 2 * x3 (hermite2 (hermite_spline_solution s')) * t
              + 3 * x3 (hermite3 (hermite_spline_solution s')) * t\<^sup>2"
     "y3 (snd (calc_spline_pos_vel s' t))
            = y3 (hermite1 (hermite_spline_solution s')) + 2 * y3 (hermite2 (hermite_spline_solution s')) * t
              + 3 * y3 (hermite3 (hermite_spline_solution s')) * t\<^sup>2"
     "z3 (snd (calc_spline_pos_vel s' t))
            = z3 (hermite1 (hermite_spline_solution s')) + 2 * z3 (hermite2 (hermite_spline_solution s')) * t
              + 3 * z3 (hermite3 (hermite_spline_solution s')) * t\<^sup>2"
    for t
    by (simp_all add: calc_spline_pos_vel_def Let_def vadd_def vmul_def power2_eq_square)
  have der: "((\<lambda>t. a + b * t + c * t\<^sup>2 + d * t ^ 3) has_real_derivative (b + 2 * c * t + 3 * d * t\<^sup>2)) (at t)"
    for a b c d :: real
    by (auto intro!: derivative_eq_intros simp: power2_eq_square)
  show ?thesis
    using coeff pos[of t] vel[of t] der unfolding pos vel by (simp add: Let_def)
qed

text \<open>
  C7, as stated, fails on the first call after the window has closed: with
  \<open>drift_init_count > 0\<close> the call assigns the filter's output for the sample 0 to
  \<open>drift_est\<close> before it computes the innovation. In the example the innovation is 22 m
  before the call (23 m as the call computes it) and \<open>drift_est\<close> goes from 2 to 1.
\<close>

theorem drift_gate_changes_estimate:
  "\<not> drift_init_window 3000 example_baro
   \<and> 0 \<le> drift_tc example_baro
   \<and> altitude example_baro + real_of_int (sint (alt_offset example_baro)) - drift_est example_baro
       - (- 20 - drift_gnd_level example_baro) = 22
   \<and> drift_est example_baro = 2
   \<and> drift_est (update_drift_estimate LowPassFilter_ops 3000 (- 20) 1 example_baro) = 1
   \<and> drift_est (update_drift_estimate LowPassFilter_ops 3000 (- 20) 1 example_baro)
     \<noteq> drift_est example_baro"
  by (simp add: update_drift_estimate_def drift_init_window_def Let_def example_baro_def
        LowPassFilter_ops_def lpf_set_time_constant_def lpf_apply_def)

text \<open>
  C7, amended. After the initialisation window has closed and with a non-negative drift
  time constant, an innovation of at least 5 m skips the innovation update of the
  filter. When the ground level has already been averaged (\<open>drift_init_count = 0\<close>) the
  call leaves \<open>drift_est\<close>, and the whole state, unchanged. On the first call after the
  window (\<open>drift_init_count > 0\<close>) \<open>drift_est\<close> and the filter are left as the
  initialising \<open>apply(0)\<close> made them, which is the estimate the innovation was computed
  from.
\<close>

theorem drift_gate_skips_update:
  assumes "\<not> drift_init_window millis s" and "0 \<le> drift_tc s"
  shows "(drift_init_count s = 0 \<and>
          5 \<le> altitude s + real_of_int (sint (alt_offset s)) - drift_est s - (alt - drift_gnd_level s)
          \<longrightarrow> update_drift_estimate F millis alt dt s = s)
       \<and> (0 < drift_init_count s \<and>
          5 \<le> altitude s + real_of_int (sint (alt_offset s))
               - fst (filter_apply F 0 (filter_set_time_constant F dt (drift_tc s) (drift_filter s)))
               - (alt - drift_gnd_level s / real (unat (drift_init_count s)))
          \<longrightarrow> drift_est (update_drift_estimate F millis alt dt s)
                = fst (filter_apply F 0 (filter_set_time_constant F dt (drift_tc s) (drift_filter s)))
              \<and> drift_filter (update_drift_estimate F millis alt dt s)
                = snd (filter_apply F 0 (filter_set_time_constant F dt (drift_tc s) (drift_filter s))))"
  using assms
  by (simp add: update_drift_estimate_def Let_def)

theorem drift_gate_skips_update_witness:
  "update_drift_estimate LowPassFilter_ops 3000 (- 20) 1 (example_baro\<lparr>drift_init_count := 0\<rparr>)
     = example_baro\<lparr>drift_init_count := 0\<rparr>
   \<and> drift_est (update_drift_estimate LowPassFilter_ops 3000 (- 20) 1 example_baro) = 1"
  using drift_gate_skips_update[where millis = 3000 and s = "example_baro\<lparr>drift_init_count := 0\<rparr>"
          and F = LowPassFilter_ops and alt = "- 20" and dt = 1]
        drift_gate_skips_update[where millis = 3000 and s = example_baro
          and F = LowPassFilter_ops and alt = "- 20" and dt = 1]
  by (simp add: drift_init_window_def example_baro_def
        LowPassFilter_ops_def lpf_set_time_constant_def lpf_apply_def)

text \<open>
  C8. If \<open>drift_tc\<close> is negative, then once the drift initialisation window has closed
  every call to \<^verbatim>\<open>update_drift_estimate\<close> leaves \<open>drift_est = 0\<close>, which
  \<^verbatim>\<open>get_drift_estimate\<close> returns.
\<close>

theorem drift_negative_tc_zero:
  assumes "\<not> drift_init_window millis s" and "drift_tc s < 0"
  shows "drift_est (update_drift_estimate F millis alt dt s) = 0
       \<and> get_drift_estimate (update_drift_estimate F millis alt dt s) = 0"
  using assms
  by (simp add: update_drift_estimate_def get_drift_estimate_def Let_def)

theorem drift_negative_tc_zero_witness:
  "drift_est (update_drift_estimate LowPassFilter_ops 3000 0 1 (example_baro\<lparr>drift_tc := - 1\<rparr>)) = 0
   \<and> get_drift_estimate (update_drift_estimate LowPassFilter_ops 3000 0 1 (example_baro\<lparr>drift_tc := - 1\<rparr>)) = 0"
  by (rule drift_negative_tc_zero) (simp_all add: drift_init_window_def example_baro_def)

text \<open>
  C9. Calling \<^verbatim>\<open>calc_loiter_desired_velocity\<close> with a negative \<open>nav_dt\<close> is a no-op: it
  returns at once and leaves the whole state as it was, the position controller's
  desired velocity, \<open>loiter_speed_cms\<close> and \<open>loiter_accel_cms\<close> included.
\<close>

theorem calc_loiter_negative_dt_noop:
  assumes "nav_dt < 0"
  shows "calc_loiter_desired_velocity C ahrs nav_dt (s, pc) = (s, pc)"
  using assms by (simp add: calc_loiter_desired_velocity_def)

theorem calc_loiter_negative_dt_noop_witness:
  "calc_loiter_desired_velocity example_consts \<lparr>cos_yaw = 1, sin_yaw = 0, yaw_sensor = 0\<rparr> (- 1)
     (example_wpnav\<lparr>loiter_speed_cms := 50, pilot_accel_fwd_cms := 250\<rparr>,
      example_pos_control\<lparr>desired_vel := \<lparr>x2 = 700, y2 = 100\<rparr>\<rparr>)
   = (example_wpnav\<lparr>loiter_speed_cms := 50, pilot_accel_fwd_cms := 250\<rparr>,
      example_pos_control\<lparr>desired_vel := \<lparr>x2 = 700, y2 = 100\<rparr>\<rparr>)"
  by (rule calc_loiter_negative_dt_noop) simp

text \<open>
  C10. \<^verbatim>\<open>set_horizontal_velocity\<close> range-checks the stored waypoint speed, not its
  argument: if the stored \<open>wp_speed_cms\<close> is at least \<^verbatim>\<open>WPNAV_WP_SPEED_MIN\<close>, the
  argument, whatever its value, becomes the stored speed and is passed to the position
  controller; if the stored speed is below the minimum, the call changes nothing.
\<close>

theorem set_horizontal_velocity_checks_stored:
  "(WPNAV_WP_SPEED_MIN C \<le> wp_speed_cms s \<longrightarrow>
      set_horizontal_velocity C velocity_cms (s, pc)
        = (s\<lparr>wp_speed_cms := velocity_cms\<rparr>, set_speed_xy velocity_cms pc)
      \<and> wp_speed_cms (fst (set_horizontal_velocity C velocity_cms (s, pc))) = velocity_cms
      \<and> speed_cms (snd (set_horizontal_velocity C velocity_cms (s, pc))) = velocity_cms)
   \<and> (wp_speed_cms s < WPNAV_WP_SPEED_MIN C \<longrightarrow>
      set_horizontal_velocity C velocity_cms (s, pc) = (s, pc))"
  by (simp add: set_horizontal_velocity_def Let_def set_speed_xy_def)

theorem set_horizontal_velocity_checks_stored_witness:
  "wp_speed_cms (fst (set_horizontal_velocity example_consts (- 5) (example_wpnav, example_pos_control))) = - 5
   \<and> speed_cms (snd (set_horizontal_velocity example_consts (- 5) (example_wpnav, example_pos_control))) = - 5
   \<and> set_horizontal_velocity example_consts 500
        (example_wpnav\<lparr>wp_speed_cms := - 5\<rparr>, example_pos_control)
      = (example_wpnav\<lparr>wp_speed_cms := - 5\<rparr>, example_pos_control)"
proof -
  have h1: "WPNAV_WP_SPEED_MIN example_consts \<le> wp_speed_cms example_wpnav"
    by (simp add: example_consts_def example_wpnav_def)
  have h2: "wp_speed_cms (example_wpnav\<lparr>wp_speed_cms := - 5\<rparr>) < WPNAV_WP_SPEED_MIN example_consts"
    by (simp add: example_consts_def)
  from h1 set_horizontal_velocity_checks_stored[of example_consts example_wpnav "- 5" example_pos_control]
  have "wp_speed_cms (fst (set_horizontal_velocity example_consts (- 5) (example_wpnav, example_pos_control))) = - 5"
    "speed_cms (snd (set_horizontal_velocity example_consts (- 5) (example_wpnav, example_pos_control))) = - 5"
    by blast+
  moreover from h2 set_horizontal_velocity_checks_stored[of example_consts
      "example_wpnav\<lparr>wp_speed_cms := - 5\<rparr>" 500 example_pos_control]
  have "set_horizontal_velocity example_consts 500
        (example_wpnav\<lparr>wp_speed_cms := - 5\<rparr>, example_pos_control)
      = (example_wpnav\<lparr>wp_speed_cms := - 5\<rparr>, example_pos_control)"
    by blast
  ultimately show ?thesis by blast
qed

end
